theory Spec2Isabelle
  imports Main "HOL-Library.Word"
begin

unbundle bit_operations_syntax

section \<open>JavaScript strings\<close>

text \<open>
  A JavaScript string is a sequence of UTF-16 code units. String constants of the
  source are written as HOL string literals and converted with \<open>js\<close>.
\<close>

type_synonym u8 = "8 word"
type_synonym u16 = "16 word"
type_synonym u32 = "32 word"
type_synonym jsstring = "u16 list"

definition js :: "string \<Rightarrow> jsstring" where
  "js s = map (\<lambda>c. of_nat (of_char c)) s"

section \<open>Rate limiter (lib/rate-limiter.ts)\<close>

record RateLimitEntry =
  count :: int
  firstRequest :: int
  lastRequest :: int

record RateLimitConfig =
  windowMs :: int
  maxRequests :: int

record RateLimitResult =
  allowed :: bool
  remaining :: int
  resetTime :: int
  retryAfter :: "int option"

text \<open>The in-memory \<open>rateLimitStore\<close>: a \<open>Map\<close> from key to entry.\<close>

type_synonym rate_store = "jsstring \<rightharpoonup> RateLimitEntry"

datatype config_key = flagSubmission | authentication | general | passwordReset

fun RATE_LIMIT_CONFIGS :: "config_key \<Rightarrow> RateLimitConfig" where
  "RATE_LIMIT_CONFIGS flagSubmission = \<lparr>windowMs = 60 * 1000, maxRequests = 5\<rparr>"
| "RATE_LIMIT_CONFIGS authentication = \<lparr>windowMs = 15 * 60 * 1000, maxRequests = 10\<rparr>"
| "RATE_LIMIT_CONFIGS general = \<lparr>windowMs = 60 * 1000, maxRequests = 60\<rparr>"
| "RATE_LIMIT_CONFIGS passwordReset = \<lparr>windowMs = 60 * 60 * 1000, maxRequests = 3\<rparr>"

fun configName :: "config_key \<Rightarrow> jsstring" where
  "configName flagSubmission = js ''flagSubmission''"
| "configName authentication = js ''authentication''"
| "configName general = js ''general''"
| "configName passwordReset = js ''passwordReset''"

text \<open>\<open>Math.ceil(x / 1000)\<close> on an integer number of milliseconds.\<close>

definition ceilSeconds :: "int \<Rightarrow> int" where
  "ceilSeconds x = - ((- x) div 1000)"

definition rateKey :: "jsstring \<Rightarrow> jsstring" where
  "rateKey identifier = js ''rate:'' @ identifier"

text \<open>
  \<open>checkRateLimit\<close>, with \<open>Date.now()\<close> and the store passed in and the updated
  store returned. The four branches are those of the source, in its order.
\<close>

definition checkRateLimit ::
  "jsstring \<Rightarrow> RateLimitConfig \<Rightarrow> int \<Rightarrow> rate_store \<Rightarrow> RateLimitResult \<times> rate_store" where
  "checkRateLimit identifier config now rateLimitStore =
     (let key = rateKey identifier in
      case rateLimitStore key of
        None \<Rightarrow>
          (\<lparr>allowed = True, remaining = maxRequests config - 1,
            resetTime = now + windowMs config, retryAfter = None\<rparr>,
           rateLimitStore(key \<mapsto> \<lparr>count = 1, firstRequest = now, lastRequest = now\<rparr>))
      | Some entry \<Rightarrow>
          if now - firstRequest entry > windowMs config then
            (\<lparr>allowed = True, remaining = maxRequests config - 1,
              resetTime = now + windowMs config, retryAfter = None\<rparr>,
             rateLimitStore(key \<mapsto> \<lparr>count = 1, firstRequest = now, lastRequest = now\<rparr>))
          else if count entry \<ge> maxRequests config then
            (\<lparr>allowed = False, remaining = 0,
              resetTime = firstRequest entry + windowMs config,
              retryAfter = Some (ceilSeconds (firstRequest entry + windowMs config - now))\<rparr>,
             rateLimitStore)
          else
            (let entry' = entry\<lparr>count := count entry + 1, lastRequest := now\<rparr> in
             (\<lparr>allowed = True, remaining = maxRequests config - count entry',
               resetTime = firstRequest entry' + windowMs config, retryAfter = None\<rparr>,
              rateLimitStore(key \<mapsto> entry'))))"

text \<open>Successive calls for one identifier, at the given clock readings.\<close>

fun checkRateLimits ::
  "jsstring \<Rightarrow> RateLimitConfig \<Rightarrow> int list \<Rightarrow> rate_store \<Rightarrow> RateLimitResult list \<times> rate_store" where
  "checkRateLimits identifier config [] st = ([], st)"
| "checkRateLimits identifier config (t # ts) st =
     (let (r, st') = checkRateLimit identifier config t st;
          (rs, st'') = checkRateLimits identifier config ts st'
      in (r # rs, st''))"

text \<open>No live window for the identifier at time \<open>now\<close>: no entry, or an expired one.\<close>

definition noLiveWindow :: "jsstring \<Rightarrow> RateLimitConfig \<Rightarrow> int \<Rightarrow> rate_store \<Rightarrow> bool" where
  "noLiveWindow identifier config now st =
     (case st (rateKey identifier) of
        None \<Rightarrow> True
      | Some entry \<Rightarrow> now - firstRequest entry > windowMs config)"

text \<open>The stored count of the identifier's entry, if there is one, is at most \<open>n\<close>.\<close>

definition countAtMost :: "int \<Rightarrow> jsstring \<Rightarrow> rate_store \<Rightarrow> bool" where
  "countAtMost n identifier st =
     (case st (rateKey identifier) of
        None \<Rightarrow> True
      | Some entry \<Rightarrow> count entry \<le> n)"

section \<open>String primitives of the JavaScript runtime\<close>

text \<open>
  \<open>String.prototype.trim\<close> removes the ECMAScript white space and line terminator
  code units from both ends.
\<close>

definition isWhiteSpace :: "u16 \<Rightarrow> bool" where
  "isWhiteSpace c =
     (c \<in> set [0x0009, 0x000A, 0x000B, 0x000C, 0x000D, 0x0020, 0x00A0, 0x1680,
                0x2028, 0x2029, 0x202F, 0x205F, 0x3000, 0xFEFF]
      \<or> (0x2000 \<le> c \<and> c \<le> 0x200A))"

definition trim :: "jsstring \<Rightarrow> jsstring" where
  "trim s = rev (dropWhile isWhiteSpace (rev (dropWhile isWhiteSpace s)))"

text \<open>
  \<open>String.prototype.toLowerCase\<close> is the case conversion of the runtime, computed
  from the tables of the Unicode version the runtime was built with. It is not code of
  this repository: the functions that call it take it as their first argument, and what
  is proved about them holds for every such function.
\<close>

text \<open>
  The UTF-8 encoding Node applies to a string handed to \<open>hash.update\<close>: a surrogate
  pair becomes the four bytes of its code point, and an unpaired surrogate becomes the
  three bytes of U+FFFD.
\<close>

definition utf8Replacement :: "u8 list" where
  "utf8Replacement = [0xEF, 0xBF, 0xBD]"

definition utf8Pair :: "u16 \<Rightarrow> u16 \<Rightarrow> u8 list" where
  "utf8Pair hi lo =
     (let cp = (0x10000 + push_bit 10 (ucast (hi - 0xD800)) + ucast (lo - 0xDC00)) :: u32
      in [0xF0 OR ucast (drop_bit 18 cp), 0x80 OR ucast (drop_bit 12 cp AND 0x3F),
          0x80 OR ucast (drop_bit 6 cp AND 0x3F), 0x80 OR ucast (cp AND 0x3F)])"

fun utf8 :: "jsstring \<Rightarrow> u8 list" where
  "utf8 [] = []"
| "utf8 (c # cs) =
     (if c < 0x80 then ucast c # utf8 cs
      else if c < 0x800 then
        [0xC0 OR ucast (drop_bit 6 c), 0x80 OR ucast (c AND 0x3F)] @ utf8 cs
      else if 0xD800 \<le> c \<and> c < 0xDC00 then
        (case cs of
           [] \<Rightarrow> utf8Replacement
         | d # ds \<Rightarrow>
             if 0xDC00 \<le> d \<and> d < 0xE000 then utf8Pair c d @ utf8 ds
             else utf8Replacement @ utf8 cs)
      else if 0xDC00 \<le> c \<and> c < 0xE000 then utf8Replacement @ utf8 cs
      else [0xE0 OR ucast (drop_bit 12 c), 0x80 OR ucast (drop_bit 6 c AND 0x3F),
            0x80 OR ucast (c AND 0x3F)] @ utf8 cs)"

section \<open>SHA-256 (\<open>createHash("sha256")\<close> of Node's crypto module)\<close>

text \<open>
  The digest of FIPS 180-4 on a list of bytes. The round constants are the first 32 bits
  of the fractional parts of the cube roots of the first 64 primes, the initial state
  those of the square roots of the first 8 primes.
\<close>

definition rotr :: "nat \<Rightarrow> u32 \<Rightarrow> u32" where
  "rotr n x = drop_bit n x OR push_bit (32 - n) x"

definition Ch :: "u32 \<Rightarrow> u32 \<Rightarrow> u32 \<Rightarrow> u32" where
  "Ch x y z = (x AND y) XOR (NOT x AND z)"

definition Maj :: "u32 \<Rightarrow> u32 \<Rightarrow> u32 \<Rightarrow> u32" where
  "Maj x y z = (x AND y) XOR (x AND z) XOR (y AND z)"

definition bigSigma0 :: "u32 \<Rightarrow> u32" where
  "bigSigma0 x = rotr 2 x XOR rotr 13 x XOR rotr 22 x"

definition bigSigma1 :: "u32 \<Rightarrow> u32" where
  "bigSigma1 x = rotr 6 x XOR rotr 11 x XOR rotr 25 x"

definition smallSigma0 :: "u32 \<Rightarrow> u32" where
  "smallSigma0 x = rotr 7 x XOR rotr 18 x XOR drop_bit 3 x"

definition smallSigma1 :: "u32 \<Rightarrow> u32" where
  "smallSigma1 x = rotr 17 x XOR rotr 19 x XOR drop_bit 10 x"

definition roundConstants :: "u32 list" where
  "roundConstants =
    [1116352408, 1899447441, 3049323471, 3921009573, 961987163, 1508970993,
     2453635748, 2870763221, 3624381080, 310598401, 607225278, 1426881987,
     1925078388, 2162078206, 2614888103, 3248222580, 3835390401, 4022224774,
     264347078, 604807628, 770255983, 1249150122, 1555081692, 1996064986,
     2554220882, 2821834349, 2952996808, 3210313671, 3336571891, 3584528711,
     113926993, 338241895, 666307205, 773529912, 1294757372, 1396182291,
     1695183700, 1986661051, 2177026350, 2456956037, 2730485921, 2820302411,
     3259730800, 3345764771, 3516065817, 3600352804, 4094571909, 275423344,
     430227734, 506948616, 659060556, 883997877, 958139571, 1322822218,
     1537002063, 1747873779, 1955562222, 2024104815, 2227730452, 2361852424,
     2428436474, 2756734187, 3204031479, 3329325298]"

definition initialState :: "u32 list" where
  "initialState =
    [1779033703, 3144134277, 1013904242, 2773480762,
     1359893119, 2600822924, 528734635, 1541459225]"

text \<open>The message schedule, newest word first: \<open>ws = [w(t-1), w(t-2), ...]\<close>.\<close>

fun schedule :: "nat \<Rightarrow> u32 list \<Rightarrow> u32 list" where
  "schedule 0 ws = ws"
| "schedule (Suc n) ws =
     schedule n ((smallSigma1 (ws ! 1) + ws ! 6 + smallSigma0 (ws ! 14) + ws ! 15) # ws)"

fun rounds :: "u32 list \<Rightarrow> u32 list \<Rightarrow> u32 list \<Rightarrow> u32 list" where
  "rounds (k # ks) (w # ws) [a, b, c, d, e, f, g, h] =
     (let t1 = h + bigSigma1 e + Ch e f g + k + w;
          t2 = bigSigma0 a + Maj a b c
      in rounds ks ws [t1 + t2, a, b, c, d + t1, e, f, g])"
| "rounds ks ws st = st"

fun bigEndianWords :: "u8 list \<Rightarrow> u32 list" where
  "bigEndianWords (a # b # c # d # r) =
     (push_bit 24 (ucast a) OR push_bit 16 (ucast b) OR push_bit 8 (ucast c) OR ucast d)
       # bigEndianWords r"
| "bigEndianWords r = []"

definition compress :: "u32 list \<Rightarrow> u8 list \<Rightarrow> u32 list" where
  "compress st block =
     map2 (+) st (rounds roundConstants (rev (schedule 48 (rev (bigEndianWords block)))) st)"

text \<open>
  Padding: the byte 0x80, zero bytes up to 56 modulo 64, then the bit length of the message
  as a 64-bit big-endian number.
\<close>

definition pad :: "u8 list \<Rightarrow> u8 list" where
  "pad m =
     (let l = length m
      in m @ [0x80] @ replicate ((119 - l mod 64) mod 64) 0
           @ map (\<lambda>i. ucast (drop_bit (8 * i) (word_of_nat (8 * l) :: 64 word)))
               [7, 6, 5, 4, 3, 2, 1, 0])"

fun blocks :: "nat \<Rightarrow> u32 list \<Rightarrow> u8 list \<Rightarrow> u32 list" where
  "blocks 0 st m = st"
| "blocks (Suc n) st m = blocks n (compress st (take 64 m)) (drop 64 m)"

definition wordBytes :: "u32 \<Rightarrow> u8 list" where
  "wordBytes w = [ucast (drop_bit 24 w), ucast (drop_bit 16 w), ucast (drop_bit 8 w), ucast w]"

definition sha256 :: "u8 list \<Rightarrow> u8 list" where
  "sha256 m = (let p = pad m in concat (map wordBytes (blocks (length p div 64) initialState p)))"

section \<open>Hexadecimal encoding (\<open>digest("hex")\<close>, \<open>Buffer.from(s, "hex")\<close>)\<close>

definition hexDigit :: "nat \<Rightarrow> u16" where
  "hexDigit n = of_nat (if n < 10 then 48 + n else 87 + n)"

definition hexByte :: "u8 \<Rightarrow> jsstring" where
  "hexByte b = [hexDigit (unat b div 16), hexDigit (unat b mod 16)]"

definition toHex :: "u8 list \<Rightarrow> jsstring" where
  "toHex bs = concat (map hexByte bs)"

text \<open>
  The value of a hexadecimal digit. Node's decoder looks up the low byte of the code unit
  in its table of digits.
\<close>

definition hexValue :: "u16 \<Rightarrow> nat option" where
  "hexValue c =
     (let v = unat (ucast c :: u8)
      in if 48 \<le> v \<and> v \<le> 57 then Some (v - 48)
         else if 97 \<le> v \<and> v \<le> 102 then Some (v - 87)
         else if 65 \<le> v \<and> v \<le> 70 then Some (v - 55)
         else None)"

text \<open>
  \<open>Buffer.from(s, "hex")\<close> decodes pairs of hexadecimal digits and stops at the first
  pair that is not one; a trailing single character is dropped.
\<close>

fun bufferFromHex :: "jsstring \<Rightarrow> u8 list" where
  "bufferFromHex (a # b # r) =
     (case (hexValue a, hexValue b) of
        (Some x, Some y) \<Rightarrow> of_nat (16 * x + y) # bufferFromHex r
      | _ \<Rightarrow> [])"
| "bufferFromHex r = []"

section \<open>Flag hashing and validation (lib/security.ts)\<close>

datatype error =
  SaltNotSet      \<comment> \<open>\<open>Error("FLAG_HASH_SALT environment variable is not set")\<close>\<close>
| StorageError    \<comment> \<open>a rejected document-store call\<close>
| TypeError       \<comment> \<open>destructuring \<open>null\<close>\<close>

text \<open>
  \<open>hashFlag\<close>, given the runtime's \<open>toLowerCase\<close> and
  \<open>process.env.FLAG_HASH_SALT\<close> (\<open>None\<close> when the variable is unset). The empty
  string is falsy, hence refused like an unset variable.
\<close>

definition hashFlag ::
  "(jsstring \<Rightarrow> jsstring) \<Rightarrow> jsstring option \<Rightarrow> jsstring \<Rightarrow> error + jsstring" where
  "hashFlag toLowerCase salt flag =
     (case salt of
        None \<Rightarrow> Inl SaltNotSet
      | Some s \<Rightarrow>
          if s = [] then Inl SaltNotSet
          else
            (let normalizedFlag = toLowerCase (trim flag)
             in Inr (toHex (sha256 (utf8 (s @ normalizedFlag))))))"

text \<open>
  \<open>validateFlag\<close>. \<open>timingSafeEqual\<close> on two buffers of one length is equality of
  their contents.
\<close>

definition validateFlag ::
  "(jsstring \<Rightarrow> jsstring) \<Rightarrow> jsstring option \<Rightarrow> jsstring \<Rightarrow> jsstring \<Rightarrow> error + bool" where
  "validateFlag toLowerCase salt submittedFlag storedHash =
     (case hashFlag toLowerCase salt submittedFlag of
        Inl e \<Rightarrow> Inl e
      | Inr submittedHash \<Rightarrow>
          (let submittedBuffer = bufferFromHex submittedHash;
               storedBuffer = bufferFromHex storedHash
           in if length submittedBuffer \<noteq> length storedBuffer then Inr False
              else Inr (submittedBuffer = storedBuffer)))"

text \<open>
  \<open>hashIpAddress\<close>: the first 16 hexadecimal digits of the salted digest, with the
  fallback salt of the source.
\<close>

definition hashIpAddress :: "jsstring option \<Rightarrow> jsstring \<Rightarrow> jsstring" where
  "hashIpAddress salt ip =
     (let s = (case salt of None \<Rightarrow> js ''default-salt''
               | Some v \<Rightarrow> if v = [] then js ''default-salt'' else v)
      in take 16 (toHex (sha256 (utf8 (s @ ip)))))"

section \<open>Input sanitization (lib/security.ts)\<close>

text \<open>
  The regular expressions of \<open>sanitizeInput\<close> carry the flags \<open>g\<close> and \<open>i\<close> without
  \<open>u\<close>: a pattern letter matches its two ASCII cases only, \<open>\w\<close> is
  \<open>[A-Za-z0-9_]\<close>, and matches are found left to right without overlap.
\<close>

definition upperAscii :: "u16 \<Rightarrow> u16" where
  "upperAscii c = (if 0x61 \<le> c \<and> c \<le> 0x7A then c - 0x20 else c)"

definition matchesIgnoreCase :: "jsstring \<Rightarrow> jsstring \<Rightarrow> bool" where
  "matchesIgnoreCase pattern s =
     (length pattern \<le> length s
      \<and> map upperAscii (take (length pattern) s) = map upperAscii pattern)"

definition isWordChar :: "u16 \<Rightarrow> bool" where
  "isWordChar c =
     ((0x30 \<le> c \<and> c \<le> 0x39) \<or> (0x41 \<le> c \<and> c \<le> 0x5A) \<or> c = 0x5F
      \<or> (0x61 \<le> c \<and> c \<le> 0x7A))"

text \<open>\<open>replace(/[<>]/g, "")\<close>\<close>

definition removeAngleBrackets :: "jsstring \<Rightarrow> jsstring" where
  "removeAngleBrackets s = filter (\<lambda>c. c \<noteq> 0x3C \<and> c \<noteq> 0x3E) s"

text \<open>\<open>replace(/javascript:/gi, "")\<close>: a match is eleven code units long.\<close>

fun removeJavascript :: "jsstring \<Rightarrow> jsstring" where
  "removeJavascript [] = []"
| "removeJavascript (c # cs) =
     (if matchesIgnoreCase (js ''javascript:'') (c # cs) then removeJavascript (drop 10 cs)
      else c # removeJavascript cs)"

text \<open>
  The length of the match of \<open>on\w+=\<close> at the start of a string, if there is one. The
  greedy \<open>\w+\<close> takes the whole run of word characters: \<open>=\<close> is not a word
  character, so no shorter run can be followed by it.
\<close>

definition handlerMatch :: "jsstring \<Rightarrow> nat option" where
  "handlerMatch s =
     (case s of
        a # b # r \<Rightarrow>
          if upperAscii a = 0x4F \<and> upperAscii b = 0x4E then
            (let w = takeWhile isWordChar r
             in if w \<noteq> [] \<and> take 1 (drop (length w) r) = [0x3D]
                then Some (length w + 3) else None)
          else None
      | _ \<Rightarrow> None)"

text \<open>\<open>replace(/on\w+=/gi, "")\<close>\<close>

fun removeHandlers :: "jsstring \<Rightarrow> jsstring" where
  "removeHandlers [] = []"
| "removeHandlers (c # cs) =
     (case handlerMatch (c # cs) of
        Some n \<Rightarrow> removeHandlers (drop (n - 1) cs)
      | None \<Rightarrow> c # removeHandlers cs)"

text \<open>
  \<open>sanitizeInput\<close> on a string argument (the guard \<open>!input\<close> returns the empty
  string for the empty string).
\<close>

definition sanitizeInput :: "jsstring \<Rightarrow> jsstring" where
  "sanitizeInput input =
     (if input = [] then []
      else take 10000 (removeHandlers (removeJavascript (removeAngleBrackets (trim input)))))"

section \<open>Documents and requests (types/index.ts)\<close>

text \<open>
  The fields the handlers compute with or send to a client. Of the user document the
  display fields (e-mail, display name, photo, rank) and of every document the
  timestamps are stored but neither inspected nor sent by the two handlers below, and
  are left out; so is the author of a challenge.
\<close>

record User =
  score :: int
  solvedChallenges :: "jsstring list"
  isAdmin :: bool
  isBanned :: bool

record ChallengeAttachment =
  name :: jsstring
  url :: jsstring
  type' :: jsstring
  size' :: int

text \<open>
  \<open>Challenge\<close> and \<open>ChallengePublic\<close> share their descriptive fields; the stored
  document adds \<open>flagHash\<close> and \<open>isActive\<close>, the public form \<open>id\<close> and
  \<open>isSolved\<close>.
\<close>

record ChallengeInfo =
  title :: jsstring
  description :: jsstring
  category :: jsstring
  difficulty :: jsstring
  points :: int
  hints :: "jsstring list"
  attachments :: "ChallengeAttachment list"
  solveCount :: int

record Challenge = ChallengeInfo +
  flagHash :: jsstring
  isActive :: bool

record ChallengePublic = ChallengeInfo +
  id' :: jsstring
  isSolved :: bool

record Submission =
  subChallengeId :: jsstring
  subUserId :: jsstring
  subCorrect :: bool
  subIpAddress :: jsstring

text \<open>
  The document store: users by identity id, challenges by document id (an association
  list, since the listing enumerates them), and the append-only submissions.
\<close>

record Database =
  users :: "jsstring \<rightharpoonup> User"
  challenges :: "(jsstring \<times> Challenge) list"
  submissions :: "Submission list"

record DecodedIdToken =
  uid :: jsstring
  email_verified :: bool

text \<open>The calls to the document store that a request makes, each of which may be rejected.\<close>

datatype store_call =
  ReadUser | ReadChallenge | AddSubmission | RunTransaction | ReadUpdatedUser | QueryChallenges

text \<open>
  What a request finds outside the handler: the salt variable, the runtime's
  \<open>String.prototype.toLowerCase\<close>, the identity provider (\<open>verifyIdToken\<close> with
  revocation check; \<open>None\<close> when it throws), the clock, and which store calls fail
  (an outage, or an id the store refuses as a document path).
\<close>

record Env =
  FLAG_HASH_SALT :: "jsstring option"
  toLowerCase :: "jsstring \<Rightarrow> jsstring"
  verifyIdToken :: "jsstring \<rightharpoonup> DecodedIdToken"
  dateNow :: int
  rejects :: "store_call \<Rightarrow> bool"

text \<open>A JSON value as the handler sees a property of the parsed body.\<close>

datatype json = JUndefined | JNull | JBool bool | JNumber int | JString jsstring | JObject

fun truthy :: "json \<Rightarrow> bool" where
  "truthy JUndefined = False"
| "truthy JNull = False"
| "truthy (JBool b) = b"
| "truthy (JNumber n) = (n \<noteq> 0)"
| "truthy (JString s) = (s \<noteq> [])"
| "truthy JObject = True"

fun isString :: "json \<Rightarrow> bool" where
  "isString (JString s) = True"
| "isString v = False"

fun stringOf :: "json \<Rightarrow> jsstring" where
  "stringOf (JString s) = s"
| "stringOf v = []"

text \<open>
  The request body: not JSON at all, the JSON value \<open>null\<close>, or any other value, of
  which the handler reads the properties \<open>challengeId\<close> and \<open>flag\<close>.
\<close>

datatype request_body = InvalidJson | JsonNull | JsonValue json json

record Request =
  authorization :: "jsstring option"
  xForwardedFor :: "jsstring option"
  xRealIp :: "jsstring option"
  xVercelForwardedFor :: "jsstring option"
  body :: request_body

section \<open>Responses (lib/api-utils.ts)\<close>

record SubmissionData =
  correct :: bool
  dataMessage :: string
  pointsAwarded :: "int option"
  newScore :: "int option"

datatype payload = NoData | Verdict SubmissionData | ChallengeList "ChallengePublic list"

record ApiResponse =
  success :: bool
  data :: payload
  error :: "string option"
  message :: "string option"

record HttpResponse =
  status :: nat
  json :: ApiResponse
  headers :: "(string \<times> int) list"

text \<open>A handler answers, or an exception leaves it and the framework answers for it.\<close>

datatype outcome = Responded HttpResponse | Uncaught error

definition AUTH_FAILED :: string where
  "AUTH_FAILED = ''Authentication failed. Please check your credentials.''"
definition INVALID_CREDENTIALS :: string where
  "INVALID_CREDENTIALS = ''Invalid email or password.''"
definition EMAIL_NOT_VERIFIED :: string where
  "EMAIL_NOT_VERIFIED = ''Please verify your email address before continuing.''"
definition RATE_LIMITED :: string where
  "RATE_LIMITED = ''Too many requests. Please try again later.''"
definition SERVER_ERROR :: string where
  "SERVER_ERROR = ''An unexpected error occurred. Please try again.''"
definition UNAUTHORIZED :: string where
  "UNAUTHORIZED = ''You are not authorized to perform this action.''"
definition NOT_FOUND :: string where
  "NOT_FOUND = ''The requested resource was not found.''"
definition VALIDATION_FAILED :: string where
  "VALIDATION_FAILED = ''Validation failed. Please check your input.''"
definition FLAG_INCORRECT :: string where
  "FLAG_INCORRECT = ''Incorrect flag. Keep trying!''"
definition FLAG_CORRECT :: string where
  "FLAG_CORRECT = ''Correct! Challenge solved.''"
definition ALREADY_SOLVED :: string where
  "ALREADY_SOLVED = ''You have already solved this challenge.''"

definition GENERIC_ERRORS :: "string list" where
  "GENERIC_ERRORS =
     [AUTH_FAILED, INVALID_CREDENTIALS, EMAIL_NOT_VERIFIED, RATE_LIMITED, SERVER_ERROR,
      UNAUTHORIZED, NOT_FOUND, VALIDATION_FAILED, FLAG_INCORRECT, FLAG_CORRECT, ALREADY_SOLVED]"

definition successResponse :: "payload \<Rightarrow> string option \<Rightarrow> HttpResponse" where
  "successResponse d m =
     \<lparr>status = 200, json = \<lparr>success = True, data = d, error = None, message = m\<rparr>,
      headers = []\<rparr>"

definition errorResponse :: "string \<Rightarrow> nat \<Rightarrow> HttpResponse" where
  "errorResponse e st =
     \<lparr>status = st, json = \<lparr>success = False, data = NoData, error = Some e, message = None\<rparr>,
      headers = []\<rparr>"

text \<open>\<open>createRateLimitHeaders\<close>: \<open>Retry-After\<close> is set when \<open>retryAfter\<close> is truthy.\<close>

definition createRateLimitHeaders :: "RateLimitResult \<Rightarrow> (string \<times> int) list" where
  "createRateLimitHeaders result =
     [(''X-RateLimit-Remaining'', remaining result), (''X-RateLimit-Reset'', resetTime result)]
     @ (case retryAfter result of
          None \<Rightarrow> []
        | Some r \<Rightarrow> if r \<noteq> 0 then [(''Retry-After'', r)] else [])"

definition rateLimitedResponse :: "RateLimitResult \<Rightarrow> HttpResponse" where
  "rateLimitedResponse result =
     \<lparr>status = 429,
      json = \<lparr>success = False, data = NoData, error = Some RATE_LIMITED, message = None\<rparr>,
      headers = createRateLimitHeaders result\<rparr>"

section \<open>Request helpers (lib/api-utils.ts)\<close>

text \<open>\<open>s.split(",")[0].trim()\<close>\<close>

definition firstListed :: "jsstring \<Rightarrow> jsstring" where
  "firstListed s = trim (takeWhile (\<lambda>c. c \<noteq> 0x2C) s)"

text \<open>A header that is set and not empty (an empty string is falsy).\<close>

definition truthyHeader :: "jsstring option \<Rightarrow> jsstring option" where
  "truthyHeader h = (case h of None \<Rightarrow> None | Some v \<Rightarrow> if v = [] then None else Some v)"

definition getClientIp :: "Request \<Rightarrow> jsstring" where
  "getClientIp request =
     (case truthyHeader (xForwardedFor request) of
        Some forwardedFor \<Rightarrow> firstListed forwardedFor
      | None \<Rightarrow>
          (case truthyHeader (xRealIp request) of
             Some realIp \<Rightarrow> realIp
           | None \<Rightarrow>
               (case truthyHeader (xVercelForwardedFor request) of
                  Some vercelIp \<Rightarrow> firstListed vercelIp
                | None \<Rightarrow> js ''unknown'')))"

definition startsWith :: "jsstring \<Rightarrow> jsstring \<Rightarrow> bool" where
  "startsWith prefix s = (take (length prefix) s = prefix)"

definition verifyAuthToken :: "Env \<Rightarrow> Request \<Rightarrow> DecodedIdToken option" where
  "verifyAuthToken env request =
     (case authorization request of
        None \<Rightarrow> None
      | Some authHeader \<Rightarrow>
          if authHeader = [] \<or> \<not> startsWith (js ''Bearer '') authHeader then None
          else verifyIdToken env (drop 7 authHeader))"

record AuthenticatedContext =
  user :: DecodedIdToken
  userData :: "User option"
  ipHash :: jsstring

text \<open>
  \<open>authenticateRequest\<close> with \<open>requireEmailVerified = true\<close>: a rejection response, or
  the context; the read of the user document is not guarded, so its failure leaves the
  function as an exception.
\<close>

definition authenticateRequest ::
  "Env \<Rightarrow> Request \<Rightarrow> Database \<Rightarrow> error + (HttpResponse + AuthenticatedContext)" where
  "authenticateRequest env request db =
     (case verifyAuthToken env request of
        None \<Rightarrow> Inr (Inl (errorResponse UNAUTHORIZED 401))
      | Some decodedToken \<Rightarrow>
          if \<not> email_verified decodedToken then Inr (Inl (errorResponse EMAIL_NOT_VERIFIED 403))
          else if rejects env ReadUser then Inl StorageError
          else
            (let userData = users db (uid decodedToken)
             in if (case userData of None \<Rightarrow> False | Some d \<Rightarrow> isBanned d)
                then Inr (Inl (errorResponse UNAUTHORIZED 403))
                else Inr (Inr \<lparr>user = decodedToken, userData = userData,
                                ipHash = hashIpAddress (FLAG_HASH_SALT env) (getClientIp request)\<rparr>)))"

text \<open>
  \<open>applyRateLimit\<close>: the identifier defaults to the hashed address when none (or an
  empty one) is given.
\<close>

definition applyRateLimit ::
  "Env \<Rightarrow> Request \<Rightarrow> config_key \<Rightarrow> jsstring option \<Rightarrow> rate_store
     \<Rightarrow> (RateLimitResult \<times> jsstring) \<times> rate_store" where
  "applyRateLimit env request configKey identifier store =
     (let ip = getClientIp request;
          ipHash = hashIpAddress (FLAG_HASH_SALT env) ip;
          finalIdentifier = (case truthyHeader identifier of Some i \<Rightarrow> i | None \<Rightarrow> ipHash);
          config = RATE_LIMIT_CONFIGS configKey;
          (result, store') =
            checkRateLimit (configName configKey @ js '':'' @ finalIdentifier) config
              (dateNow env) store
      in ((result, finalIdentifier), store'))"

section \<open>Flag submission (app/api/challenges/submit/route.ts)\<close>

text \<open>\<open>FieldValue.arrayUnion\<close>: the element is appended unless it is there already.\<close>

definition arrayUnion :: "jsstring \<Rightarrow> jsstring list \<Rightarrow> jsstring list" where
  "arrayUnion x xs = (if x \<in> set xs then xs else xs @ [x])"

text \<open>An update of the document stored under a key of a collection.\<close>

fun updateDoc :: "jsstring \<Rightarrow> ('a \<Rightarrow> 'a) \<Rightarrow> (jsstring \<times> 'a) list \<Rightarrow> (jsstring \<times> 'a) list" where
  "updateDoc k f [] = []"
| "updateDoc k f ((k', v) # r) = (if k' = k then (k, f v) # r else (k', v) # updateDoc k f r)"

text \<open>The user document that the transaction creates for an identity without one.\<close>

definition newUserDocument :: User where
  "newUserDocument = \<lparr>score = 0, solvedChallenges = [], isAdmin = False, isBanned = False\<rparr>"

text \<open>
  The callback handed to \<open>runTransaction\<close>, as one step on the database: the read of
  the user document, the writes it queues and their commit. \<open>challenge\<close> is the document
  the handler read before the transaction. An \<open>update\<close> of a document that does not
  exist makes the commit fail, and then nothing is written.
\<close>

definition scoreTransaction ::
  "DecodedIdToken \<Rightarrow> jsstring \<Rightarrow> Challenge \<Rightarrow> Database \<Rightarrow> error + Database" where
  "scoreTransaction decodedToken challengeId challenge db =
     (let userDoc = users db (uid decodedToken);
          currentUserData = (case userDoc of None \<Rightarrow> newUserDocument | Some d \<Rightarrow> d);
          currentSolved = (case userDoc of None \<Rightarrow> [] | Some d \<Rightarrow> solvedChallenges d);
          created = (case userDoc of
                       None \<Rightarrow> db\<lparr>users := (users db)(uid decodedToken \<mapsto> newUserDocument)\<rparr>
                     | Some d \<Rightarrow> db)
      in if challengeId \<in> set currentSolved then Inr created
         else
           (let newScore = score currentUserData + points challenge;
                updated = currentUserData
                  \<lparr>score := newScore,
                   solvedChallenges := arrayUnion challengeId (solvedChallenges currentUserData)\<rparr>
            in case map_of (challenges db) challengeId of
                 None \<Rightarrow> Inl StorageError
               | Some stored \<Rightarrow>
                   Inr (db\<lparr>users := (users db)(uid decodedToken \<mapsto> updated),
                           challenges := updateDoc challengeId
                             (\<lambda>c. c\<lparr>solveCount := solveCount c + 1\<rparr>) (challenges db)\<rparr>)))"

text \<open>The transaction run \<open>n\<close> times in a row for one identity and challenge.\<close>

fun scoreTransactions ::
  "nat \<Rightarrow> DecodedIdToken \<Rightarrow> jsstring \<Rightarrow> Challenge \<Rightarrow> Database \<Rightarrow> error + Database" where
  "scoreTransactions 0 decodedToken challengeId challenge db = Inr db"
| "scoreTransactions (Suc n) decodedToken challengeId challenge db =
     (case scoreTransaction decodedToken challengeId challenge db of
        Inl e \<Rightarrow> Inl e
      | Inr db' \<Rightarrow> scoreTransactions n decodedToken challengeId challenge db')"

definition verdict :: "bool \<Rightarrow> string \<Rightarrow> int option \<Rightarrow> int option \<Rightarrow> payload" where
  "verdict c m p s = Verdict \<lparr>correct = c, dataMessage = m, pointsAwarded = p, newScore = s\<rparr>"

text \<open>
  The \<open>try\<close> block of \<open>POST\<close>: the response it returns or the exception it throws,
  together with the database as the block leaves it.
\<close>

definition submitFlag ::
  "Env \<Rightarrow> AuthenticatedContext \<Rightarrow> jsstring \<Rightarrow> jsstring \<Rightarrow> jsstring \<Rightarrow> Database
     \<Rightarrow> (error + HttpResponse) \<times> Database" where
  "submitFlag env ctx clientIpHash challengeId sanitizedFlag db =
     (if (case userData ctx of None \<Rightarrow> False | Some d \<Rightarrow> challengeId \<in> set (solvedChallenges d))
      then (Inr (successResponse (verdict False ALREADY_SOLVED None None) (Some ALREADY_SOLVED)), db)
      else if rejects env ReadChallenge then (Inl StorageError, db)
      else
        (case map_of (challenges db) challengeId of
           None \<Rightarrow> (Inr (errorResponse NOT_FOUND 404), db)
         | Some challenge \<Rightarrow>
             if \<not> isActive challenge then (Inr (errorResponse NOT_FOUND 404), db)
             else
               (case validateFlag (toLowerCase env) (FLAG_HASH_SALT env) sanitizedFlag
                       (flagHash challenge) of
                  Inl e \<Rightarrow> (Inl e, db)
                | Inr isCorrect \<Rightarrow>
                    if rejects env AddSubmission then (Inl StorageError, db)
                    else
                      (let submissionData =
                             \<lparr>subChallengeId = challengeId, subUserId = uid (user ctx),
                              subCorrect = isCorrect, subIpAddress = clientIpHash\<rparr>;
                           recorded = db\<lparr>submissions := submissions db @ [submissionData]\<rparr>
                       in if isCorrect then
                            (if rejects env RunTransaction then (Inl StorageError, recorded)
                             else
                               (case scoreTransaction (user ctx) challengeId challenge recorded of
                                  Inl e \<Rightarrow> (Inl e, recorded)
                                | Inr committed \<Rightarrow>
                                    if rejects env ReadUpdatedUser
                                    then (Inl StorageError, committed)
                                    else
                                      (Inr (successResponse
                                              (verdict True FLAG_CORRECT (Some (points challenge))
                                                 (Some (case users committed (uid (user ctx)) of
                                                          None \<Rightarrow> 0
                                                        | Some d \<Rightarrow> score d)))
                                              None),
                                       committed)))
                          else
                            (Inr (successResponse (verdict False FLAG_INCORRECT None None) None),
                             recorded)))))"

record Result =
  response :: outcome
  database :: Database
  limiter :: rate_store

text \<open>
  \<open>POST\<close>: authentication, then the rate limit keyed by hashed address and identity,
  then the body and its validation, then the \<open>try\<close> block, whose exceptions become
  the generic server error.
\<close>

definition POST :: "Env \<Rightarrow> Request \<Rightarrow> Database \<Rightarrow> rate_store \<Rightarrow> Result" where
  "POST env request db store =
     (let clientIp = getClientIp request;
          clientIpHash = hashIpAddress (FLAG_HASH_SALT env) clientIp
      in case authenticateRequest env request db of
           Inl e \<Rightarrow> \<lparr>response = Uncaught e, database = db, limiter = store\<rparr>
         | Inr (Inl authResult) \<Rightarrow>
             \<lparr>response = Responded authResult, database = db, limiter = store\<rparr>
         | Inr (Inr ctx) \<Rightarrow>
             (let rateLimitKey = clientIpHash @ js '':'' @ uid (user ctx);
                  ((rateLimit, identifier), store') =
                    applyRateLimit env request flagSubmission (Some rateLimitKey) store
              in if \<not> allowed rateLimit then
                   \<lparr>response = Responded (rateLimitedResponse rateLimit), database = db,
                    limiter = store'\<rparr>
                 else
                   (case body request of
                      InvalidJson \<Rightarrow>
                        \<lparr>response = Responded (errorResponse ''Invalid request body'' 400),
                         database = db, limiter = store'\<rparr>
                    | JsonNull \<Rightarrow>
                        \<lparr>response = Uncaught TypeError, database = db, limiter = store'\<rparr>
                    | JsonValue challengeId flag \<Rightarrow>
                        if \<not> truthy challengeId \<or> \<not> isString challengeId then
                          \<lparr>response = Responded (errorResponse VALIDATION_FAILED 400),
                           database = db, limiter = store'\<rparr>
                        else if \<not> truthy flag \<or> \<not> isString flag then
                          \<lparr>response = Responded (errorResponse VALIDATION_FAILED 400),
                           database = db, limiter = store'\<rparr>
                        else
                          (let sanitizedFlag = sanitizeInput (stringOf flag)
                           in if length sanitizedFlag = 0 \<or> length sanitizedFlag > 256 then
                                \<lparr>response = Responded (errorResponse VALIDATION_FAILED 400),
                                 database = db, limiter = store'\<rparr>
                              else
                                (case submitFlag env ctx clientIpHash (stringOf challengeId)
                                        sanitizedFlag db of
                                   (Inr r, db') \<Rightarrow>
                                     \<lparr>response = Responded r, database = db',
                                      limiter = store'\<rparr>
                                 | (Inl e, db') \<Rightarrow>
                                     \<lparr>response = Responded (errorResponse SERVER_ERROR 500),
                                      database = db', limiter = store'\<rparr>)))))"

section \<open>Challenge listing (app/api/challenges/route.ts)\<close>

text \<open>
  The transformation of a stored challenge to its public form: the ten properties the
  source lists, of which \<open>flagHash\<close> is none.
\<close>

definition toPublic :: "jsstring list \<Rightarrow> jsstring \<times> Challenge \<Rightarrow> ChallengePublic" where
  "toPublic solved doc =
     (case doc of (docId, d) \<Rightarrow>
        \<lparr>title = title d, description = description d, category = category d,
         difficulty = difficulty d, points = points d, hints = hints d,
         attachments = attachments d, solveCount = solveCount d,
         id' = docId, isSolved = (docId \<in> set solved)\<rparr>)"

text \<open>
  The query for the active challenges. The order the store returns them in (by category,
  then difficulty) is a permutation that no property below depends on; the collection's
  own order stands for it.
\<close>

definition activeChallenges :: "Database \<Rightarrow> (jsstring \<times> Challenge) list" where
  "activeChallenges db = filter (\<lambda>doc. isActive (snd doc)) (challenges db)"

definition GET :: "Env \<Rightarrow> Request \<Rightarrow> Database \<Rightarrow> rate_store \<Rightarrow> Result" where
  "GET env request db store =
     (let ((rateLimit, identifier), store') = applyRateLimit env request general None store
      in if \<not> allowed rateLimit then
           \<lparr>response = Responded (rateLimitedResponse rateLimit), database = db,
            limiter = store'\<rparr>
         else
           (case authenticateRequest env request db of
              Inl e \<Rightarrow> \<lparr>response = Uncaught e, database = db, limiter = store'\<rparr>
            | Inr (Inl authResult) \<Rightarrow>
                \<lparr>response = Responded authResult, database = db, limiter = store'\<rparr>
            | Inr (Inr ctx) \<Rightarrow>
                if rejects env QueryChallenges then
                  \<lparr>response = Responded (errorResponse ''Failed to fetch challenges'' 500),
                   database = db, limiter = store'\<rparr>
                else
                  (let solved = (case userData ctx of None \<Rightarrow> [] | Some d \<Rightarrow> solvedChallenges d);
                       listed = map (toPublic solved) (activeChallenges db)
                   in \<lparr>response = Responded (successResponse (ChallengeList listed) None),
                       database = db, limiter = store'\<rparr>)))"

section \<open>The score invariant\<close>

text \<open>The point value of a challenge id in the store (0 when no such document exists).\<close>

definition pointsOf :: "Database \<Rightarrow> jsstring \<Rightarrow> int" where
  "pointsOf db c = (case map_of (challenges db) c of None \<Rightarrow> 0 | Some ch \<Rightarrow> points ch)"

text \<open>
  A user document's score is the sum of the point values of the challenges in its solved
  set.
\<close>

definition scoreConsistent :: "Database \<Rightarrow> User \<Rightarrow> bool" where
  "scoreConsistent db d = (score d = sum (pointsOf db) (set (solvedChallenges d)))"

section \<open>Abbreviations for statements about \<open>POST\<close>\<close>

text \<open>The rate-limit call that \<open>POST\<close> makes for an authenticated context.\<close>

abbreviation flagRateLimit ::
  "Env \<Rightarrow> Request \<Rightarrow> AuthenticatedContext \<Rightarrow> rate_store
     \<Rightarrow> (RateLimitResult \<times> jsstring) \<times> rate_store" where
  "flagRateLimit env request ctx store \<equiv>
     applyRateLimit env request flagSubmission
       (Some (hashIpAddress (FLAG_HASH_SALT env) (getClientIp request) @ js '':'' @ uid (user ctx)))
       store"

section \<open>What a response body shows\<close>

text \<open>The strings of an attachment, of a public challenge, and of a whole response body.\<close>

definition attachmentStrings :: "ChallengeAttachment \<Rightarrow> jsstring list" where
  "attachmentStrings a = [name a, url a, type' a]"

definition publicStringsOf :: "ChallengePublic \<Rightarrow> jsstring list" where
  "publicStringsOf c =
     [id' c, title c, description c, category c, difficulty c] @ hints c
     @ concat (map attachmentStrings (attachments c))"

fun payloadStrings :: "payload \<Rightarrow> jsstring list" where
  "payloadStrings NoData = []"
| "payloadStrings (Verdict d) = [js (dataMessage d)]"
| "payloadStrings (ChallengeList cs) = concat (map publicStringsOf cs)"

definition bodyStrings :: "HttpResponse \<Rightarrow> jsstring list" where
  "bodyStrings r =
     (case error (json r) of None \<Rightarrow> [] | Some e \<Rightarrow> [js e])
     @ (case message (json r) of None \<Rightarrow> [] | Some m \<Rightarrow> [js m])
     @ payloadStrings (data (json r))"

text \<open>
  The public attributes of the stored challenges: document id, title, description,
  category, difficulty, hints and attachments.
\<close>

definition publicStrings :: "Database \<Rightarrow> jsstring list" where
  "publicStrings db =
     concat (map (\<lambda>doc. [fst doc, title (snd doc), description (snd doc), category (snd doc),
                          difficulty (snd doc)] @ hints (snd doc)
                         @ concat (map attachmentStrings (attachments (snd doc))))
               (challenges db))"

text \<open>The database with every stored fingerprint replaced, as a function of id and document.\<close>

definition refingerprint :: "(jsstring \<Rightarrow> Challenge \<Rightarrow> jsstring) \<Rightarrow> Database \<Rightarrow> Database" where
  "refingerprint h db =
     db\<lparr>challenges := map (\<lambda>doc. (fst doc, (snd doc)\<lparr>flagHash := h (fst doc) (snd doc)\<rparr>))
                          (challenges db)\<rparr>"

text \<open>The database without the challenge document of a given id.\<close>

definition deleteChallenge :: "jsstring \<Rightarrow> Database \<Rightarrow> Database" where
  "deleteChallenge challengeId db =
     db\<lparr>challenges := filter (\<lambda>doc. fst doc \<noteq> challengeId) (challenges db)\<rparr>"

section \<open>Example inputs\<close>

text \<open>
  A limiter store in which the identifier \<open>u\<close> has used up the five requests of the
  flag-submission policy in a window that began at time 0.
\<close>

definition exhaustedStore :: rate_store where
  "exhaustedStore = [rateKey (js ''u'') \<mapsto> \<lparr>count = 5, firstRequest = 0, lastRequest = 4000\<rparr>]"

text \<open>
  A store with two active challenges and the verified user \<open>alice\<close>, who has solved
  the first of them.
\<close>

definition challengeOne :: Challenge where
  "challengeOne =
     \<lparr>title = js ''ROT13 Rookie'', description = js ''Decode the text'', category = js ''crypto'',
      difficulty = js ''easy'', points = 500, hints = [], attachments = [], solveCount = 3,
      flagHash = js ''00'', isActive = True\<rparr>"

definition digitsFile :: ChallengeAttachment where
  "digitsFile =
     \<lparr>name = js ''digits.txt'', url = js ''https://files.example/digits.txt'',
      type' = js ''text/plain'', size' = 120\<rparr>"

definition challengeTwo :: Challenge where
  "challengeTwo =
     \<lparr>title = js ''Hex Madness'', description = js ''Convert the digits'', category = js ''crypto'',
      difficulty = js ''medium'', points = 250, hints = [js ''base 16''],
      attachments = [digitsFile], solveCount = 0,
      flagHash = js ''ff'', isActive = True\<rparr>"

definition aliceToken :: DecodedIdToken where
  "aliceToken = \<lparr>uid = js ''alice'', email_verified = True\<rparr>"

definition aliceDocument :: User where
  "aliceDocument =
     \<lparr>score = 500, solvedChallenges = [js ''c1''], isAdmin = False, isBanned = False\<rparr>"

definition exampleDatabase :: Database where
  "exampleDatabase =
     \<lparr>users = [js ''alice'' \<mapsto> aliceDocument],
      challenges = [(js ''c1'', challengeOne), (js ''c2'', challengeTwo)],
      submissions = []\<rparr>"

text \<open>A limiter store in which every key has used up the flag-submission policy.\<close>

definition saturatedStore :: rate_store where
  "saturatedStore = (\<lambda>key. Some \<lparr>count = 5, firstRequest = 0, lastRequest = 0\<rparr>)"

text \<open>
  The case conversion of the examples lower-cases the letters of Basic Latin and Latin-1
  and leaves every other code unit as it is. On a string of code units below U+0100 and
  of unpaired surrogates, which is what every example string is, that is the result of
  \<open>String.prototype.toLowerCase\<close>.
\<close>

definition lowerUnit :: "u16 \<Rightarrow> u16" where
  "lowerUnit c =
     (if (0x41 \<le> c \<and> c \<le> 0x5A) \<or> (0xC0 \<le> c \<and> c \<le> 0xDE \<and> c \<noteq> 0xD7)
      then c + 0x20 else c)"

definition toLowerCaseLatin1 :: "jsstring \<Rightarrow> jsstring" where
  "toLowerCaseLatin1 s = map lowerUnit s"

text \<open>
  An environment at time 1000 whose identity provider knows alice's token and the token
  of bob, whose e-mail address is not verified; no store call fails.
\<close>

definition bobToken :: DecodedIdToken where
  "bobToken = \<lparr>uid = js ''bob'', email_verified = False\<rparr>"

definition exampleEnv :: Env where
  "exampleEnv =
     \<lparr>FLAG_HASH_SALT = Some (js ''pepper''),
      toLowerCase = toLowerCaseLatin1,
      verifyIdToken = [js ''token-alice'' \<mapsto> aliceToken, js ''token-bob'' \<mapsto> bobToken],
      dateNow = 1000,
      rejects = (\<lambda>call. False)\<rparr>"

text \<open>A submission request carrying a bearer token and the two body properties.\<close>

definition submission :: "jsstring \<Rightarrow> json \<Rightarrow> json \<Rightarrow> Request" where
  "submission token challengeId flag =
     \<lparr>authorization = Some (js ''Bearer '' @ token), xForwardedFor = None, xRealIp = None,
      xVercelForwardedFor = None, body = JsonValue challengeId flag\<rparr>"

text \<open>The same request without an \<open>Authorization\<close> header.\<close>

definition anonymousSubmission :: "json \<Rightarrow> json \<Rightarrow> Request" where
  "anonymousSubmission challengeId flag =
     \<lparr>authorization = None, xForwardedFor = None, xRealIp = None,
      xVercelForwardedFor = None, body = JsonValue challengeId flag\<rparr>"

text \<open>The example store with its second challenge taken out of service.\<close>

definition retiredDatabase :: Database where
  "retiredDatabase =
     exampleDatabase\<lparr>challenges :=
       [(js ''c1'', challengeOne), (js ''c2'', challengeTwo\<lparr>isActive := False\<rparr>)]\<rparr>"

text \<open>
  Bob, whose e-mail address is not verified, submits a flag; so does a caller without
  credentials.
\<close>

definition bobRequest :: Request where
  "bobRequest = submission (js ''token-bob'') (JString (js ''c2'')) (JString (js ''guess''))"

definition bobContext :: AuthenticatedContext where
  "bobContext =
     \<lparr>user = bobToken, userData = None,
      ipHash = hashIpAddress (FLAG_HASH_SALT exampleEnv) (getClientIp bobRequest)\<rparr>"

definition anonymousRequest :: Request where
  "anonymousRequest = anonymousSubmission (JString (js ''c2'')) (JString (js ''guess''))"

text \<open>Alice submits the flag \<open>guess\<close> for a challenge id given as a JSON value.\<close>

definition aliceRequest :: "json \<Rightarrow> Request" where
  "aliceRequest challengeId = submission (js ''token-alice'') challengeId (JString (js ''guess''))"

definition aliceContext :: "json \<Rightarrow> AuthenticatedContext" where
  "aliceContext challengeId =
     \<lparr>user = aliceToken, userData = Some aliceDocument,
      ipHash = hashIpAddress (FLAG_HASH_SALT exampleEnv) (getClientIp (aliceRequest challengeId))\<rparr>"

text \<open>The example store with alice banned.\<close>

definition bannedDatabase :: Database where
  "bannedDatabase = exampleDatabase\<lparr>users := [js ''alice'' \<mapsto> aliceDocument\<lparr>isBanned := True\<rparr>]\<rparr>"

text \<open>
  A change of fingerprints that replaces every one of them; alice's request for the
  listing; and the listing she is sent.
\<close>

definition otherFingerprint :: "jsstring \<Rightarrow> Challenge \<Rightarrow> jsstring" where
  "otherFingerprint k c = js ''ee''"

definition listingRequest :: Request where
  "listingRequest =
     \<lparr>authorization = Some (js ''Bearer '' @ js ''token-alice''), xForwardedFor = None,
      xRealIp = None, xVercelForwardedFor = None, body = InvalidJson\<rparr>"

definition exampleListing :: "ChallengePublic list" where
  "exampleListing =
     [\<lparr>title = js ''ROT13 Rookie'', description = js ''Decode the text'', category = js ''crypto'',
       difficulty = js ''easy'', points = 500, hints = [], attachments = [], solveCount = 3,
       id' = js ''c1'', isSolved = True\<rparr>,
      \<lparr>title = js ''Hex Madness'', description = js ''Convert the digits'', category = js ''crypto'',
       difficulty = js ''medium'', points = 250, hints = [js ''base 16''],
       attachments = [digitsFile], solveCount = 0,
       id' = js ''c2'', isSolved = False\<rparr>]"

text \<open>Alice's submission with the body \<open>null\<close>.\<close>

definition nullRequest :: Request where
  "nullRequest =
     \<lparr>authorization = Some (js ''Bearer '' @ js ''token-alice''), xForwardedFor = None,
      xRealIp = None, xVercelForwardedFor = None, body = JsonNull\<rparr>"

text \<open>An environment like the example one in which the read of the user document fails.\<close>

definition outageEnv :: Env where
  "outageEnv = exampleEnv\<lparr>rejects := (\<lambda>call. call = ReadUser)\<rparr>"

text \<open>
  The example store with a given fingerprint on its second challenge, and alice
  submitting a given flag for that challenge.
\<close>

definition fingerprinted :: "jsstring \<Rightarrow> Database" where
  "fingerprinted fp =
     exampleDatabase\<lparr>challenges :=
       [(js ''c1'', challengeOne), (js ''c2'', challengeTwo\<lparr>flagHash := fp\<rparr>)]\<rparr>"

definition flagRequest :: "jsstring \<Rightarrow> Request" where
  "flagRequest flag = submission (js ''token-alice'') (JString (js ''c2'')) (JString flag)"

definition flagContext :: "jsstring \<Rightarrow> AuthenticatedContext" where
  "flagContext flag =
     \<lparr>user = aliceToken, userData = Some aliceDocument,
      ipHash = hashIpAddress (FLAG_HASH_SALT exampleEnv) (getClientIp (flagRequest flag))\<rparr>"

text \<open>
  Three secrets, one for each deletion of \<open>sanitizeInput\<close>, with the digests of
  their salted normalized forms under the example salt: \<open>hashFlag\<close> makes the
  fingerprint of a secret as the hexadecimal form of its digest.
\<close>

definition bracketSecret :: jsstring where
  "bracketSecret = js ''ctf{<b>}''"

definition bracketDigest :: "u8 list" where
  "bracketDigest =
     [223, 81, 214, 56, 89, 89, 52, 190, 120, 225, 51, 195, 72, 25, 111, 168,
      162, 241, 58, 70, 162, 75, 40, 54, 197, 136, 243, 159, 18, 118, 43, 115]"

definition schemeSecret :: jsstring where
  "schemeSecret = js ''ctf{JavaScript:b}''"

definition schemeDigest :: "u8 list" where
  "schemeDigest =
     [229, 74, 133, 221, 123, 250, 44, 79, 7, 187, 100, 140, 130, 74, 158, 105,
      164, 88, 145, 79, 208, 226, 147, 117, 249, 206, 48, 93, 32, 32, 55, 227]"

definition handlerSecret :: jsstring where
  "handlerSecret = js ''ctf{onLoad=b}''"

definition handlerDigest :: "u8 list" where
  "handlerDigest =
     [144, 19, 11, 209, 171, 71, 198, 131, 65, 44, 26, 199, 23, 90, 37, 179,
      60, 63, 185, 144, 58, 127, 67, 65, 91, 129, 209, 89, 58, 228, 201, 163]"

text \<open>
  The secret that is a single \<open><\<close>, and its fingerprint under the example salt.
\<close>

definition angleSecret :: jsstring where
  "angleSecret = js ''<''"

definition angleFingerprint :: jsstring where
  "angleFingerprint = toHex (sha256 (utf8 (js ''pepper'' @ js ''<'')))"

text \<open>A flag-submission policy that allows no request at all.\<close>

definition zeroConfig :: RateLimitConfig where
  "zeroConfig = \<lparr>windowMs = 60000, maxRequests = 0\<rparr>"

text \<open>Two one-unit strings, each an unpaired surrogate.\<close>

definition loneSurrogateA :: jsstring where
  "loneSurrogateA = [0xD800]"

definition loneSurrogateB :: jsstring where
  "loneSurrogateB = [0xD801]"

text \<open>The digest of the salted form of \<open>ctf{b}\<close>, which is what is left of the secret.\<close>

definition strippedDigest :: "u8 list" where
  "strippedDigest =
     [164, 165, 116, 246, 229, 140, 9, 200, 26, 70, 152, 120, 169, 193, 34, 5,
      189, 122, 98, 145, 54, 123, 102, 121, 200, 25, 220, 67, 5, 100, 95, 133]"

text \<open>
  The example store with the fingerprint of \<open>ctf{b}\<close> on its second challenge, alice
  submitting that flag, and her document once the 250 points are hers.
\<close>

definition strippedDatabase :: Database where
  "strippedDatabase =
     exampleDatabase\<lparr>challenges :=
       [(js ''c1'', challengeOne), (js ''c2'', challengeTwo\<lparr>flagHash := toHex strippedDigest\<rparr>)]\<rparr>"

definition strippedRequest :: Request where
  "strippedRequest = submission (js ''token-alice'') (JString (js ''c2'')) (JString (js ''ctf{b}''))"

definition strippedContext :: AuthenticatedContext where
  "strippedContext =
     \<lparr>user = aliceToken, userData = Some aliceDocument,
      ipHash = hashIpAddress (FLAG_HASH_SALT exampleEnv) (getClientIp strippedRequest)\<rparr>"

definition aliceRewarded :: User where
  "aliceRewarded =
     \<lparr>score = 750, solvedChallenges = [js ''c1'', js ''c2''], isAdmin = False, isBanned = False\<rparr>"

section \<open>Properties of the rate limiter\<close>

lemma checkRateLimit_fresh:
  assumes "noLiveWindow identifier config now st"
  shows "checkRateLimit identifier config now st =
           (\<lparr>allowed = True, remaining = maxRequests config - 1,
             resetTime = now + windowMs config, retryAfter = None\<rparr>,
            st(rateKey identifier \<mapsto> \<lparr>count = 1, firstRequest = now, lastRequest = now\<rparr>))"
  using assms by (simp add: checkRateLimit_def noLiveWindow_def split: option.splits)

lemma checkRateLimit_increment:
  assumes "st (rateKey identifier) = Some entry"
    and "now - firstRequest entry \<le> windowMs config"
    and "count entry < maxRequests config"
  shows "checkRateLimit identifier config now st =
           (\<lparr>allowed = True, remaining = maxRequests config - (count entry + 1),
             resetTime = firstRequest entry + windowMs config, retryAfter = None\<rparr>,
            st(rateKey identifier \<mapsto> entry\<lparr>count := count entry + 1, lastRequest := now\<rparr>))"
  using assms by (simp add: checkRateLimit_def Let_def)

lemma checkRateLimit_reject:
  assumes "st (rateKey identifier) = Some entry"
    and "now - firstRequest entry \<le> windowMs config"
    and "count entry \<ge> maxRequests config"
  shows "checkRateLimit identifier config now st =
           (\<lparr>allowed = False, remaining = 0,
             resetTime = firstRequest entry + windowMs config,
             retryAfter = Some (ceilSeconds (firstRequest entry + windowMs config - now))\<rparr>,
            st)"
  using assms by (simp add: checkRateLimit_def)

lemma checkRateLimit_rejectD:
  assumes "\<not> allowed (fst (checkRateLimit identifier config now st))"
  obtains entry where "st (rateKey identifier) = Some entry"
    and "now - firstRequest entry \<le> windowMs config"
    and "count entry \<ge> maxRequests config"
  using assms
  by (auto simp: checkRateLimit_def Let_def split: option.splits if_splits)

lemma ceilSeconds_bounds: "x \<le> 1000 * ceilSeconds x \<and> 1000 * ceilSeconds x < x + 1000"
proof -
  define q where "q = (- x) div 1000"
  define r where "r = (- x) mod 1000"
  have "- x = 1000 * q + r" by (simp add: q_def r_def)
  moreover have "0 \<le> r" and "r < 1000" by (simp_all add: r_def)
  ultimately show ?thesis unfolding ceilSeconds_def q_def [symmetric] by linarith
qed

text \<open>
  Claim C8 as stated fails: with the window begun at 0, a 60000 ms window and the clock
  at 10000, the rejected call carries \<open>retryAfter = 50\<close> (seconds), not the
  50000 milliseconds that \<open>windowStart + windowMs - now\<close> gives.
\<close>

theorem retryAfter_milliseconds_counterexample:
  "\<not> allowed (fst (checkRateLimit (js ''u'') (RATE_LIMIT_CONFIGS flagSubmission) 10000 exhaustedStore))
   \<and> retryAfter (fst (checkRateLimit (js ''u'') (RATE_LIMIT_CONFIGS flagSubmission) 10000 exhaustedStore)) = Some 50
   \<and> retryAfter (fst (checkRateLimit (js ''u'') (RATE_LIMIT_CONFIGS flagSubmission) 10000 exhaustedStore))
       \<noteq> Some (0 + windowMs (RATE_LIMIT_CONFIGS flagSubmission) - 10000)"
  by (simp add: checkRateLimit_def exhaustedStore_def ceilSeconds_def)

text \<open>
  Claim C8, amended: whenever \<open>checkRateLimit\<close> rejects, there is a stored entry for
  the identifier, \<open>resetTime\<close> is \<open>firstRequest + windowMs\<close>, and
  \<open>retryAfter\<close> is \<open>firstRequest + windowMs - now\<close> converted to seconds and
  rounded up: the least integer \<open>r\<close> with \<open>1000 * r\<close> at least that many
  milliseconds.
\<close>

theorem retryAfter_seconds:
  assumes "\<not> allowed (fst (checkRateLimit identifier config now st))"
  shows "\<exists>entry r. st (rateKey identifier) = Some entry
           \<and> retryAfter (fst (checkRateLimit identifier config now st)) = Some r
           \<and> firstRequest entry + windowMs config - now \<le> 1000 * r
           \<and> 1000 * r < firstRequest entry + windowMs config - now + 1000
           \<and> resetTime (fst (checkRateLimit identifier config now st)) = firstRequest entry + windowMs config"
proof -
  from assms obtain entry where e: "st (rateKey identifier) = Some entry"
    "now - firstRequest entry \<le> windowMs config" "count entry \<ge> maxRequests config"
    by (rule checkRateLimit_rejectD)
  show ?thesis
    using e ceilSeconds_bounds [of "firstRequest entry + windowMs config - now"]
    by (simp add: checkRateLimit_reject)
qed

text \<open>Witness for C8 (amended): the exhausted store at time 10000.\<close>

theorem retryAfter_seconds_witness:
  "\<exists>entry r. exhaustedStore (rateKey (js ''u'')) = Some entry
           \<and> retryAfter (fst (checkRateLimit (js ''u'') (RATE_LIMIT_CONFIGS flagSubmission) 10000 exhaustedStore)) = Some r
           \<and> firstRequest entry + 60000 - 10000 \<le> 1000 * r
           \<and> 1000 * r < firstRequest entry + 60000 - 10000 + 1000
           \<and> resetTime (fst (checkRateLimit (js ''u'') (RATE_LIMIT_CONFIGS flagSubmission) 10000 exhaustedStore)) = firstRequest entry + 60000"
proof -
  have "\<not> allowed (fst (checkRateLimit (js ''u'') (RATE_LIMIT_CONFIGS flagSubmission) 10000 exhaustedStore))"
    by (simp add: checkRateLimit_def exhaustedStore_def)
  from retryAfter_seconds [OF this] show ?thesis by simp
qed

lemma checkRateLimit_countAtMost:
  assumes "countAtMost (max 1 (maxRequests config)) identifier st"
  shows "countAtMost (max 1 (maxRequests config)) identifier
           (snd (checkRateLimit identifier config now st))"
  using assms
  by (auto simp: checkRateLimit_def countAtMost_def Let_def split: option.splits)

lemma checkRateLimits_countAtMost:
  assumes "countAtMost (max 1 (maxRequests config)) identifier st"
  shows "countAtMost (max 1 (maxRequests config)) identifier
           (snd (checkRateLimits identifier config ts st))"
  using assms
proof (induction ts arbitrary: st)
  case Nil
  then show ?case by simp
next
  case (Cons t ts)
  from checkRateLimit_countAtMost [OF Cons.prems, of t]
  have "countAtMost (max 1 (maxRequests config)) identifier
          (snd (checkRateLimits identifier config ts (snd (checkRateLimit identifier config t st))))"
    by (rule Cons.IH)
  then show ?case by (simp add: split_beta)
qed

text \<open>
  Claim C10 as stated fails in one part: the stored count can exceed \<open>maxRequests\<close>.
  A call that finds no entry stores the count 1 without looking at the maximum, so with
  \<open>maxRequests = 0\<close> the first call is allowed, reports \<open>remaining = -1\<close> and
  leaves a count of 1 in a store whose counts were within the maximum before.
\<close>

theorem stored_count_counterexample:
  "allowed (fst (checkRateLimit (js ''u'') zeroConfig 0 Map.empty))
   \<and> remaining (fst (checkRateLimit (js ''u'') zeroConfig 0 Map.empty)) = - 1
   \<and> snd (checkRateLimit (js ''u'') zeroConfig 0 Map.empty) (rateKey (js ''u''))
       = Some \<lparr>count = 1, firstRequest = 0, lastRequest = 0\<rparr>
   \<and> countAtMost (maxRequests zeroConfig) (js ''u'') Map.empty
   \<and> \<not> countAtMost (maxRequests zeroConfig) (js ''u'')
         (snd (checkRateLimit (js ''u'') zeroConfig 0 Map.empty))"
  by (simp add: checkRateLimit_def zeroConfig_def countAtMost_def)

text \<open>
  Claim C10, amended: a call that finds a live window whose count has reached
  \<open>maxRequests\<close> returns \<open>allowed = False\<close> and leaves the store as it was; every
  rejected call leaves the store unchanged; through any sequence of calls the stored
  count of the identifier stays at most the larger of 1 and \<open>maxRequests\<close>, hence at
  most \<open>maxRequests\<close> when that is positive; and a call in a live window keeps the
  entry's \<open>firstRequest\<close>, the reported reset time being
  \<open>firstRequest + windowMs\<close>.
\<close>

theorem rejected_check_leaves_store:
  "(st (rateKey identifier) = Some entry \<and> now - firstRequest entry \<le> windowMs config
      \<and> maxRequests config \<le> count entry \<longrightarrow>
      \<not> allowed (fst (checkRateLimit identifier config now st))
      \<and> snd (checkRateLimit identifier config now st) = st)
   \<and> (\<not> allowed (fst (checkRateLimit identifier config now st)) \<longrightarrow>
      snd (checkRateLimit identifier config now st) = st)
   \<and> (countAtMost (max 1 (maxRequests config)) identifier st \<longrightarrow>
      countAtMost (max 1 (maxRequests config)) identifier
        (snd (checkRateLimits identifier config ts st)))
   \<and> (1 \<le> maxRequests config \<and> countAtMost (maxRequests config) identifier st \<longrightarrow>
      countAtMost (maxRequests config) identifier (snd (checkRateLimits identifier config ts st)))
   \<and> (st (rateKey identifier) = Some entry \<and> now - firstRequest entry \<le> windowMs config \<longrightarrow>
      map_option firstRequest (snd (checkRateLimit identifier config now st) (rateKey identifier))
        = Some (firstRequest entry)
      \<and> resetTime (fst (checkRateLimit identifier config now st)) = firstRequest entry + windowMs config)"
proof (intro conjI impI)
  assume "st (rateKey identifier) = Some entry \<and> now - firstRequest entry \<le> windowMs config
      \<and> maxRequests config \<le> count entry"
  then show "\<not> allowed (fst (checkRateLimit identifier config now st))"
    and "snd (checkRateLimit identifier config now st) = st"
    by (simp_all add: checkRateLimit_reject)
next
  assume "\<not> allowed (fst (checkRateLimit identifier config now st))"
  then show "snd (checkRateLimit identifier config now st) = st"
    by (elim checkRateLimit_rejectD) (simp add: checkRateLimit_reject)
next
  assume "countAtMost (max 1 (maxRequests config)) identifier st"
  then show "countAtMost (max 1 (maxRequests config)) identifier
        (snd (checkRateLimits identifier config ts st))"
    by (rule checkRateLimits_countAtMost)
next
  assume a: "1 \<le> maxRequests config \<and> countAtMost (maxRequests config) identifier st"
  then have m: "max 1 (maxRequests config) = maxRequests config" by simp
  from a checkRateLimits_countAtMost [of config "identifier" st ts]
  show "countAtMost (maxRequests config) identifier (snd (checkRateLimits identifier config ts st))"
    by (simp add: m)
next
  assume a: "st (rateKey identifier) = Some entry \<and> now - firstRequest entry \<le> windowMs config"
  then show "map_option firstRequest (snd (checkRateLimit identifier config now st) (rateKey identifier))
        = Some (firstRequest entry)"
    and "resetTime (fst (checkRateLimit identifier config now st)) = firstRequest entry + windowMs config"
    by (simp_all add: checkRateLimit_def Let_def)
qed

text \<open>
  Witness for C10 (amended): the exhausted store, then calls at 10000, 20000, 70000 and
  80000 under the flag-submission policy, and under the policy that allows nothing.
\<close>

theorem rejected_check_leaves_store_witness:
  "\<not> allowed (fst (checkRateLimit (js ''u'') (RATE_LIMIT_CONFIGS flagSubmission) 10000 exhaustedStore))
   \<and> snd (checkRateLimit (js ''u'') (RATE_LIMIT_CONFIGS flagSubmission) 10000 exhaustedStore) = exhaustedStore
   \<and> countAtMost 1 (js ''u'')
        (snd (checkRateLimits (js ''u'') zeroConfig [10000, 20000, 70000, 80000] Map.empty))
   \<and> countAtMost 5 (js ''u'')
        (snd (checkRateLimits (js ''u'') (RATE_LIMIT_CONFIGS flagSubmission) [10000, 20000, 70000, 80000] exhaustedStore))
   \<and> map_option firstRequest
        (snd (checkRateLimit (js ''u'') (RATE_LIMIT_CONFIGS flagSubmission) 10000 exhaustedStore) (rateKey (js ''u''))) = Some 0
   \<and> resetTime (fst (checkRateLimit (js ''u'') (RATE_LIMIT_CONFIGS flagSubmission) 10000 exhaustedStore)) = 60000"
proof -
  note T = rejected_check_leaves_store
  let ?c = "RATE_LIMIT_CONFIGS flagSubmission"
  let ?e = "\<lparr>count = 5, firstRequest = 0, lastRequest = 4000\<rparr>"
  have h1: "exhaustedStore (rateKey (js ''u'')) = Some ?e \<and> 10000 - firstRequest ?e \<le> windowMs ?c
      \<and> maxRequests ?c \<le> count ?e"
    by (simp add: exhaustedStore_def)
  have h3: "countAtMost (max 1 (maxRequests zeroConfig)) (js ''u'') Map.empty"
    by (simp add: countAtMost_def)
  have h4: "1 \<le> maxRequests ?c \<and> countAtMost (maxRequests ?c) (js ''u'') exhaustedStore"
    by (simp add: countAtMost_def exhaustedStore_def)
  have h5: "exhaustedStore (rateKey (js ''u'')) = Some ?e \<and> 10000 - firstRequest ?e \<le> windowMs ?c"
    by (simp add: exhaustedStore_def)
  from T [of exhaustedStore "js ''u''" ?e 10000 ?c, THEN conjunct1, rule_format, OF h1]
  have c1: "\<not> allowed (fst (checkRateLimit (js ''u'') ?c 10000 exhaustedStore))
      \<and> snd (checkRateLimit (js ''u'') ?c 10000 exhaustedStore) = exhaustedStore" .
  from T [of Map.empty "js ''u''" _ _ zeroConfig "[10000, 20000, 70000, 80000]",
      THEN conjunct2, THEN conjunct2, THEN conjunct1, rule_format, OF h3]
  have c3: "countAtMost 1 (js ''u'')
        (snd (checkRateLimits (js ''u'') zeroConfig [10000, 20000, 70000, 80000] Map.empty))"
    by (simp add: zeroConfig_def)
  from T [of exhaustedStore "js ''u''" _ _ ?c "[10000, 20000, 70000, 80000]",
      THEN conjunct2, THEN conjunct2, THEN conjunct2, THEN conjunct1, rule_format, OF h4]
  have c4: "countAtMost 5 (js ''u'')
        (snd (checkRateLimits (js ''u'') ?c [10000, 20000, 70000, 80000] exhaustedStore))"
    by simp
  from T [of exhaustedStore "js ''u''" ?e 10000 ?c,
      THEN conjunct2, THEN conjunct2, THEN conjunct2, THEN conjunct2, rule_format, OF h5]
  have c5: "map_option firstRequest
        (snd (checkRateLimit (js ''u'') ?c 10000 exhaustedStore) (rateKey (js ''u''))) = Some 0
      \<and> resetTime (fst (checkRateLimit (js ''u'') ?c 10000 exhaustedStore)) = 60000"
    by simp
  from c1 c3 c4 c5 show ?thesis by blast
qed

text \<open>
  Claim C5: with \<open>maxRequests = 5\<close> and \<open>windowMs = 60000\<close>, starting without a
  live window, six calls at times within 60000 ms of the first have the first five
  allowed and the sixth rejected; a call more than 60000 ms after the first is allowed
  again, with \<open>remaining = maxRequests - 1\<close> and a fresh entry of count 1.
\<close>

theorem rate_window:
  assumes fresh: "noLiveWindow identifier \<lparr>windowMs = 60000, maxRequests = 5\<rparr> t1 st"
    and within: "\<forall>t \<in> set [t2, t3, t4, t5, t6]. t - t1 \<le> 60000"
    and later: "t7 - t1 > 60000"
  shows "(let config = \<lparr>windowMs = 60000, maxRequests = 5\<rparr>;
              (rs, st') = checkRateLimits identifier config [t1, t2, t3, t4, t5, t6] st;
              (r, st'') = checkRateLimit identifier config t7 st'
          in map allowed rs = [True, True, True, True, True, False]
           \<and> allowed r \<and> remaining r = maxRequests config - 1
           \<and> st'' (rateKey identifier) = Some \<lparr>count = 1, firstRequest = t7, lastRequest = t7\<rparr>)"
proof -
  let ?c = "\<lparr>windowMs = 60000, maxRequests = 5\<rparr> :: RateLimitConfig"
  let ?k = "rateKey identifier"
  let ?e = "\<lambda>n t. \<lparr>count = n, firstRequest = t1, lastRequest = t\<rparr>"
  have s1: "checkRateLimit identifier ?c t1 st =
      (\<lparr>allowed = True, remaining = 4, resetTime = t1 + 60000, retryAfter = None\<rparr>,
       st(?k \<mapsto> ?e 1 t1))"
    using fresh by (simp add: checkRateLimit_fresh)
  have step: "checkRateLimit identifier ?c t (st(?k \<mapsto> ?e n t')) =
      (\<lparr>allowed = True, remaining = 5 - (n + 1), resetTime = t1 + 60000, retryAfter = None\<rparr>,
       st(?k \<mapsto> ?e (n + 1) t))"
    if "t - t1 \<le> 60000" "n < 5" for t t' n
    using that by (simp add: checkRateLimit_increment [where entry = "?e n t'"])
  have rej: "checkRateLimit identifier ?c t (st(?k \<mapsto> ?e 5 t')) =
      (\<lparr>allowed = False, remaining = 0, resetTime = t1 + 60000,
        retryAfter = Some (ceilSeconds (t1 + 60000 - t))\<rparr>,
       st(?k \<mapsto> ?e 5 t'))"
    if "t - t1 \<le> 60000" for t t'
    using that by (simp add: checkRateLimit_reject [where entry = "?e 5 t'"])
  have fin: "checkRateLimit identifier ?c t7 (st(?k \<mapsto> ?e 5 t')) =
      (\<lparr>allowed = True, remaining = 4, resetTime = t7 + 60000, retryAfter = None\<rparr>,
       st(?k \<mapsto> \<lparr>count = 1, firstRequest = t7, lastRequest = t7\<rparr>))" for t'
    using later by (simp add: checkRateLimit_fresh noLiveWindow_def)
  from within have w: "t2 - t1 \<le> 60000" "t3 - t1 \<le> 60000" "t4 - t1 \<le> 60000"
    "t5 - t1 \<le> 60000" "t6 - t1 \<le> 60000"
    by simp_all
  show ?thesis
    using step [OF w(1), of 1 t1] step [OF w(2), of 2 t2] step [OF w(3), of 3 t3]
      step [OF w(4), of 4 t4] rej [OF w(5), of t5] fin [of t5]
    by (simp add: s1)
qed

text \<open>Witness for C5: calls at 0, 1000, 2000, 3000, 4000, 60000 and then 60001.\<close>

theorem rate_window_witness:
  "(let config = \<lparr>windowMs = 60000, maxRequests = 5\<rparr>;
        (rs, st') = checkRateLimits (js ''u'') config [0, 1000, 2000, 3000, 4000, 60000] Map.empty;
        (r, st'') = checkRateLimit (js ''u'') config 60001 st'
    in map allowed rs = [True, True, True, True, True, False]
     \<and> allowed r \<and> remaining r = maxRequests config - 1
     \<and> st'' (rateKey (js ''u'')) = Some \<lparr>count = 1, firstRequest = 60001, lastRequest = 60001\<rparr>)"
  using rate_window [of "js ''u''" 0 Map.empty 1000 2000 3000 4000 60000 60001]
  by (simp add: noLiveWindow_def)

section \<open>Properties of string constants\<close>

lemma js_inject [simp]: "js a = js b \<longleftrightarrow> a = b"
proof -
  have "inj (\<lambda>c::char. (of_nat (of_char c) :: u16))"
  proof (rule injI)
    fix x y :: char
    assume "(of_nat (of_char x) :: u16) = of_nat (of_char y)"
    then have "unat (of_nat (of_char x) :: u16) = unat (of_nat (of_char y) :: u16)" by simp
    moreover have "(of_char c :: nat) < 2 ^ 16" for c :: char
      by (rule less_trans [OF nat_of_char_less_256]) simp
    ultimately have "(of_char x :: nat) = of_char y"
      by (simp add: unat_of_nat)
    then show "x = y" by simp
  qed
  then show ?thesis by (simp add: js_def inj_map_eq_map)
qed

lemma js_Nil [simp]: "js s = [] \<longleftrightarrow> s = []"
  by (simp add: js_def)

lemma length_js [simp]: "length (js s) = length s"
  by (simp add: js_def)

section \<open>Properties of the digest and its hexadecimal form\<close>

lemma nibbles_less: "unat (b :: u8) div 16 < 16" "unat b mod 16 < 16"
  using unsigned_less [of b, where ?'a = nat] by simp_all

lemma hexValue_hexDigit: "n < 16 \<Longrightarrow> hexValue (hexDigit n) = Some n"
  by (auto simp: hexValue_def hexDigit_def unsigned_ucast_eq unat_of_nat take_bit_eq_mod Let_def)

lemma bufferFromHex_hexByte: "bufferFromHex (hexByte b @ r) = b # bufferFromHex r"
proof -
  have "(of_nat (16 * (unat b div 16) + unat b mod 16) :: u8) = of_nat (unat b)"
    by (simp only: mult_div_mod_eq)
  then show ?thesis
    by (simp add: hexByte_def hexValue_hexDigit nibbles_less)
qed

lemma bufferFromHex_toHex: "bufferFromHex (toHex bs) = bs"
proof (induction bs)
  case Nil
  then show ?case by (simp add: toHex_def)
next
  case (Cons b bs)
  then show ?case
    using bufferFromHex_hexByte [of b "toHex bs"] by (simp add: toHex_def)
qed

lemma length_rounds: "length (rounds ks ws st) = length st"
  by (induction ks ws st rule: rounds.induct) (simp_all add: Let_def)

lemma length_compress: "length (compress st block) = length st"
  by (simp add: compress_def length_rounds)

lemma length_blocks: "length (blocks n st m) = length st"
  by (induction n arbitrary: st m) (simp_all add: length_compress)

lemma length_sha256: "length (sha256 m) = 32"
proof -
  have "length (concat (map wordBytes ws)) = 4 * length ws" for ws
    by (induction ws) (simp_all add: wordBytes_def)
  then show ?thesis
    by (simp add: sha256_def Let_def length_blocks initialState_def)
qed

lemma hashFlag_salted:
  assumes "salt \<noteq> []"
  shows "hashFlag lower (Some salt) s = Inr (toHex (sha256 (utf8 (salt @ lower (trim s)))))"
  using assms by (simp add: hashFlag_def)

lemma validateFlag_stored:
  assumes "salt \<noteq> []"
  shows "validateFlag lower (Some salt) s stored
           = Inr (sha256 (utf8 (salt @ lower (trim s))) = bufferFromHex stored)"
  using assms by (auto simp: validateFlag_def hashFlag_salted bufferFromHex_toHex Let_def)

lemma validateFlag_digests:
  assumes "salt \<noteq> []"
  shows "validateFlag lower (Some salt) s (toHex d) = Inr (sha256 (utf8 (salt @ lower (trim s))) = d)"
  using assms by (simp add: validateFlag_stored bufferFromHex_toHex)

lemma validateFlag_short:
  assumes "salt \<noteq> []" and "length (bufferFromHex stored) \<noteq> 32"
  shows "validateFlag lower (Some salt) s stored = Inr False"
  using assms length_sha256 [of "utf8 (salt @ lower (trim s))"]
  by (auto simp: validateFlag_stored)

section \<open>Properties of the score transaction\<close>

lemma map_of_updateDoc:
  "map_of (updateDoc k f xs) k' = (if k' = k then map_option f (map_of xs k) else map_of xs k')"
  by (induction xs) auto

lemma pointsOf_solveCount [simp]:
  "pointsOf (db\<lparr>users := us, challenges := updateDoc k (\<lambda>c. c\<lparr>solveCount := g c\<rparr>) (challenges db)\<rparr>) c
     = pointsOf db c"
  by (simp add: pointsOf_def map_of_updateDoc split: option.splits)

lemma pointsOf_users [simp]: "pointsOf (db\<lparr>users := us\<rparr>) c = pointsOf db c"
  by (simp add: pointsOf_def)

lemma pointsOf_submissions [simp]: "pointsOf (db\<lparr>submissions := s\<rparr>) c = pointsOf db c"
  by (simp add: pointsOf_def)

lemma scoreConsistent_cong:
  "(\<And>c. pointsOf db' c = pointsOf db c) \<Longrightarrow> scoreConsistent db' d = scoreConsistent db d"
  by (simp add: scoreConsistent_def)

lemma scoreTransaction_solved:
  assumes "users db (uid t) = Some d" and "cid \<in> set (solvedChallenges d)"
  shows "scoreTransaction t cid ch db = Inr db"
  using assms by (simp add: scoreTransaction_def)

lemma scoreTransaction_award:
  assumes "users db (uid t) = Some d" and "cid \<notin> set (solvedChallenges d)"
    and "map_of (challenges db) cid = Some stored"
  shows "scoreTransaction t cid ch db =
           Inr (db\<lparr>users := (users db)(uid t \<mapsto>
                      d\<lparr>score := score d + points ch,
                        solvedChallenges := solvedChallenges d @ [cid]\<rparr>),
                   challenges := updateDoc cid (\<lambda>c. c\<lparr>solveCount := solveCount c + 1\<rparr>)
                     (challenges db)\<rparr>)"
  using assms by (simp add: scoreTransaction_def arrayUnion_def Let_def)

lemma scoreTransaction_first_touch:
  assumes "users db (uid t) = None" and "map_of (challenges db) cid = Some stored"
  shows "scoreTransaction t cid ch db =
           Inr (db\<lparr>users := (users db)(uid t \<mapsto>
                      newUserDocument\<lparr>score := points ch, solvedChallenges := [cid]\<rparr>),
                   challenges := updateDoc cid (\<lambda>c. c\<lparr>solveCount := solveCount c + 1\<rparr>)
                     (challenges db)\<rparr>)"
  using assms by (simp add: scoreTransaction_def arrayUnion_def Let_def newUserDocument_def)

lemma scoreTransaction_missing_challenge:
  assumes "case users db (uid t) of None \<Rightarrow> True | Some d \<Rightarrow> cid \<notin> set (solvedChallenges d)"
    and "map_of (challenges db) cid = None"
  shows "scoreTransaction t cid ch db = Inl StorageError"
  using assms by (simp add: scoreTransaction_def Let_def split: option.splits)

lemma scoreTransaction_idem:
  assumes "scoreTransaction t cid ch db = Inr db'"
  shows "scoreTransaction t cid ch db' = Inr db'"
proof (cases "users db (uid t)")
  case None
  with assms show ?thesis
    by (auto simp: scoreTransaction_def arrayUnion_def Let_def newUserDocument_def
        split: option.splits)
next
  case (Some d)
  show ?thesis
  proof (cases "cid \<in> set (solvedChallenges d)")
    case True
    with Some assms show ?thesis by (simp add: scoreTransaction_solved)
  next
    case False
    with Some assms show ?thesis
      by (auto simp: scoreTransaction_def arrayUnion_def Let_def split: option.splits)
  qed
qed

lemma scoreTransactions_idem:
  assumes "scoreTransaction t cid ch db = Inr db"
  shows "scoreTransactions n t cid ch db = Inr db"
  using assms by (induction n) simp_all

lemma scoreTransactions_once:
  assumes "0 < n"
  shows "scoreTransactions n t cid ch db = scoreTransaction t cid ch db"
proof -
  from assms obtain m where n: "n = Suc m" by (cases n) auto
  show ?thesis
  proof (cases "scoreTransaction t cid ch db")
    case (Inl e)
    then show ?thesis by (simp add: n)
  next
    case (Inr db')
    then show ?thesis
      by (simp add: n scoreTransactions_idem [OF scoreTransaction_idem [OF Inr]])
  qed
qed

lemma scoreTransaction_invariant:
  assumes inv: "\<forall>u d. users db u = Some d \<longrightarrow> scoreConsistent db d"
    and fixed: "pointsOf db cid = points ch"
    and run: "scoreTransaction t cid ch db = Inr db'"
  shows "\<forall>u d. users db' u = Some d \<longrightarrow> scoreConsistent db' d"
proof (cases "users db (uid t)")
  case None
  show ?thesis
  proof (cases "map_of (challenges db) cid")
    case N: None
    with None run show ?thesis by (simp add: scoreTransaction_missing_challenge)
  next
    case (Some stored)
    from run have db': "db' = db\<lparr>users := (users db)(uid t \<mapsto>
                      newUserDocument\<lparr>score := points ch, solvedChallenges := [cid]\<rparr>),
                   challenges := updateDoc cid (\<lambda>c. c\<lparr>solveCount := solveCount c + 1\<rparr>)
                     (challenges db)\<rparr>"
      by (simp add: scoreTransaction_first_touch [OF None Some])
    show ?thesis
      using inv fixed by (auto simp: db' scoreConsistent_def newUserDocument_def)
  qed
next
  case (Some d)
  show ?thesis
  proof (cases "cid \<in> set (solvedChallenges d)")
    case True
    with Some run inv show ?thesis by (simp add: scoreTransaction_solved)
  next
    case False
    show ?thesis
    proof (cases "map_of (challenges db) cid")
      case None
      with Some False run show ?thesis by (simp add: scoreTransaction_missing_challenge)
    next
      case St: (Some stored)
      from run have db': "db' = db\<lparr>users := (users db)(uid t \<mapsto>
                      d\<lparr>score := score d + points ch,
                        solvedChallenges := solvedChallenges d @ [cid]\<rparr>),
                   challenges := updateDoc cid (\<lambda>c. c\<lparr>solveCount := solveCount c + 1\<rparr>)
                     (challenges db)\<rparr>"
        by (simp add: scoreTransaction_award [OF Some False St])
      from inv Some have "scoreConsistent db d" by blast
      then show ?thesis
        using inv fixed False by (auto simp: db' scoreConsistent_def)
    qed
  qed
qed

lemma js_simps: "js ''alice'' \<noteq> js ''c1''" "js ''c1'' \<noteq> js ''c2''" "js ''c2'' \<noteq> js ''c1''"
  by (simp_all add: js_def)

text \<open>
  Claim C1: the score transaction for an identity and a challenge. When the solved set
  already holds the challenge id it returns the database as it found it (score, solved set
  and solve counter untouched). Otherwise, with the challenge document in the store, it
  adds the id to the solved set, adds the challenge's points to the score and increments
  the solve counter, in one resulting database (for an identity without a document, from
  the fresh document of score 0). When the challenge document is missing it fails and
  yields no database: nothing is written. Run any number of times in a row, it has the
  effect of a single run.
\<close>

theorem score_ledger_exactly_once:
  "(users db (uid t) = Some d \<and> cid \<in> set (solvedChallenges d) \<longrightarrow>
      scoreTransaction t cid ch db = Inr db)
   \<and> (users db (uid t) = Some d \<and> cid \<notin> set (solvedChallenges d)
        \<and> map_of (challenges db) cid = Some stored \<longrightarrow>
      scoreTransaction t cid ch db =
        Inr (db\<lparr>users := (users db)(uid t \<mapsto>
                   d\<lparr>score := score d + points ch,
                     solvedChallenges := solvedChallenges d @ [cid]\<rparr>),
                challenges := updateDoc cid (\<lambda>c. c\<lparr>solveCount := solveCount c + 1\<rparr>)
                  (challenges db)\<rparr>)
      \<and> map_of (updateDoc cid (\<lambda>c. c\<lparr>solveCount := solveCount c + 1\<rparr>) (challenges db)) cid
          = Some (stored\<lparr>solveCount := solveCount stored + 1\<rparr>))
   \<and> (users db (uid t) = None \<and> map_of (challenges db) cid = Some stored \<longrightarrow>
      scoreTransaction t cid ch db =
        Inr (db\<lparr>users := (users db)(uid t \<mapsto>
                   newUserDocument\<lparr>score := points ch, solvedChallenges := [cid]\<rparr>),
                challenges := updateDoc cid (\<lambda>c. c\<lparr>solveCount := solveCount c + 1\<rparr>)
                  (challenges db)\<rparr>))
   \<and> ((users db (uid t) = None \<or> (users db (uid t) = Some d \<and> cid \<notin> set (solvedChallenges d)))
        \<and> map_of (challenges db) cid = None \<longrightarrow>
      scoreTransaction t cid ch db = Inl StorageError)
   \<and> (0 < n \<longrightarrow> scoreTransactions n t cid ch db = scoreTransaction t cid ch db)"
proof (intro conjI impI)
  assume "users db (uid t) = Some d \<and> cid \<in> set (solvedChallenges d)"
  then show "scoreTransaction t cid ch db = Inr db"
    by (simp add: scoreTransaction_solved)
next
  assume a: "users db (uid t) = Some d \<and> cid \<notin> set (solvedChallenges d)
        \<and> map_of (challenges db) cid = Some stored"
  then show "scoreTransaction t cid ch db =
        Inr (db\<lparr>users := (users db)(uid t \<mapsto>
                   d\<lparr>score := score d + points ch,
                     solvedChallenges := solvedChallenges d @ [cid]\<rparr>),
                challenges := updateDoc cid (\<lambda>c. c\<lparr>solveCount := solveCount c + 1\<rparr>)
                  (challenges db)\<rparr>)"
    by (simp add: scoreTransaction_award)
  from a show "map_of (updateDoc cid (\<lambda>c. c\<lparr>solveCount := solveCount c + 1\<rparr>) (challenges db)) cid
          = Some (stored\<lparr>solveCount := solveCount stored + 1\<rparr>)"
    by (simp add: map_of_updateDoc)
next
  assume "users db (uid t) = None \<and> map_of (challenges db) cid = Some stored"
  then show "scoreTransaction t cid ch db =
        Inr (db\<lparr>users := (users db)(uid t \<mapsto>
                   newUserDocument\<lparr>score := points ch, solvedChallenges := [cid]\<rparr>),
                challenges := updateDoc cid (\<lambda>c. c\<lparr>solveCount := solveCount c + 1\<rparr>)
                  (challenges db)\<rparr>)"
    by (simp add: scoreTransaction_first_touch)
next
  assume "(users db (uid t) = None \<or> (users db (uid t) = Some d \<and> cid \<notin> set (solvedChallenges d)))
        \<and> map_of (challenges db) cid = None"
  then show "scoreTransaction t cid ch db = Inl StorageError"
    by (auto simp: scoreTransaction_missing_challenge)
next
  assume "0 < n"
  then show "scoreTransactions n t cid ch db = scoreTransaction t cid ch db"
    by (rule scoreTransactions_once)
qed

text \<open>
  Witness for C1: alice has solved \<open>c1\<close> (no-op) and not \<open>c2\<close> (250 points awarded
  once, also when the transaction runs three times); bob has no document yet; and no
  challenge \<open>gone\<close> is stored.
\<close>

theorem score_ledger_exactly_once_witness:
  "scoreTransaction aliceToken (js ''c1'') challengeOne exampleDatabase = Inr exampleDatabase
   \<and> scoreTransaction aliceToken (js ''c2'') challengeTwo exampleDatabase =
       Inr \<lparr>users = [js ''alice'' \<mapsto> aliceRewarded],
            challenges = [(js ''c1'', challengeOne), (js ''c2'', challengeTwo\<lparr>solveCount := 1\<rparr>)],
            submissions = []\<rparr>
   \<and> scoreTransaction bobToken (js ''c2'') challengeTwo exampleDatabase =
       Inr \<lparr>users = [js ''alice'' \<mapsto> aliceDocument,
                     js ''bob'' \<mapsto> \<lparr>score = 250, solvedChallenges = [js ''c2''],
                                       isAdmin = False, isBanned = False\<rparr>],
            challenges = [(js ''c1'', challengeOne), (js ''c2'', challengeTwo\<lparr>solveCount := 1\<rparr>)],
            submissions = []\<rparr>
   \<and> scoreTransaction aliceToken (js ''gone'') challengeTwo exampleDatabase = Inl StorageError
   \<and> scoreTransactions 3 aliceToken (js ''c2'') challengeTwo exampleDatabase =
       scoreTransaction aliceToken (js ''c2'') challengeTwo exampleDatabase"
proof -
  note T = score_ledger_exactly_once
  have u: "users exampleDatabase (uid aliceToken) = Some aliceDocument"
    "users exampleDatabase (uid bobToken) = None"
    by (simp_all add: exampleDatabase_def aliceToken_def bobToken_def js_def)
  have s: "js ''c1'' \<in> set (solvedChallenges aliceDocument)"
    "js ''c2'' \<notin> set (solvedChallenges aliceDocument)"
    "js ''gone'' \<notin> set (solvedChallenges aliceDocument)"
    by (simp_all add: aliceDocument_def)
  have c: "map_of (challenges exampleDatabase) (js ''c2'') = Some challengeTwo"
    "map_of (challenges exampleDatabase) (js ''gone'') = None"
    by (simp_all add: exampleDatabase_def)
  from T [THEN conjunct1, rule_format, OF conjI [OF u(1) s(1)]]
  have c1: "scoreTransaction aliceToken (js ''c1'') challengeOne exampleDatabase = Inr exampleDatabase" .
  from T [THEN conjunct2, THEN conjunct1, rule_format, OF conjI [OF u(1) conjI [OF s(2) c(1)]],
      of challengeTwo]
  have c2: "scoreTransaction aliceToken (js ''c2'') challengeTwo exampleDatabase =
       Inr \<lparr>users = [js ''alice'' \<mapsto> aliceRewarded],
            challenges = [(js ''c1'', challengeOne), (js ''c2'', challengeTwo\<lparr>solveCount := 1\<rparr>)],
            submissions = []\<rparr>"
    by (simp add: exampleDatabase_def aliceToken_def aliceDocument_def aliceRewarded_def
        challengeTwo_def)
  from T [THEN conjunct2, THEN conjunct2, THEN conjunct1, rule_format, OF conjI [OF u(2) c(1)],
      of challengeTwo]
  have c3: "scoreTransaction bobToken (js ''c2'') challengeTwo exampleDatabase =
       Inr \<lparr>users = [js ''alice'' \<mapsto> aliceDocument,
                     js ''bob'' \<mapsto> \<lparr>score = 250, solvedChallenges = [js ''c2''],
                                       isAdmin = False, isBanned = False\<rparr>],
            challenges = [(js ''c1'', challengeOne), (js ''c2'', challengeTwo\<lparr>solveCount := 1\<rparr>)],
            submissions = []\<rparr>"
    by (simp add: exampleDatabase_def bobToken_def newUserDocument_def challengeTwo_def)
  from T [THEN conjunct2, THEN conjunct2, THEN conjunct2, THEN conjunct1, rule_format,
      OF conjI [OF disjI2 [OF conjI [OF u(1) s(3)]] c(2)], of challengeTwo]
  have c4: "scoreTransaction aliceToken (js ''gone'') challengeTwo exampleDatabase = Inl StorageError" .
  have "(0::nat) < 3" by simp
  from T [THEN conjunct2, THEN conjunct2, THEN conjunct2, THEN conjunct2, rule_format, OF this]
  have c5: "scoreTransactions 3 aliceToken (js ''c2'') challengeTwo exampleDatabase =
       scoreTransaction aliceToken (js ''c2'') challengeTwo exampleDatabase" .
  from c1 c2 c3 c4 c5 show ?thesis by (intro conjI)
qed

lemma submitFlag_database:
  "snd (submitFlag env ctx h cid f db) = db
   \<or> (\<exists>s. snd (submitFlag env ctx h cid f db) = db\<lparr>submissions := s\<rparr>)
   \<or> (\<exists>s ch. map_of (challenges db) cid = Some ch
        \<and> scoreTransaction (user ctx) cid ch (db\<lparr>submissions := s\<rparr>)
            = Inr (snd (submitFlag env ctx h cid f db)))"
  by (auto simp: submitFlag_def Let_def split: option.splits sum.splits)

lemma submitFlag_invariant:
  assumes inv: "\<forall>u d. users db u = Some d \<longrightarrow> scoreConsistent db d"
  shows "\<forall>u d. users (snd (submitFlag env ctx h cid f db)) u = Some d
           \<longrightarrow> scoreConsistent (snd (submitFlag env ctx h cid f db)) d"
proof -
  have rec: "\<forall>u d. users (db\<lparr>submissions := s\<rparr>) u = Some d
      \<longrightarrow> scoreConsistent (db\<lparr>submissions := s\<rparr>) d" for s
    using inv by (simp add: scoreConsistent_def)
  from submitFlag_database [of env ctx h cid f db]
  consider "snd (submitFlag env ctx h cid f db) = db"
    | s where "snd (submitFlag env ctx h cid f db) = db\<lparr>submissions := s\<rparr>"
    | s ch where "map_of (challenges db) cid = Some ch"
        "scoreTransaction (user ctx) cid ch (db\<lparr>submissions := s\<rparr>)
            = Inr (snd (submitFlag env ctx h cid f db))"
    by blast
  then show ?thesis
  proof cases
    case 1
    with inv show ?thesis by simp
  next
    case 2
    with rec show ?thesis by simp
  next
    case 3
    have "pointsOf (db\<lparr>submissions := s\<rparr>) cid = points ch"
      using 3(1) by (simp add: pointsOf_def)
    from scoreTransaction_invariant [OF rec this 3(2)] show ?thesis .
  qed
qed

lemma POST_database_cases:
  assumes "P db" and "\<And>ctx h cid f. P (snd (submitFlag env ctx h cid f db))"
  shows "P (database (POST env request db store))"
proof -
  have sub: "P db'" if "submitFlag env ctx h cid f db = (r, db')" for ctx h cid f r db'
    using assms(2) [of ctx h cid f] that by simp
  show ?thesis
    using assms(1) sub
    by (auto simp: POST_def Let_def split: sum.splits prod.splits request_body.splits)
qed

lemma POST_invariant:
  assumes inv: "\<forall>u d. users db u = Some d \<longrightarrow> scoreConsistent db d"
  shows "\<forall>u d. users (database (POST env request db store)) u = Some d
           \<longrightarrow> scoreConsistent (database (POST env request db store)) d"
  by (rule POST_database_cases [where P = "\<lambda>x. \<forall>u d. users x u = Some d \<longrightarrow> scoreConsistent x d"])
    (use inv submitFlag_invariant [OF inv] in blast)+

text \<open>
  Claim C6: if every user document's score is the sum of the points of its solved
  challenges, then this still holds after a first-touch creation of a user document
  (score 0, empty solved set), after a score transaction (the challenge handed to it
  carrying the points of the stored one), and after any submission request.
\<close>

theorem score_sum_invariant:
  assumes inv: "\<forall>u d. users db u = Some d \<longrightarrow> scoreConsistent db d"
  shows "scoreConsistent db newUserDocument
     \<and> (\<forall>u d. users (db\<lparr>users := (users db)(k \<mapsto> newUserDocument)\<rparr>) u = Some d
          \<longrightarrow> scoreConsistent (db\<lparr>users := (users db)(k \<mapsto> newUserDocument)\<rparr>) d)
     \<and> (\<forall>db'. pointsOf db cid = points ch \<and> scoreTransaction t cid ch db = Inr db'
          \<longrightarrow> (\<forall>u d. users db' u = Some d \<longrightarrow> scoreConsistent db' d))
     \<and> (\<forall>u d. users (database (POST env request db store)) u = Some d
          \<longrightarrow> scoreConsistent (database (POST env request db store)) d)"
proof (intro conjI)
  show "scoreConsistent db newUserDocument"
    by (simp add: scoreConsistent_def newUserDocument_def)
  show "\<forall>u d. users (db\<lparr>users := (users db)(k \<mapsto> newUserDocument)\<rparr>) u = Some d
          \<longrightarrow> scoreConsistent (db\<lparr>users := (users db)(k \<mapsto> newUserDocument)\<rparr>) d"
    using inv by (auto simp: scoreConsistent_def newUserDocument_def)
  show "\<forall>db'. pointsOf db cid = points ch \<and> scoreTransaction t cid ch db = Inr db'
          \<longrightarrow> (\<forall>u d. users db' u = Some d \<longrightarrow> scoreConsistent db' d)"
    using scoreTransaction_invariant [OF inv] by blast
  show "\<forall>u d. users (database (POST env request db store)) u = Some d
          \<longrightarrow> scoreConsistent (database (POST env request db store)) d"
    by (rule POST_invariant [OF inv])
qed

lemma exampleDatabase_consistent:
  "\<forall>u d. users exampleDatabase u = Some d \<longrightarrow> scoreConsistent exampleDatabase d"
  by (simp add: exampleDatabase_def aliceDocument_def scoreConsistent_def pointsOf_def
      challengeOne_def)

section \<open>Properties of the submission handler\<close>

lemma POST_auth_rejected:
  assumes "authenticateRequest env request db = Inr (Inl r)"
  shows "POST env request db store = \<lparr>response = Responded r, database = db, limiter = store\<rparr>"
  using assms by (simp add: POST_def)

lemma POST_rate_limited:
  assumes "authenticateRequest env request db = Inr (Inr ctx)"
    and "\<not> allowed (fst (fst (flagRateLimit env request ctx store)))"
  shows "POST env request db store =
           \<lparr>response = Responded (rateLimitedResponse (fst (fst (flagRateLimit env request ctx store)))),
            database = db, limiter = snd (flagRateLimit env request ctx store)\<rparr>"
  using assms by (auto simp: POST_def Let_def split: prod.splits)

lemma POST_invalid_id:
  assumes "authenticateRequest env request db = Inr (Inr ctx)"
    and "allowed (fst (fst (flagRateLimit env request ctx store)))"
    and "body request = JsonValue challengeId flag"
    and "\<not> truthy challengeId \<or> \<not> isString challengeId"
  shows "POST env request db store =
           \<lparr>response = Responded (errorResponse VALIDATION_FAILED 400),
            database = db, limiter = snd (flagRateLimit env request ctx store)\<rparr>"
  using assms by (auto simp: POST_def Let_def split: prod.splits)

lemma POST_evaluated:
  assumes "authenticateRequest env request db = Inr (Inr ctx)"
    and "allowed (fst (fst (flagRateLimit env request ctx store)))"
    and "body request = JsonValue (JString cid) (JString flag)"
    and "cid \<noteq> []" and "flag \<noteq> []"
    and "sanitizeInput flag \<noteq> []" and "length (sanitizeInput flag) \<le> 256"
  shows "POST env request db store =
           \<lparr>response =
              (case fst (submitFlag env ctx (hashIpAddress (FLAG_HASH_SALT env) (getClientIp request))
                          cid (sanitizeInput flag) db) of
                 Inr r \<Rightarrow> Responded r
               | Inl e \<Rightarrow> Responded (errorResponse SERVER_ERROR 500)),
            database = snd (submitFlag env ctx (hashIpAddress (FLAG_HASH_SALT env) (getClientIp request))
                          cid (sanitizeInput flag) db),
            limiter = snd (flagRateLimit env request ctx store)\<rparr>"
  using assms by (auto simp: POST_def Let_def split: prod.splits sum.splits)

lemma submitFlag_not_found:
  assumes "case userData ctx of None \<Rightarrow> True | Some d \<Rightarrow> cid \<notin> set (solvedChallenges d)"
    and "\<not> rejects env ReadChallenge"
    and "case map_of (challenges db) cid of None \<Rightarrow> True | Some ch \<Rightarrow> \<not> isActive ch"
  shows "submitFlag env ctx h cid f db = (Inr (errorResponse NOT_FOUND 404), db)"
  using assms by (auto simp: submitFlag_def split: option.splits)

lemma authenticateRequest_status:
  assumes "authenticateRequest env request db = Inr (Inl r)"
  shows "status r = 401 \<or> status r = 403"
  using assms
  by (auto simp: authenticateRequest_def errorResponse_def Let_def split: option.splits if_splits)

lemma verifyAuthToken_bearer:
  "verifyAuthToken env (submission token c f) = verifyIdToken env token"
  by (simp add: verifyAuthToken_def submission_def startsWith_def js_def)

lemma submitFlag_status:
  assumes "fst (submitFlag env ctx h cid f db) = Inr r"
  shows "status r = 200 \<or> status r = 404"
  using assms
  by (auto simp: submitFlag_def Let_def successResponse_def errorResponse_def
      split: option.splits sum.splits if_splits)

lemma authenticateRequest_context:
  assumes "authenticateRequest env request db = Inr (Inr ctx)"
  shows "verifyAuthToken env request = Some (user ctx) \<and> email_verified (user ctx)
     \<and> \<not> rejects env ReadUser \<and> userData ctx = users db (uid (user ctx))
     \<and> (case userData ctx of None \<Rightarrow> True | Some d \<Rightarrow> \<not> isBanned d)"
  using assms
  by (auto simp: authenticateRequest_def Let_def split: option.splits if_splits)

lemma POST_429:
  assumes "response (POST env request db store) = Responded r" and "status r = 429"
  shows "\<exists>ctx. authenticateRequest env request db = Inr (Inr ctx)
           \<and> \<not> allowed (fst (fst (flagRateLimit env request ctx store)))"
proof (cases "authenticateRequest env request db")
  case (Inl e)
  with assms show ?thesis by (simp add: POST_def)
next
  case (Inr x)
  show ?thesis
  proof (cases x)
    case (Inl r')
    with Inr assms authenticateRequest_status [of env request db r'] show ?thesis
      by (simp add: POST_auth_rejected)
  next
    case ctx: (Inr ctx)
    show ?thesis
    proof (rule ccontr)
      assume "\<not> ?thesis"
      with Inr ctx have al: "allowed (fst (fst (flagRateLimit env request ctx store)))" by simp
      have sub: "status r' \<noteq> 429" if "submitFlag env ctx h cid f db = (Inr r', db')"
        for h cid f r' db'
        using submitFlag_status [of env ctx h cid f db r'] that by auto
      from assms Inr ctx al show False
        by (auto simp: POST_def Let_def errorResponse_def
            split: prod.splits request_body.splits if_splits sum.splits dest: sub)
    qed
  qed
qed

text \<open>
  Claim C2 as stated fails: with every limiter key exhausted, bob (valid token, e-mail
  not verified) is answered 403 "verify your email" and a caller without credentials
  401 "not authorized", not the 429 of the rate limit; the limiter store is not touched.
\<close>

theorem rate_limit_first_counterexample:
  "\<not> allowed (fst (fst (flagRateLimit exampleEnv bobRequest bobContext saturatedStore)))
   \<and> POST exampleEnv bobRequest exampleDatabase saturatedStore =
       \<lparr>response = Responded (errorResponse EMAIL_NOT_VERIFIED 403), database = exampleDatabase,
        limiter = saturatedStore\<rparr>
   \<and> POST exampleEnv anonymousRequest exampleDatabase saturatedStore =
       \<lparr>response = Responded (errorResponse UNAUTHORIZED 401), database = exampleDatabase,
        limiter = saturatedStore\<rparr>
   \<and> errorResponse EMAIL_NOT_VERIFIED 403
       \<noteq> rateLimitedResponse (fst (fst (flagRateLimit exampleEnv bobRequest bobContext saturatedStore)))
   \<and> errorResponse UNAUTHORIZED 401
       \<noteq> rateLimitedResponse (fst (fst (flagRateLimit exampleEnv bobRequest bobContext saturatedStore)))"
proof -
  have "authenticateRequest exampleEnv bobRequest exampleDatabase
          = Inr (Inl (errorResponse EMAIL_NOT_VERIFIED 403))"
    by (simp add: authenticateRequest_def bobRequest_def verifyAuthToken_bearer exampleEnv_def
        bobToken_def)
  moreover have "authenticateRequest exampleEnv anonymousRequest exampleDatabase
          = Inr (Inl (errorResponse UNAUTHORIZED 401))"
    by (simp add: authenticateRequest_def anonymousRequest_def anonymousSubmission_def
        verifyAuthToken_def)
  moreover have "\<not> allowed (fst (fst (flagRateLimit exampleEnv bobRequest bobContext saturatedStore)))"
    by (simp add: applyRateLimit_def checkRateLimit_def saturatedStore_def exampleEnv_def
        Let_def split: prod.splits)
  ultimately show ?thesis
    by (simp add: POST_auth_rejected errorResponse_def rateLimitedResponse_def)
qed

text \<open>
  Claim C2, amended: \<open>POST\<close> authenticates before it applies the rate limit. A missing
  or invalid credential is answered 401, an unverified e-mail address 403, a banned user
  403, whatever the limiter holds and without touching it. A request that authenticated
  and whose key (hashed address and identity) the limiter rejects is answered 429, with
  the database unchanged. Every 429 answer comes from a request whose token was verified
  and whose user document was read.
\<close>

theorem authentication_before_rate_limit:
  "(verifyAuthToken env request = None \<longrightarrow>
      POST env request db store =
        \<lparr>response = Responded (errorResponse UNAUTHORIZED 401), database = db, limiter = store\<rparr>)
   \<and> (verifyAuthToken env request = Some tok \<and> \<not> email_verified tok \<longrightarrow>
      POST env request db store =
        \<lparr>response = Responded (errorResponse EMAIL_NOT_VERIFIED 403), database = db,
         limiter = store\<rparr>)
   \<and> (verifyAuthToken env request = Some tok \<and> email_verified tok \<and> \<not> rejects env ReadUser
        \<and> users db (uid tok) = Some d \<and> isBanned d \<longrightarrow>
      POST env request db store =
        \<lparr>response = Responded (errorResponse UNAUTHORIZED 403), database = db, limiter = store\<rparr>)
   \<and> (authenticateRequest env request db = Inr (Inr ctx)
        \<and> \<not> allowed (fst (fst (flagRateLimit env request ctx store))) \<longrightarrow>
      POST env request db store =
        \<lparr>response = Responded (rateLimitedResponse (fst (fst (flagRateLimit env request ctx store)))),
         database = db, limiter = snd (flagRateLimit env request ctx store)\<rparr>)
   \<and> (response (POST env request db store) = Responded r \<and> status r = 429 \<longrightarrow>
      (\<exists>c. authenticateRequest env request db = Inr (Inr c)
           \<and> verifyAuthToken env request = Some (user c) \<and> email_verified (user c)
           \<and> userData c = users db (uid (user c))
           \<and> \<not> allowed (fst (fst (flagRateLimit env request c store)))))"
proof (intro conjI impI)
  assume "verifyAuthToken env request = None"
  then have "authenticateRequest env request db = Inr (Inl (errorResponse UNAUTHORIZED 401))"
    by (simp add: authenticateRequest_def)
  then show "POST env request db store =
        \<lparr>response = Responded (errorResponse UNAUTHORIZED 401), database = db, limiter = store\<rparr>"
    by (rule POST_auth_rejected)
next
  assume "verifyAuthToken env request = Some tok \<and> \<not> email_verified tok"
  then have "authenticateRequest env request db = Inr (Inl (errorResponse EMAIL_NOT_VERIFIED 403))"
    by (simp add: authenticateRequest_def)
  then show "POST env request db store =
        \<lparr>response = Responded (errorResponse EMAIL_NOT_VERIFIED 403), database = db,
         limiter = store\<rparr>"
    by (rule POST_auth_rejected)
next
  assume "verifyAuthToken env request = Some tok \<and> email_verified tok \<and> \<not> rejects env ReadUser
        \<and> users db (uid tok) = Some d \<and> isBanned d"
  then have "authenticateRequest env request db = Inr (Inl (errorResponse UNAUTHORIZED 403))"
    by (simp add: authenticateRequest_def)
  then show "POST env request db store =
        \<lparr>response = Responded (errorResponse UNAUTHORIZED 403), database = db, limiter = store\<rparr>"
    by (rule POST_auth_rejected)
next
  assume "authenticateRequest env request db = Inr (Inr ctx)
        \<and> \<not> allowed (fst (fst (flagRateLimit env request ctx store)))"
  then show "POST env request db store =
        \<lparr>response = Responded (rateLimitedResponse (fst (fst (flagRateLimit env request ctx store)))),
         database = db, limiter = snd (flagRateLimit env request ctx store)\<rparr>"
    by (simp add: POST_rate_limited)
next
  assume "response (POST env request db store) = Responded r \<and> status r = 429"
  then obtain c where c: "authenticateRequest env request db = Inr (Inr c)"
    "\<not> allowed (fst (fst (flagRateLimit env request c store)))"
    using POST_429 by blast
  with authenticateRequest_context [OF c(1)]
  show "\<exists>c. authenticateRequest env request db = Inr (Inr c)
           \<and> verifyAuthToken env request = Some (user c) \<and> email_verified (user c)
           \<and> userData c = users db (uid (user c))
           \<and> \<not> allowed (fst (fst (flagRateLimit env request c store)))"
    by blast
qed

lemma sanitizeInput_guess: "sanitizeInput (js ''guess'') = js ''guess''"
  by code_simp

lemma alice_authenticated:
  "authenticateRequest exampleEnv (aliceRequest c) exampleDatabase = Inr (Inr (aliceContext c))"
  by (simp add: authenticateRequest_def aliceRequest_def verifyAuthToken_bearer exampleEnv_def
      aliceToken_def exampleDatabase_def aliceDocument_def aliceContext_def)

lemma alice_authenticated_retired:
  "authenticateRequest exampleEnv (aliceRequest c) retiredDatabase = Inr (Inr (aliceContext c))"
  by (simp add: authenticateRequest_def aliceRequest_def verifyAuthToken_bearer exampleEnv_def
      aliceToken_def exampleDatabase_def retiredDatabase_def aliceDocument_def aliceContext_def)

lemma saturated_rejects:
  "fst (flagRateLimit exampleEnv request ctx saturatedStore) =
     (\<lparr>allowed = False, remaining = 0, resetTime = 60000, retryAfter = Some 59\<rparr>,
      hashIpAddress (FLAG_HASH_SALT exampleEnv) (getClientIp request) @ js '':'' @ uid (user ctx))"
  "snd (flagRateLimit exampleEnv request ctx saturatedStore) = saturatedStore"
  by (simp_all add: applyRateLimit_def checkRateLimit_def saturatedStore_def exampleEnv_def
      Let_def truthyHeader_def ceilSeconds_def split: prod.splits)

lemma empty_allows:
  "allowed (fst (fst (flagRateLimit env request ctx Map.empty)))"
  by (simp add: applyRateLimit_def checkRateLimit_def Let_def split: prod.splits)

text \<open>
  Witness for C2 (amended): against the exhausted limiter, the caller without credentials,
  bob, a banned alice, and alice in good standing (who is the one answered 429).
\<close>

theorem authentication_before_rate_limit_witness:
  "POST exampleEnv anonymousRequest exampleDatabase saturatedStore =
       \<lparr>response = Responded (errorResponse UNAUTHORIZED 401), database = exampleDatabase,
        limiter = saturatedStore\<rparr>
   \<and> POST exampleEnv bobRequest exampleDatabase saturatedStore =
       \<lparr>response = Responded (errorResponse EMAIL_NOT_VERIFIED 403), database = exampleDatabase,
        limiter = saturatedStore\<rparr>
   \<and> POST exampleEnv (aliceRequest (JString (js ''c2''))) bannedDatabase saturatedStore =
       \<lparr>response = Responded (errorResponse UNAUTHORIZED 403), database = bannedDatabase,
        limiter = saturatedStore\<rparr>
   \<and> POST exampleEnv (aliceRequest (JString (js ''c2''))) exampleDatabase saturatedStore =
       \<lparr>response = Responded (rateLimitedResponse
            \<lparr>allowed = False, remaining = 0, resetTime = 60000, retryAfter = Some 59\<rparr>),
        database = exampleDatabase, limiter = saturatedStore\<rparr>
   \<and> (\<exists>c. authenticateRequest exampleEnv (aliceRequest (JString (js ''c2''))) exampleDatabase
                = Inr (Inr c)
           \<and> verifyAuthToken exampleEnv (aliceRequest (JString (js ''c2''))) = Some (user c)
           \<and> email_verified (user c)
           \<and> userData c = users exampleDatabase (uid (user c)))"
proof -
  let ?a = "aliceRequest (JString (js ''c2''))"
  let ?r = "rateLimitedResponse \<lparr>allowed = False, remaining = 0, resetTime = 60000, retryAfter = Some 59\<rparr>"
  have v1: "verifyAuthToken exampleEnv anonymousRequest = None"
    by (simp add: anonymousRequest_def anonymousSubmission_def verifyAuthToken_def)
  have v2: "verifyAuthToken exampleEnv bobRequest = Some bobToken \<and> \<not> email_verified bobToken"
    by (simp add: bobRequest_def verifyAuthToken_bearer exampleEnv_def bobToken_def)
  have v3: "verifyAuthToken exampleEnv ?a = Some aliceToken \<and> email_verified aliceToken
      \<and> \<not> rejects exampleEnv ReadUser
      \<and> users bannedDatabase (uid aliceToken) = Some (aliceDocument\<lparr>isBanned := True\<rparr>)
      \<and> isBanned (aliceDocument\<lparr>isBanned := True\<rparr>)"
    by (simp add: aliceRequest_def verifyAuthToken_bearer exampleEnv_def aliceToken_def
        bannedDatabase_def)
  have v4: "authenticateRequest exampleEnv ?a exampleDatabase = Inr (Inr (aliceContext (JString (js ''c2''))))
      \<and> \<not> allowed (fst (fst (flagRateLimit exampleEnv ?a (aliceContext (JString (js ''c2''))) saturatedStore)))"
    by (simp add: alice_authenticated saturated_rejects)
  note T = authentication_before_rate_limit
  have c1: "POST exampleEnv anonymousRequest exampleDatabase saturatedStore =
       \<lparr>response = Responded (errorResponse UNAUTHORIZED 401), database = exampleDatabase,
        limiter = saturatedStore\<rparr>"
    by (rule T [THEN conjunct1, rule_format]) (rule v1)
  have c2: "POST exampleEnv bobRequest exampleDatabase saturatedStore =
       \<lparr>response = Responded (errorResponse EMAIL_NOT_VERIFIED 403), database = exampleDatabase,
        limiter = saturatedStore\<rparr>"
    by (rule T [THEN conjunct2, THEN conjunct1, rule_format]) (rule v2)
  have c3: "POST exampleEnv ?a bannedDatabase saturatedStore =
       \<lparr>response = Responded (errorResponse UNAUTHORIZED 403), database = bannedDatabase,
        limiter = saturatedStore\<rparr>"
    by (rule T [THEN conjunct2, THEN conjunct2, THEN conjunct1, rule_format]) (rule v3)
  have c4: "POST exampleEnv ?a exampleDatabase saturatedStore =
       \<lparr>response = Responded ?r, database = exampleDatabase, limiter = saturatedStore\<rparr>"
    using T [THEN conjunct2, THEN conjunct2, THEN conjunct2, THEN conjunct1, rule_format, OF v4]
    by (simp add: saturated_rejects)
  have v5: "response (POST exampleEnv ?a exampleDatabase saturatedStore) = Responded ?r \<and> status ?r = 429"
    by (simp add: c4 rateLimitedResponse_def)
  from T [THEN conjunct2, THEN conjunct2, THEN conjunct2, THEN conjunct2, rule_format, OF v5]
  have c5: "\<exists>c. authenticateRequest exampleEnv ?a exampleDatabase = Inr (Inr c)
           \<and> verifyAuthToken exampleEnv ?a = Some (user c)
           \<and> email_verified (user c)
           \<and> userData c = users exampleDatabase (uid (user c))"
    by blast
  from c1 c2 c3 c4 c5 show ?thesis by (intro conjI)
qed

text \<open>
  Claim C4 as stated fails: a malformed challenge id (empty, missing or not a string) is
  answered 400 "validation failed", whereas an unknown id and an inactive challenge are
  answered 404 "not found".
\<close>

theorem not_found_shape_counterexample:
  "response (POST exampleEnv (aliceRequest (JString [])) exampleDatabase Map.empty)
     = Responded (errorResponse VALIDATION_FAILED 400)
   \<and> response (POST exampleEnv (aliceRequest JUndefined) exampleDatabase Map.empty)
     = Responded (errorResponse VALIDATION_FAILED 400)
   \<and> response (POST exampleEnv (aliceRequest (JNumber 7)) exampleDatabase Map.empty)
     = Responded (errorResponse VALIDATION_FAILED 400)
   \<and> response (POST exampleEnv (aliceRequest (JString (js ''nope''))) exampleDatabase Map.empty)
     = Responded (errorResponse NOT_FOUND 404)
   \<and> response (POST exampleEnv (aliceRequest (JString (js ''c2''))) retiredDatabase Map.empty)
     = Responded (errorResponse NOT_FOUND 404)
   \<and> errorResponse VALIDATION_FAILED 400 \<noteq> errorResponse NOT_FOUND 404"
proof -
  have bad: "response (POST exampleEnv (aliceRequest c) exampleDatabase Map.empty)
     = Responded (errorResponse VALIDATION_FAILED 400)" if "\<not> truthy c \<or> \<not> isString c" for c
    using that
    by (subst POST_invalid_id [OF alice_authenticated empty_allows, where challengeId = c])
      (simp_all add: aliceRequest_def submission_def)
  have nf: "submitFlag exampleEnv (aliceContext c) h (js ''nope'') f exampleDatabase
      = (Inr (errorResponse NOT_FOUND 404), exampleDatabase)" for c h f
    by (rule submitFlag_not_found)
      (simp_all add: aliceContext_def aliceDocument_def exampleEnv_def exampleDatabase_def)
  have ia: "submitFlag exampleEnv (aliceContext c) h (js ''c2'') f retiredDatabase
      = (Inr (errorResponse NOT_FOUND 404), retiredDatabase)" for c h f
    by (rule submitFlag_not_found)
      (simp_all add: aliceContext_def aliceDocument_def exampleEnv_def retiredDatabase_def
        challengeTwo_def)
  have absent: "response (POST exampleEnv (aliceRequest (JString (js ''nope''))) exampleDatabase Map.empty)
     = Responded (errorResponse NOT_FOUND 404)"
    by (subst POST_evaluated [OF alice_authenticated empty_allows,
          where cid = "js ''nope''" and flag = "js ''guess''"])
      (simp_all add: aliceRequest_def submission_def sanitizeInput_guess nf)
  have inactive: "response (POST exampleEnv (aliceRequest (JString (js ''c2''))) retiredDatabase Map.empty)
     = Responded (errorResponse NOT_FOUND 404)"
    by (subst POST_evaluated [OF alice_authenticated_retired empty_allows,
          where cid = "js ''c2''" and flag = "js ''guess''"])
      (simp_all add: aliceRequest_def submission_def sanitizeInput_guess ia)
  show ?thesis
    by (simp add: bad absent inactive) (simp add: errorResponse_def)
qed

lemma POST_null_body:
  assumes "authenticateRequest env request db = Inr (Inr ctx)"
    and "allowed (fst (fst (flagRateLimit env request ctx store)))"
    and "body request = JsonNull"
  shows "POST env request db store =
           \<lparr>response = Uncaught TypeError, database = db,
            limiter = snd (flagRateLimit env request ctx store)\<rparr>"
  using assms by (auto simp: POST_def Let_def split: prod.splits)

lemma POST_invalid_json:
  assumes "authenticateRequest env request db = Inr (Inr ctx)"
    and "allowed (fst (fst (flagRateLimit env request ctx store)))"
    and "body request = InvalidJson"
  shows "POST env request db store =
           \<lparr>response = Responded (errorResponse ''Invalid request body'' 400), database = db,
            limiter = snd (flagRateLimit env request ctx store)\<rparr>"
  using assms by (auto simp: POST_def Let_def split: prod.splits)

lemma POST_invalid_flag:
  assumes "authenticateRequest env request db = Inr (Inr ctx)"
    and "allowed (fst (fst (flagRateLimit env request ctx store)))"
    and "body request = JsonValue challengeId flag"
    and "\<not> truthy flag \<or> \<not> isString flag \<or> sanitizeInput (stringOf flag) = []
         \<or> length (sanitizeInput (stringOf flag)) > 256"
  shows "POST env request db store =
           \<lparr>response = Responded (errorResponse VALIDATION_FAILED 400),
            database = db, limiter = snd (flagRateLimit env request ctx store)\<rparr>"
  using assms by (auto simp: POST_def Let_def split: prod.splits)

lemma map_of_deleteChallenge:
  "map_of (challenges (deleteChallenge k db)) c
     = (if c = k then None else map_of (challenges db) c)"
proof -
  have "map_of (filter (\<lambda>doc. fst doc \<noteq> k) xs) c = (if c = k then None else map_of xs c)"
    for xs :: "(jsstring \<times> Challenge) list"
    by (induction xs) auto
  then show ?thesis by (simp add: deleteChallenge_def)
qed

lemma deleteChallenge_fields [simp]:
  "users (deleteChallenge k db) = users db"
  "submissions (deleteChallenge k db) = submissions db"
  "(deleteChallenge k db)\<lparr>submissions := s\<rparr> = deleteChallenge k (db\<lparr>submissions := s\<rparr>)"
  by (simp_all add: deleteChallenge_def)

lemma authenticateRequest_deleteChallenge:
  "authenticateRequest env request (deleteChallenge k db) = authenticateRequest env request db"
  by (simp add: authenticateRequest_def Let_def split: option.splits)

lemma scoreTransaction_users:
  assumes "users db' = users db" and "points ch' = points ch"
    and "map_of (challenges db') cid = None \<longleftrightarrow> map_of (challenges db) cid = None"
  shows "map_sum id users (scoreTransaction t cid ch' db') = map_sum id users (scoreTransaction t cid ch db)"
  using assms
  by (auto simp: scoreTransaction_def Let_def split: option.splits)

lemma submitFlag_deleteChallenge:
  assumes "map_of (challenges db) k = Some inactive" and "\<not> isActive inactive"
  shows "fst (submitFlag env ctx iph cid f (deleteChallenge k db)) = fst (submitFlag env ctx iph cid f db)"
proof (cases "cid = k")
  case True
  with assms show ?thesis
    by (simp add: submitFlag_def map_of_deleteChallenge)
next
  case False
  show ?thesis
  proof (cases "map_of (challenges db) cid")
    case None
    with False show ?thesis
      by (simp add: submitFlag_def map_of_deleteChallenge)
  next
    case (Some ch)
    define rec where "rec = db\<lparr>submissions := submissions db @
        [\<lparr>subChallengeId = cid, subUserId = uid (user ctx), subCorrect = True, subIpAddress = iph\<rparr>]\<rparr>"
    let ?t' = "scoreTransaction (user ctx) cid ch (deleteChallenge k rec)"
    let ?t = "scoreTransaction (user ctx) cid ch rec"
    have "map_sum id users ?t' = map_sum id users ?t"
      by (rule scoreTransaction_users) (simp_all add: map_of_deleteChallenge False rec_def Some)
    then consider (failed) e where "?t' = Inl e" "?t = Inl e"
      | (committed) d' d where "?t' = Inr d'" "?t = Inr d" "users d' = users d"
      by (cases ?t'; cases ?t) auto
    then show ?thesis
    proof cases
      case failed
      with False Some show ?thesis
        by (simp add: submitFlag_def map_of_deleteChallenge Let_def rec_def [symmetric]
            split: sum.splits)
    next
      case committed
      with False Some show ?thesis
        by (simp add: submitFlag_def map_of_deleteChallenge Let_def rec_def [symmetric]
            split: sum.splits)
    qed
  qed
qed

lemma POST_deleteChallenge:
  assumes "map_of (challenges db) k = Some inactive" and "\<not> isActive inactive"
  shows "response (POST env request (deleteChallenge k db) store) = response (POST env request db store)
    \<and> limiter (POST env request (deleteChallenge k db) store) = limiter (POST env request db store)"
proof -
  have sub': "x = y"
    if "submitFlag env ctx iph cid f (deleteChallenge k db) = (x, d')"
      "submitFlag env ctx iph cid f db = (y, d)" for ctx iph cid f x y d d'
    using submitFlag_deleteChallenge [OF assms, of env ctx iph cid f] that by simp
  show ?thesis
    by (auto simp: POST_def Let_def authenticateRequest_deleteChallenge
        split: sum.splits prod.splits request_body.splits dest: sub')
qed

text \<open>
  Claim C4, amended. An inactive challenge and an absent one cannot be told apart by any
  request: taking the document of an inactive challenge out of the store changes neither
  the response nor the limiter, whatever the request. For a request past authentication
  and the rate limit the answer is, in the order of the source: an exception when the
  body is \<open>null\<close>; 400 "Invalid request body" when the body is not JSON; 400 with the
  validation message when the challenge id is missing, empty or not a string; the same
  400 when the flag is missing, empty, not a string, or empty or longer than 256 code
  units once sanitized; and otherwise, for an id the user has not solved and a store
  that answers, 404 with the not-found message for an unknown id and for an inactive
  challenge alike, the database left as it was.
\<close>

theorem not_found_shape:
  "(map_of (challenges db) k = Some inactive \<and> \<not> isActive inactive \<longrightarrow>
      response (POST env request (deleteChallenge k db) store) = response (POST env request db store)
      \<and> limiter (POST env request (deleteChallenge k db) store) = limiter (POST env request db store))
   \<and> (authenticateRequest env request db = Inr (Inr ctx)
      \<and> allowed (fst (fst (flagRateLimit env request ctx store)))
      \<and> body request = JsonNull \<longrightarrow>
      POST env request db store =
        \<lparr>response = Uncaught TypeError, database = db,
         limiter = snd (flagRateLimit env request ctx store)\<rparr>)
   \<and> (authenticateRequest env request db = Inr (Inr ctx)
      \<and> allowed (fst (fst (flagRateLimit env request ctx store)))
      \<and> body request = InvalidJson \<longrightarrow>
      POST env request db store =
        \<lparr>response = Responded (errorResponse ''Invalid request body'' 400), database = db,
         limiter = snd (flagRateLimit env request ctx store)\<rparr>)
   \<and> (authenticateRequest env request db = Inr (Inr ctx)
      \<and> allowed (fst (fst (flagRateLimit env request ctx store)))
      \<and> body request = JsonValue challengeId flag
      \<and> (\<not> truthy challengeId \<or> \<not> isString challengeId) \<longrightarrow>
      POST env request db store =
        \<lparr>response = Responded (errorResponse VALIDATION_FAILED 400), database = db,
         limiter = snd (flagRateLimit env request ctx store)\<rparr>)
   \<and> (authenticateRequest env request db = Inr (Inr ctx)
      \<and> allowed (fst (fst (flagRateLimit env request ctx store)))
      \<and> body request = JsonValue challengeId flag
      \<and> (\<not> truthy flag \<or> \<not> isString flag \<or> sanitizeInput (stringOf flag) = []
           \<or> length (sanitizeInput (stringOf flag)) > 256) \<longrightarrow>
      POST env request db store =
        \<lparr>response = Responded (errorResponse VALIDATION_FAILED 400), database = db,
         limiter = snd (flagRateLimit env request ctx store)\<rparr>)
   \<and> (authenticateRequest env request db = Inr (Inr ctx)
      \<and> allowed (fst (fst (flagRateLimit env request ctx store)))
      \<and> body request = JsonValue (JString cid) (JString submitted)
      \<and> cid \<noteq> [] \<and> submitted \<noteq> []
      \<and> sanitizeInput submitted \<noteq> [] \<and> length (sanitizeInput submitted) \<le> 256
      \<and> (case userData ctx of None \<Rightarrow> True | Some d \<Rightarrow> cid \<notin> set (solvedChallenges d))
      \<and> \<not> rejects env ReadChallenge
      \<and> (case map_of (challenges db) cid of None \<Rightarrow> True | Some ch \<Rightarrow> \<not> isActive ch) \<longrightarrow>
      POST env request db store =
        \<lparr>response = Responded (errorResponse NOT_FOUND 404), database = db,
         limiter = snd (flagRateLimit env request ctx store)\<rparr>)"
proof (intro conjI impI)
  assume "map_of (challenges db) k = Some inactive \<and> \<not> isActive inactive"
  then have "map_of (challenges db) k = Some inactive" "\<not> isActive inactive" by simp_all
  from POST_deleteChallenge [OF this]
  show "response (POST env request (deleteChallenge k db) store) = response (POST env request db store)"
    and "limiter (POST env request (deleteChallenge k db) store) = limiter (POST env request db store)"
    by simp_all
next
  assume "authenticateRequest env request db = Inr (Inr ctx)
      \<and> allowed (fst (fst (flagRateLimit env request ctx store)))
      \<and> body request = JsonNull"
  then show "POST env request db store =
        \<lparr>response = Uncaught TypeError, database = db,
         limiter = snd (flagRateLimit env request ctx store)\<rparr>"
    by (intro POST_null_body) blast+
next
  assume "authenticateRequest env request db = Inr (Inr ctx)
      \<and> allowed (fst (fst (flagRateLimit env request ctx store)))
      \<and> body request = InvalidJson"
  then show "POST env request db store =
        \<lparr>response = Responded (errorResponse ''Invalid request body'' 400), database = db,
         limiter = snd (flagRateLimit env request ctx store)\<rparr>"
    by (intro POST_invalid_json) blast+
next
  assume "authenticateRequest env request db = Inr (Inr ctx)
      \<and> allowed (fst (fst (flagRateLimit env request ctx store)))
      \<and> body request = JsonValue challengeId flag
      \<and> (\<not> truthy challengeId \<or> \<not> isString challengeId)"
  then show "POST env request db store =
        \<lparr>response = Responded (errorResponse VALIDATION_FAILED 400), database = db,
         limiter = snd (flagRateLimit env request ctx store)\<rparr>"
    by (intro POST_invalid_id) blast+
next
  assume "authenticateRequest env request db = Inr (Inr ctx)
      \<and> allowed (fst (fst (flagRateLimit env request ctx store)))
      \<and> body request = JsonValue challengeId flag
      \<and> (\<not> truthy flag \<or> \<not> isString flag \<or> sanitizeInput (stringOf flag) = []
           \<or> length (sanitizeInput (stringOf flag)) > 256)"
  then show "POST env request db store =
        \<lparr>response = Responded (errorResponse VALIDATION_FAILED 400), database = db,
         limiter = snd (flagRateLimit env request ctx store)\<rparr>"
    by (intro POST_invalid_flag) blast+
next
  assume a: "authenticateRequest env request db = Inr (Inr ctx)
      \<and> allowed (fst (fst (flagRateLimit env request ctx store)))
      \<and> body request = JsonValue (JString cid) (JString submitted)
      \<and> cid \<noteq> [] \<and> submitted \<noteq> []
      \<and> sanitizeInput submitted \<noteq> [] \<and> length (sanitizeInput submitted) \<le> 256
      \<and> (case userData ctx of None \<Rightarrow> True | Some d \<Rightarrow> cid \<notin> set (solvedChallenges d))
      \<and> \<not> rejects env ReadChallenge
      \<and> (case map_of (challenges db) cid of None \<Rightarrow> True | Some ch \<Rightarrow> \<not> isActive ch)"
  then have "submitFlag env ctx h cid f db = (Inr (errorResponse NOT_FOUND 404), db)" for h f
    by (intro submitFlag_not_found) blast+
  with a show "POST env request db store =
        \<lparr>response = Responded (errorResponse NOT_FOUND 404), database = db,
         limiter = snd (flagRateLimit env request ctx store)\<rparr>"
    by (simp add: POST_evaluated)
qed

lemma sanitizeInput_angle: "sanitizeInput (js ''<'') = []"
  by code_simp

lemma alice_authenticated_null:
  "authenticateRequest exampleEnv nullRequest exampleDatabase
     = Inr (Inr \<lparr>user = aliceToken, userData = Some aliceDocument,
                 ipHash = hashIpAddress (FLAG_HASH_SALT exampleEnv) (getClientIp nullRequest)\<rparr>)"
  by (simp add: authenticateRequest_def verifyAuthToken_def nullRequest_def startsWith_def
      exampleEnv_def aliceToken_def exampleDatabase_def aliceDocument_def)

lemma alice_authenticated_listing:
  "authenticateRequest exampleEnv listingRequest exampleDatabase
     = Inr (Inr \<lparr>user = aliceToken, userData = Some aliceDocument,
                 ipHash = hashIpAddress (FLAG_HASH_SALT exampleEnv) (getClientIp listingRequest)\<rparr>)"
  by (simp add: authenticateRequest_def verifyAuthToken_def listingRequest_def startsWith_def
      exampleEnv_def aliceToken_def exampleDatabase_def aliceDocument_def)

lemma flag_authenticated:
  "authenticateRequest exampleEnv (flagRequest f) (fingerprinted fp) = Inr (Inr (flagContext f))"
  by (simp add: authenticateRequest_def flagRequest_def verifyAuthToken_bearer exampleEnv_def
      aliceToken_def exampleDatabase_def fingerprinted_def aliceDocument_def flagContext_def)

text \<open>
  Witness for C4 (amended): the retired challenge \<open>c2\<close> against the store without
  it; then alice submitting \<open>null\<close>, no JSON, the empty id, the flag \<open><\<close>, an
  unknown id, and the retired challenge.
\<close>

theorem not_found_shape_witness:
  "response (POST exampleEnv (aliceRequest (JString (js ''c2''))) (deleteChallenge (js ''c2'') retiredDatabase) Map.empty)
     = response (POST exampleEnv (aliceRequest (JString (js ''c2''))) retiredDatabase Map.empty)
   \<and> map_of (challenges (deleteChallenge (js ''c2'') retiredDatabase)) (js ''c2'') = None
   \<and> response (POST exampleEnv nullRequest exampleDatabase Map.empty) = Uncaught TypeError
   \<and> response (POST exampleEnv listingRequest exampleDatabase Map.empty)
     = Responded (errorResponse ''Invalid request body'' 400)
   \<and> response (POST exampleEnv (aliceRequest (JString [])) exampleDatabase Map.empty)
     = Responded (errorResponse VALIDATION_FAILED 400)
   \<and> response (POST exampleEnv (flagRequest (js ''<'')) (fingerprinted (js ''ff'')) Map.empty)
     = Responded (errorResponse VALIDATION_FAILED 400)
   \<and> response (POST exampleEnv (aliceRequest (JString (js ''nope''))) exampleDatabase Map.empty)
     = Responded (errorResponse NOT_FOUND 404)
   \<and> response (POST exampleEnv (aliceRequest (JString (js ''c2''))) retiredDatabase Map.empty)
     = Responded (errorResponse NOT_FOUND 404)"
proof -
  note T = not_found_shape
  have h0: "map_of (challenges retiredDatabase) (js ''c2'') = Some (challengeTwo\<lparr>isActive := False\<rparr>)
      \<and> \<not> isActive (challengeTwo\<lparr>isActive := False\<rparr>)"
    by (simp add: retiredDatabase_def)
  have hn: "authenticateRequest exampleEnv nullRequest exampleDatabase
        = Inr (Inr \<lparr>user = aliceToken, userData = Some aliceDocument,
                 ipHash = hashIpAddress (FLAG_HASH_SALT exampleEnv) (getClientIp nullRequest)\<rparr>)
      \<and> allowed (fst (fst (flagRateLimit exampleEnv nullRequest
            \<lparr>user = aliceToken, userData = Some aliceDocument,
              ipHash = hashIpAddress (FLAG_HASH_SALT exampleEnv) (getClientIp nullRequest)\<rparr> Map.empty)))
      \<and> body nullRequest = JsonNull"
    by (intro conjI alice_authenticated_null empty_allows) (simp add: nullRequest_def)
  have hj: "authenticateRequest exampleEnv listingRequest exampleDatabase
        = Inr (Inr \<lparr>user = aliceToken, userData = Some aliceDocument,
                 ipHash = hashIpAddress (FLAG_HASH_SALT exampleEnv) (getClientIp listingRequest)\<rparr>)
      \<and> allowed (fst (fst (flagRateLimit exampleEnv listingRequest
            \<lparr>user = aliceToken, userData = Some aliceDocument,
              ipHash = hashIpAddress (FLAG_HASH_SALT exampleEnv) (getClientIp listingRequest)\<rparr> Map.empty)))
      \<and> body listingRequest = InvalidJson"
    by (intro conjI alice_authenticated_listing empty_allows) (simp add: listingRequest_def)
  have h1: "authenticateRequest exampleEnv (aliceRequest (JString [])) exampleDatabase
        = Inr (Inr (aliceContext (JString [])))
      \<and> allowed (fst (fst (flagRateLimit exampleEnv (aliceRequest (JString []))
            (aliceContext (JString [])) Map.empty)))
      \<and> body (aliceRequest (JString [])) = JsonValue (JString []) (JString (js ''guess''))
      \<and> (\<not> truthy (JString []) \<or> \<not> isString (JString []))"
    by (intro conjI alice_authenticated empty_allows)
      (simp_all add: aliceRequest_def submission_def)
  have hf: "authenticateRequest exampleEnv (flagRequest (js ''<'')) (fingerprinted (js ''ff''))
        = Inr (Inr (flagContext (js ''<'')))
      \<and> allowed (fst (fst (flagRateLimit exampleEnv (flagRequest (js ''<''))
            (flagContext (js ''<'')) Map.empty)))
      \<and> body (flagRequest (js ''<'')) = JsonValue (JString (js ''c2'')) (JString (js ''<''))
      \<and> (\<not> truthy (JString (js ''<'')) \<or> \<not> isString (JString (js ''<''))
          \<or> sanitizeInput (stringOf (JString (js ''<''))) = []
          \<or> length (sanitizeInput (stringOf (JString (js ''<'')))) > 256)"
    by (intro conjI flag_authenticated empty_allows)
      (simp_all add: flagRequest_def submission_def sanitizeInput_angle)
  have h2: "authenticateRequest exampleEnv (aliceRequest (JString (js ''nope''))) exampleDatabase
        = Inr (Inr (aliceContext (JString (js ''nope''))))
      \<and> allowed (fst (fst (flagRateLimit exampleEnv (aliceRequest (JString (js ''nope'')))
            (aliceContext (JString (js ''nope''))) Map.empty)))
      \<and> body (aliceRequest (JString (js ''nope''))) = JsonValue (JString (js ''nope'')) (JString (js ''guess''))
      \<and> js ''nope'' \<noteq> [] \<and> js ''guess'' \<noteq> []
      \<and> sanitizeInput (js ''guess'') \<noteq> [] \<and> length (sanitizeInput (js ''guess'')) \<le> 256
      \<and> (case userData (aliceContext (JString (js ''nope''))) of None \<Rightarrow> True
          | Some d \<Rightarrow> js ''nope'' \<notin> set (solvedChallenges d))
      \<and> \<not> rejects exampleEnv ReadChallenge
      \<and> (case map_of (challenges exampleDatabase) (js ''nope'') of None \<Rightarrow> True
          | Some ch \<Rightarrow> \<not> isActive ch)"
    by (intro conjI alice_authenticated empty_allows)
      (simp_all add: aliceRequest_def submission_def
        sanitizeInput_guess aliceContext_def aliceDocument_def exampleEnv_def exampleDatabase_def)
  have h3: "authenticateRequest exampleEnv (aliceRequest (JString (js ''c2''))) retiredDatabase
        = Inr (Inr (aliceContext (JString (js ''c2''))))
      \<and> allowed (fst (fst (flagRateLimit exampleEnv (aliceRequest (JString (js ''c2'')))
            (aliceContext (JString (js ''c2''))) Map.empty)))
      \<and> body (aliceRequest (JString (js ''c2''))) = JsonValue (JString (js ''c2'')) (JString (js ''guess''))
      \<and> js ''c2'' \<noteq> [] \<and> js ''guess'' \<noteq> []
      \<and> sanitizeInput (js ''guess'') \<noteq> [] \<and> length (sanitizeInput (js ''guess'')) \<le> 256
      \<and> (case userData (aliceContext (JString (js ''c2''))) of None \<Rightarrow> True
          | Some d \<Rightarrow> js ''c2'' \<notin> set (solvedChallenges d))
      \<and> \<not> rejects exampleEnv ReadChallenge
      \<and> (case map_of (challenges retiredDatabase) (js ''c2'') of None \<Rightarrow> True
          | Some ch \<Rightarrow> \<not> isActive ch)"
    by (intro conjI alice_authenticated_retired empty_allows)
      (simp_all add: aliceRequest_def submission_def
        sanitizeInput_guess aliceContext_def aliceDocument_def exampleEnv_def retiredDatabase_def
        challengeTwo_def)
  from T [THEN conjunct1, rule_format, OF h0]
  have c0: "response (POST exampleEnv (aliceRequest (JString (js ''c2''))) (deleteChallenge (js ''c2'') retiredDatabase) Map.empty)
     = response (POST exampleEnv (aliceRequest (JString (js ''c2''))) retiredDatabase Map.empty)"
    by simp
  have c0': "map_of (challenges (deleteChallenge (js ''c2'') retiredDatabase)) (js ''c2'') = None"
    by (simp add: map_of_deleteChallenge)
  from T [THEN conjunct2, THEN conjunct1, rule_format, OF hn]
  have cn: "response (POST exampleEnv nullRequest exampleDatabase Map.empty) = Uncaught TypeError"
    by simp
  from T [THEN conjunct2, THEN conjunct2, THEN conjunct1, rule_format, OF hj]
  have cj: "response (POST exampleEnv listingRequest exampleDatabase Map.empty)
     = Responded (errorResponse ''Invalid request body'' 400)"
    by simp
  from T [THEN conjunct2, THEN conjunct2, THEN conjunct2, THEN conjunct1, rule_format, OF h1]
  have c1: "response (POST exampleEnv (aliceRequest (JString [])) exampleDatabase Map.empty)
     = Responded (errorResponse VALIDATION_FAILED 400)"
    by simp
  from T [THEN conjunct2, THEN conjunct2, THEN conjunct2, THEN conjunct2, THEN conjunct1,
      rule_format, OF hf]
  have cf: "response (POST exampleEnv (flagRequest (js ''<'')) (fingerprinted (js ''ff'')) Map.empty)
     = Responded (errorResponse VALIDATION_FAILED 400)"
    by simp
  from T [THEN conjunct2, THEN conjunct2, THEN conjunct2, THEN conjunct2, THEN conjunct2,
      rule_format, OF h2]
  have c2: "response (POST exampleEnv (aliceRequest (JString (js ''nope''))) exampleDatabase Map.empty)
     = Responded (errorResponse NOT_FOUND 404)"
    by simp
  from T [THEN conjunct2, THEN conjunct2, THEN conjunct2, THEN conjunct2, THEN conjunct2,
      rule_format, OF h3]
  have c3: "response (POST exampleEnv (aliceRequest (JString (js ''c2''))) retiredDatabase Map.empty)
     = Responded (errorResponse NOT_FOUND 404)"
    by simp
  from c0 c0' cn cj c1 cf c2 c3 show ?thesis by (intro conjI)
qed

section \<open>What the responses show of the secrets\<close>

lemma POST_response_cases:
  assumes resp: "response (POST env request db store) = Responded r"
    and auth: "\<And>r. authenticateRequest env request db = Inr (Inl r) \<Longrightarrow> P r"
    and rate: "\<And>rl. P (rateLimitedResponse rl)"
    and inv: "P (errorResponse ''Invalid request body'' 400)"
    and val: "P (errorResponse VALIDATION_FAILED 400)"
    and err: "P (errorResponse SERVER_ERROR 500)"
    and sub: "\<And>ctx h cid f r. fst (submitFlag env ctx h cid f db) = Inr r \<Longrightarrow> P r"
  shows "P r"
proof -
  have sub': "P r'" if "submitFlag env ctx h cid f db = (Inr r', db')" for ctx h cid f r' db'
    using sub [of ctx h cid f r'] that by simp
  from resp show ?thesis
    using auth rate inv val err sub'
    by (auto simp: POST_def Let_def split: sum.splits prod.splits request_body.splits if_splits)
qed

lemma bodyStrings_errorResponse [simp]: "bodyStrings (errorResponse e s) = [js e]"
  by (simp add: bodyStrings_def errorResponse_def)

lemma bodyStrings_rateLimitedResponse [simp]: "bodyStrings (rateLimitedResponse rl) = [js RATE_LIMITED]"
  by (simp add: bodyStrings_def rateLimitedResponse_def)

lemma bodyStrings_successResponse [simp]:
  "bodyStrings (successResponse d m) = (case m of None \<Rightarrow> [] | Some m \<Rightarrow> [js m]) @ payloadStrings d"
  by (simp add: bodyStrings_def successResponse_def)

lemma authenticateRequest_strings:
  assumes "authenticateRequest env request db = Inr (Inl r)"
  shows "set (bodyStrings r) \<subseteq> js ` set GENERIC_ERRORS"
  using assms
  by (auto simp: authenticateRequest_def GENERIC_ERRORS_def Let_def split: option.splits if_splits)

lemma submitFlag_strings:
  assumes "fst (submitFlag env ctx h cid f db) = Inr r"
  shows "set (bodyStrings r) \<subseteq> js ` set GENERIC_ERRORS"
  using assms
  by (auto simp: submitFlag_def GENERIC_ERRORS_def Let_def verdict_def
      split: option.splits if_splits sum.splits)

lemma POST_strings:
  assumes "response (POST env request db store) = Responded r"
  shows "set (bodyStrings r) \<subseteq> js ` set (''Invalid request body'' # GENERIC_ERRORS)"
  using assms
proof (rule POST_response_cases)
  fix r' assume "authenticateRequest env request db = Inr (Inl r')"
  from authenticateRequest_strings [OF this]
  show "set (bodyStrings r') \<subseteq> js ` set (''Invalid request body'' # GENERIC_ERRORS)" by auto
next
  fix ctx h cid f r' assume "fst (submitFlag env ctx h cid f db) = Inr r'"
  from submitFlag_strings [OF this]
  show "set (bodyStrings r') \<subseteq> js ` set (''Invalid request body'' # GENERIC_ERRORS)" by auto
qed (simp_all add: GENERIC_ERRORS_def)

lemma hexDigit_not_space: "n < 16 \<Longrightarrow> hexDigit n \<noteq> 0x20"
proof
  assume n: "n < 16" and "hexDigit n = 0x20"
  then have "unat (hexDigit n) = 32" by simp
  moreover have "unat (hexDigit n) = (if n < 10 then 48 + n else 87 + n)"
    using n by (simp add: hexDigit_def unat_of_nat)
  ultimately show False by (simp split: if_splits)
qed

lemma hexByte_no_space: "0x20 \<notin> set (hexByte b)"
  using hexDigit_not_space [OF nibbles_less(1), of b] hexDigit_not_space [OF nibbles_less(2), of b]
  by (auto simp: hexByte_def)

lemma toHex_no_space: "0x20 \<notin> set (toHex bs)"
  using hexByte_no_space by (auto simp: toHex_def)

lemma hashFlag_no_space: "hashFlag lower salt s = Inr h \<Longrightarrow> 0x20 \<notin> set h"
  by (auto simp: hashFlag_def Let_def toHex_no_space split: option.splits if_splits)

lemma messages_have_space:
  "m \<in> set (''Invalid request body'' # GENERIC_ERRORS) \<Longrightarrow> 0x20 \<in> set (js m)"
  by (auto simp: GENERIC_ERRORS_def js_def AUTH_FAILED_def INVALID_CREDENTIALS_def
      EMAIL_NOT_VERIFIED_def RATE_LIMITED_def SERVER_ERROR_def UNAUTHORIZED_def NOT_FOUND_def
      VALIDATION_FAILED_def FLAG_INCORRECT_def FLAG_CORRECT_def ALREADY_SOLVED_def)

lemma POST_no_fingerprint:
  assumes "hashFlag lower salt s = Inr h" and "response (POST env request db store) = Responded r"
  shows "h \<notin> set (bodyStrings r)"
proof
  assume "h \<in> set (bodyStrings r)"
  with POST_strings [OF assms(2)] obtain m
    where "m \<in> set (''Invalid request body'' # GENERIC_ERRORS)" "h = js m" by blast
  with messages_have_space [of m] hashFlag_no_space [OF assms(1)] show False by simp
qed

lemma toPublic_strings:
  "doc \<in> set (challenges db) \<Longrightarrow> set (publicStringsOf (toPublic solved doc)) \<subseteq> set (publicStrings db)"
  by (cases doc) (force simp: publicStringsOf_def toPublic_def publicStrings_def)

lemma GET_response_cases:
  assumes resp: "response (GET env request db store) = Responded r"
    and auth: "\<And>r. authenticateRequest env request db = Inr (Inl r) \<Longrightarrow> P r"
    and rate: "\<And>rl. P (rateLimitedResponse rl)"
    and err: "P (errorResponse ''Failed to fetch challenges'' 500)"
    and list: "\<And>solved. P (successResponse
        (ChallengeList (map (toPublic solved) (activeChallenges db))) None)"
  shows "P r"
  using resp auth rate err list
  by (auto simp: GET_def Let_def split: sum.splits prod.splits if_splits)

lemma GET_strings:
  assumes "response (GET env request db store) = Responded r"
  shows "set (bodyStrings r)
           \<subseteq> js ` set (''Failed to fetch challenges'' # GENERIC_ERRORS) \<union> set (publicStrings db)"
  using assms
proof (rule GET_response_cases)
  fix r' assume "authenticateRequest env request db = Inr (Inl r')"
  from authenticateRequest_strings [OF this]
  show "set (bodyStrings r')
      \<subseteq> js ` set (''Failed to fetch challenges'' # GENERIC_ERRORS) \<union> set (publicStrings db)"
    by auto
next
  fix solved
  have "set (publicStringsOf (toPublic solved doc)) \<subseteq> set (publicStrings db)"
    if "doc \<in> set (activeChallenges db)" for doc
    using that by (intro toPublic_strings) (simp add: activeChallenges_def)
  then show "set (bodyStrings (successResponse
        (ChallengeList (map (toPublic solved) (activeChallenges db))) None))
      \<subseteq> js ` set (''Failed to fetch challenges'' # GENERIC_ERRORS) \<union> set (publicStrings db)"
    by auto
qed (simp_all add: GENERIC_ERRORS_def)

lemma toPublic_refingerprint:
  "toPublic solved (fst doc, (snd doc)\<lparr>flagHash := x\<rparr>) = toPublic solved doc"
  by (cases doc) (simp add: toPublic_def)

lemma activeChallenges_refingerprint:
  "map (toPublic solved) (activeChallenges (refingerprint h db))
     = map (toPublic solved) (activeChallenges db)"
  by (simp add: activeChallenges_def refingerprint_def filter_map comp_def toPublic_refingerprint)

lemma authenticateRequest_refingerprint:
  "authenticateRequest env request (refingerprint h db) = authenticateRequest env request db"
  by (simp add: authenticateRequest_def refingerprint_def Let_def split: option.splits)

lemma GET_refingerprint:
  "response (GET env request (refingerprint h db) store) = response (GET env request db store)
   \<and> limiter (GET env request (refingerprint h db) store) = limiter (GET env request db store)"
  by (simp add: GET_def Let_def authenticateRequest_refingerprint activeChallenges_refingerprint
      split: sum.splits prod.splits)

lemma publicStrings_refingerprint: "publicStrings (refingerprint h db) = publicStrings db"
  by (simp add: publicStrings_def refingerprint_def comp_def)

lemma map_of_refingerprint:
  "map_of (challenges (refingerprint h db)) cid
     = map_option (\<lambda>c. c\<lparr>flagHash := h cid c\<rparr>) (map_of (challenges db) cid)"
proof -
  have "map_of (map (\<lambda>doc. (fst doc, (snd doc)\<lparr>flagHash := h (fst doc) (snd doc)\<rparr>)) xs) cid
     = map_option (\<lambda>c. c\<lparr>flagHash := h cid c\<rparr>) (map_of xs cid)" for xs
    by (induction xs) auto
  then show ?thesis by (simp add: refingerprint_def)
qed

lemma refingerprint_fields [simp]:
  "users (refingerprint h db) = users db"
  "submissions (refingerprint h db) = submissions db"
  "(refingerprint h db)\<lparr>submissions := s\<rparr> = refingerprint h (db\<lparr>submissions := s\<rparr>)"
  by (simp_all add: refingerprint_def)

lemma scoreTransaction_refingerprint:
  assumes "map_of (challenges db) cid = Some ch0"
  shows "map_sum id users (scoreTransaction t cid (ch\<lparr>flagHash := x\<rparr>) (refingerprint h db))
           = map_sum id users (scoreTransaction t cid ch db)"
  by (rule scoreTransaction_users) (simp_all add: map_of_refingerprint assms)

lemma submitFlag_refingerprint:
  assumes "\<forall>ch. map_of (challenges db) cid = Some ch \<longrightarrow>
      validateFlag (toLowerCase env) (FLAG_HASH_SALT env) f (h cid ch) = validateFlag (toLowerCase env) (FLAG_HASH_SALT env) f (flagHash ch)"
  shows "fst (submitFlag env ctx iph cid f (refingerprint h db)) = fst (submitFlag env ctx iph cid f db)"
proof (cases "map_of (challenges db) cid")
  case None
  then show ?thesis
    by (simp add: submitFlag_def map_of_refingerprint)
next
  case (Some ch)
  with assms have v: "validateFlag (toLowerCase env) (FLAG_HASH_SALT env) f (h cid ch)
      = validateFlag (toLowerCase env) (FLAG_HASH_SALT env) f (flagHash ch)" by simp
  define rec where "rec = db\<lparr>submissions := submissions db @
      [\<lparr>subChallengeId = cid, subUserId = uid (user ctx), subCorrect = True, subIpAddress = iph\<rparr>]\<rparr>"
  have "map_of (challenges rec) cid = Some ch" by (simp add: rec_def Some)
  from scoreTransaction_refingerprint [OF this, where t = "user ctx" and ch = ch
      and x = "h cid ch" and h = h]
  have tx: "map_sum id users (scoreTransaction (user ctx) cid (ch\<lparr>flagHash := h cid ch\<rparr>)
                (refingerprint h rec))
      = map_sum id users (scoreTransaction (user ctx) cid ch rec)" .
  let ?t' = "scoreTransaction (user ctx) cid (ch\<lparr>flagHash := h cid ch\<rparr>) (refingerprint h rec)"
  let ?t = "scoreTransaction (user ctx) cid ch rec"
  from tx consider (failed) e where "?t' = Inl e" "?t = Inl e"
    | (committed) d' d where "?t' = Inr d'" "?t = Inr d" "users d' = users d"
    by (cases ?t'; cases ?t) auto
  then show ?thesis
  proof cases
    case failed
    with v show ?thesis
      by (simp add: submitFlag_def map_of_refingerprint Some Let_def rec_def [symmetric]
          split: sum.splits)
  next
    case committed
    with v show ?thesis
      by (simp add: submitFlag_def map_of_refingerprint Some Let_def rec_def [symmetric]
          split: sum.splits)
  qed
qed

lemma POST_refingerprint:
  assumes "\<forall>c f ch. body request = JsonValue (JString c) (JString f)
      \<and> map_of (challenges db) c = Some ch \<longrightarrow>
      validateFlag (toLowerCase env) (FLAG_HASH_SALT env) (sanitizeInput f) (h c ch)
        = validateFlag (toLowerCase env) (FLAG_HASH_SALT env) (sanitizeInput f) (flagHash ch)"
  shows "response (POST env request (refingerprint h db) store) = response (POST env request db store)
    \<and> limiter (POST env request (refingerprint h db) store) = limiter (POST env request db store)"
proof -
  have sub: "fst (submitFlag env ctx iph (stringOf cj) (sanitizeInput (stringOf fj)) (refingerprint h db))
      = fst (submitFlag env ctx iph (stringOf cj) (sanitizeInput (stringOf fj)) db)"
    if "body request = JsonValue cj fj" "isString cj" "isString fj" for ctx iph cj fj
  proof -
    from that obtain c f where "cj = JString c" "fj = JString f"
      by (cases cj; cases fj) auto
    with that(1) assms show ?thesis
      by (intro submitFlag_refingerprint) auto
  qed
  have sub': "x = y"
    if "submitFlag env ctx iph (stringOf cj) (sanitizeInput (stringOf fj)) (refingerprint h db) = (x, d')"
      "submitFlag env ctx iph (stringOf cj) (sanitizeInput (stringOf fj)) db = (y, d)"
      "body request = JsonValue cj fj" "isString cj" "isString fj" for ctx iph cj fj x y d d'
    using sub [OF that(3,4,5), of ctx iph] that(1,2) by simp
  show ?thesis
    by (auto simp: POST_def Let_def authenticateRequest_refingerprint
        split: sum.splits prod.splits request_body.splits dest: sub')
qed

lemma POST_uncaught:
  assumes "response (POST env request db store) = Uncaught e"
  shows "(e = StorageError \<and> rejects env ReadUser) \<or> (e = TypeError \<and> body request = JsonNull)"
proof -
  have auth: "e' = StorageError \<and> rejects env ReadUser"
    if "authenticateRequest env request db = Inl e'" for e'
    using that
    by (auto simp: authenticateRequest_def Let_def split: option.splits if_splits)
  from assms show ?thesis
    by (auto simp: POST_def Let_def
        split: sum.splits prod.splits request_body.splits if_splits dest: auth)
qed

lemma GET_uncaught:
  assumes "response (GET env request db store) = Uncaught e"
  shows "e = StorageError \<and> rejects env ReadUser"
proof -
  have auth: "e' = StorageError \<and> rejects env ReadUser"
    if "authenticateRequest env request db = Inl e'" for e'
    using that
    by (auto simp: authenticateRequest_def Let_def split: option.splits if_splits)
  from assms show ?thesis
    by (auto simp: GET_def Let_def split: sum.splits prod.splits if_splits dest: auth)
qed

text \<open>
  Claim C7. Whatever the salt, the stored fingerprints, the request and the failures of
  the store, the submission handler either answers with a body all of whose strings are
  among the fixed messages, or is left by an exception, which is the failure of the read
  of the user document or the \<open>TypeError\<close> of a \<open>null\<close> body, both raised before a
  challenge document is read or a flag hashed. No fingerprint that \<open>hashFlag\<close>
  produces, under any salt, is a string of a body. The outcome is the same when the
  stored fingerprints are replaced by others under which the submitted flag matches or
  fails as before. The listing handler either answers with a body all of whose strings
  are fixed messages or public attributes of stored challenges (id, title, description,
  category, difficulty, hints, attachments), or is left by the failure of the read of
  the user document; its outcome does not change at all when the stored fingerprints
  are replaced, nor do the public attributes.
\<close>

theorem no_fingerprint_in_responses:
  "(case response (POST env request db store) of
      Responded r \<Rightarrow> set (bodyStrings r) \<subseteq> js ` set (''Invalid request body'' # GENERIC_ERRORS)
    | Uncaught e \<Rightarrow>
        (e = StorageError \<and> rejects env ReadUser) \<or> (e = TypeError \<and> body request = JsonNull))
   \<and> (response (POST env request db store) = Responded r \<and> hashFlag lower salt s = Inr fingerprint \<longrightarrow>
      fingerprint \<notin> set (bodyStrings r))
   \<and> ((\<forall>c f ch. body request = JsonValue (JString c) (JString f)
          \<and> map_of (challenges db) c = Some ch \<longrightarrow>
          validateFlag (toLowerCase env) (FLAG_HASH_SALT env) (sanitizeInput f) (h c ch)
            = validateFlag (toLowerCase env) (FLAG_HASH_SALT env) (sanitizeInput f) (flagHash ch)) \<longrightarrow>
      response (POST env request (refingerprint h db) store) = response (POST env request db store))
   \<and> (case response (GET env request db store) of
        Responded r \<Rightarrow>
          set (bodyStrings r)
            \<subseteq> js ` set (''Failed to fetch challenges'' # GENERIC_ERRORS) \<union> set (publicStrings db)
      | Uncaught e \<Rightarrow> e = StorageError \<and> rejects env ReadUser)
   \<and> response (GET env request (refingerprint h db) store) = response (GET env request db store)
   \<and> publicStrings (refingerprint h db) = publicStrings db"
proof (intro conjI impI)
  show "case response (POST env request db store) of
      Responded r \<Rightarrow> set (bodyStrings r) \<subseteq> js ` set (''Invalid request body'' # GENERIC_ERRORS)
    | Uncaught e \<Rightarrow>
        (e = StorageError \<and> rejects env ReadUser) \<or> (e = TypeError \<and> body request = JsonNull)"
    using POST_strings [of env request db store] POST_uncaught [of env request db store]
    by (cases "response (POST env request db store)") simp_all
next
  assume "response (POST env request db store) = Responded r \<and> hashFlag lower salt s = Inr fingerprint"
  then show "fingerprint \<notin> set (bodyStrings r)"
    using POST_no_fingerprint by blast
next
  assume "\<forall>c f ch. body request = JsonValue (JString c) (JString f)
          \<and> map_of (challenges db) c = Some ch \<longrightarrow>
          validateFlag (toLowerCase env) (FLAG_HASH_SALT env) (sanitizeInput f) (h c ch)
            = validateFlag (toLowerCase env) (FLAG_HASH_SALT env) (sanitizeInput f) (flagHash ch)"
  from POST_refingerprint [OF this]
  show "response (POST env request (refingerprint h db) store) = response (POST env request db store)"
    by simp
next
  show "case response (GET env request db store) of
        Responded r \<Rightarrow>
          set (bodyStrings r)
            \<subseteq> js ` set (''Failed to fetch challenges'' # GENERIC_ERRORS) \<union> set (publicStrings db)
      | Uncaught e \<Rightarrow> e = StorageError \<and> rejects env ReadUser"
    using GET_strings [of env request db store] GET_uncaught [of env request db store]
    by (cases "response (GET env request db store)") simp_all
next
  show "response (GET env request (refingerprint h db) store) = response (GET env request db store)"
    by (simp add: GET_refingerprint)
  show "publicStrings (refingerprint h db) = publicStrings db"
    by (rule publicStrings_refingerprint)
qed

lemma listing_response:
  "response (GET exampleEnv listingRequest exampleDatabase Map.empty)
     = Responded (successResponse (ChallengeList exampleListing) None)"
proof -
  obtain a b x2 where rl: "applyRateLimit exampleEnv listingRequest general None Map.empty = ((a, b), x2)"
    by (cases "applyRateLimit exampleEnv listingRequest general None Map.empty") auto
  have "allowed (fst (fst (applyRateLimit exampleEnv listingRequest general None Map.empty)))"
    by (simp add: applyRateLimit_def checkRateLimit_def Let_def split: prod.splits)
  with rl have a: "allowed a" by simp
  have q: "\<not> rejects exampleEnv QueryChallenges" by (simp add: exampleEnv_def)
  have l: "map (toPublic (solvedChallenges aliceDocument)) (activeChallenges exampleDatabase)
      = exampleListing"
    by (simp add: activeChallenges_def exampleDatabase_def challengeOne_def challengeTwo_def
        toPublic_def aliceDocument_def exampleListing_def)
  show ?thesis
    by (simp add: GET_def Let_def rl a q l alice_authenticated_listing)
qed

lemma outage_responses:
  "response (POST outageEnv (aliceRequest (JString (js ''c2''))) exampleDatabase Map.empty)
     = Uncaught StorageError"
  "response (GET outageEnv listingRequest exampleDatabase Map.empty) = Uncaught StorageError"
proof -
  have a: "authenticateRequest outageEnv r exampleDatabase = Inl StorageError"
    if "verifyAuthToken outageEnv r = Some aliceToken" for r
    using that by (simp add: authenticateRequest_def outageEnv_def aliceToken_def)
  have v1: "verifyAuthToken outageEnv (aliceRequest (JString (js ''c2''))) = Some aliceToken"
    by (simp add: aliceRequest_def verifyAuthToken_bearer outageEnv_def exampleEnv_def)
  have v2: "verifyAuthToken outageEnv listingRequest = Some aliceToken"
    by (simp add: listingRequest_def verifyAuthToken_def startsWith_def outageEnv_def exampleEnv_def)
  show "response (POST outageEnv (aliceRequest (JString (js ''c2''))) exampleDatabase Map.empty)
     = Uncaught StorageError"
    by (simp add: POST_def a [OF v1])
  have "allowed (fst (fst (applyRateLimit outageEnv listingRequest general None Map.empty)))"
    by (simp add: applyRateLimit_def checkRateLimit_def Let_def split: prod.splits)
  then show "response (GET outageEnv listingRequest exampleDatabase Map.empty) = Uncaught StorageError"
    by (auto simp: GET_def Let_def a [OF v2] split: prod.splits)
qed

text \<open>
  Witness for C7: the 401 answer to a caller without credentials; alice's \<open>null\<close>
  body and the failing read of her document, which leave the handler as exceptions; a
  fingerprint made by \<open>hashFlag\<close>; alice's wrong guess for \<open>c2\<close> against the
  store with every fingerprint replaced; and the listing sent to alice, with and without
  the read of her document failing.
\<close>

theorem no_fingerprint_in_responses_witness:
  "set (bodyStrings (errorResponse UNAUTHORIZED 401))
      \<subseteq> js ` set (''Invalid request body'' # GENERIC_ERRORS)
   \<and> response (POST exampleEnv nullRequest exampleDatabase Map.empty) = Uncaught TypeError
   \<and> body nullRequest = JsonNull
   \<and> response (POST outageEnv (aliceRequest (JString (js ''c2''))) exampleDatabase Map.empty)
       = Uncaught StorageError
   \<and> rejects outageEnv ReadUser
   \<and> toHex (sha256 (utf8 (js ''pepper'' @ toLowerCaseLatin1 (trim (js ''ctf{x}'')))))
      \<notin> set (bodyStrings (errorResponse UNAUTHORIZED 401))
   \<and> map (\<lambda>doc. flagHash (snd doc)) (challenges (refingerprint otherFingerprint exampleDatabase))
       = [js ''ee'', js ''ee'']
   \<and> response (POST exampleEnv (aliceRequest (JString (js ''c2'')))
        (refingerprint otherFingerprint exampleDatabase) Map.empty)
      = response (POST exampleEnv (aliceRequest (JString (js ''c2''))) exampleDatabase Map.empty)
   \<and> set (bodyStrings (successResponse (ChallengeList exampleListing) None))
      \<subseteq> js ` set (''Failed to fetch challenges'' # GENERIC_ERRORS)
          \<union> set (publicStrings exampleDatabase)
   \<and> response (GET outageEnv listingRequest exampleDatabase Map.empty) = Uncaught StorageError"
proof -
  note T = no_fingerprint_in_responses
  let ?alice = "aliceRequest (JString (js ''c2''))"
  have p: "response (POST exampleEnv anonymousRequest exampleDatabase saturatedStore)
      = Responded (errorResponse UNAUTHORIZED 401)"
    by (simp add: POST_auth_rejected authenticateRequest_def anonymousRequest_def
        anonymousSubmission_def verifyAuthToken_def)
  have bn: "body nullRequest = JsonNull" by (simp add: nullRequest_def)
  have n: "response (POST exampleEnv nullRequest exampleDatabase Map.empty) = Uncaught TypeError"
    by (simp add: POST_null_body [OF alice_authenticated_null empty_allows bn])
  have fp: "hashFlag toLowerCaseLatin1 (Some (js ''pepper'')) (js ''ctf{x}'')
      = Inr (toHex (sha256 (utf8 (js ''pepper'' @ toLowerCaseLatin1 (trim (js ''ctf{x}''))))))"
    by (simp add: hashFlag_def)
  have salt: "FLAG_HASH_SALT exampleEnv = Some (js ''pepper'')" "js ''pepper'' \<noteq> []"
    by (simp_all add: exampleEnv_def)
  have short: "length (bufferFromHex (js ''ee'')) \<noteq> 32" "length (bufferFromHex (js ''ff'')) \<noteq> 32"
    by code_simp+
  have same: "\<forall>c f ch. body ?alice = JsonValue (JString c) (JString f)
          \<and> map_of (challenges exampleDatabase) c = Some ch \<longrightarrow>
          validateFlag (toLowerCase exampleEnv) (FLAG_HASH_SALT exampleEnv) (sanitizeInput f)
              (otherFingerprint c ch)
            = validateFlag (toLowerCase exampleEnv) (FLAG_HASH_SALT exampleEnv) (sanitizeInput f)
                (flagHash ch)"
    by (simp add: aliceRequest_def submission_def otherFingerprint_def exampleDatabase_def
        challengeTwo_def salt validateFlag_short short)
  have all: "map (\<lambda>doc. flagHash (snd doc)) (challenges (refingerprint otherFingerprint exampleDatabase))
       = [js ''ee'', js ''ee'']"
    by (simp add: refingerprint_def otherFingerprint_def exampleDatabase_def)
  from T [of exampleEnv anonymousRequest exampleDatabase saturatedStore, THEN conjunct1]
  have c1: "set (bodyStrings (errorResponse UNAUTHORIZED 401))
      \<subseteq> js ` set (''Invalid request body'' # GENERIC_ERRORS)"
    by (simp add: p)
  from T [of exampleEnv nullRequest exampleDatabase Map.empty, THEN conjunct1]
  have c1n: "body nullRequest = JsonNull"
    by (simp add: n)
  from T [of outageEnv ?alice exampleDatabase Map.empty, THEN conjunct1]
  have c1o: "rejects outageEnv ReadUser"
    by (simp add: outage_responses)
  from T [THEN conjunct2, THEN conjunct1, rule_format, OF conjI [OF p fp]]
  have c2: "toHex (sha256 (utf8 (js ''pepper'' @ toLowerCaseLatin1 (trim (js ''ctf{x}'')))))
      \<notin> set (bodyStrings (errorResponse UNAUTHORIZED 401))" .
  from T [THEN conjunct2, THEN conjunct2, THEN conjunct1, THEN mp, OF same]
  have c3: "response (POST exampleEnv ?alice
        (refingerprint otherFingerprint exampleDatabase) Map.empty)
      = response (POST exampleEnv ?alice exampleDatabase Map.empty)" .
  from T [of exampleEnv listingRequest exampleDatabase Map.empty,
      THEN conjunct2, THEN conjunct2, THEN conjunct2, THEN conjunct1]
  have c4: "set (bodyStrings (successResponse (ChallengeList exampleListing) None))
      \<subseteq> js ` set (''Failed to fetch challenges'' # GENERIC_ERRORS)
          \<union> set (publicStrings exampleDatabase)"
    by (simp add: listing_response)
  from c1 n c1n outage_responses c1o c2 all c3 c4 show ?thesis by (intro conjI)
qed

section \<open>Properties of flag hashing, validation and sanitization\<close>

text \<open>
  Claim C3, amended: with the salt configured, and whatever the case conversion of the
  runtime, every secret validates against the fingerprint made of it; a secret validates
  against the fingerprint of another exactly when the SHA-256 digests of the UTF-8
  encodings of their salted normalized forms (trimmed, lower-cased) coincide. So it
  validates when the normalized forms are equal, and is refused whenever those digests
  differ.
\<close>

theorem fingerprint_round_trip:
  "(salt \<noteq> [] \<longrightarrow>
      (\<exists>fp. hashFlag lower (Some salt) s = Inr fp \<and> validateFlag lower (Some salt) s fp = Inr True))
   \<and> (salt \<noteq> [] \<and> hashFlag lower (Some salt) s2 = Inr fp2 \<longrightarrow>
      validateFlag lower (Some salt) s1 fp2
        = Inr (sha256 (utf8 (salt @ lower (trim s1))) = sha256 (utf8 (salt @ lower (trim s2)))))
   \<and> (salt \<noteq> [] \<and> hashFlag lower (Some salt) s2 = Inr fp2
        \<and> lower (trim s1) = lower (trim s2) \<longrightarrow>
      validateFlag lower (Some salt) s1 fp2 = Inr True)
   \<and> (salt \<noteq> [] \<and> hashFlag lower (Some salt) s2 = Inr fp2
        \<and> sha256 (utf8 (salt @ lower (trim s1))) \<noteq> sha256 (utf8 (salt @ lower (trim s2))) \<longrightarrow>
      validateFlag lower (Some salt) s1 fp2 = Inr False)"
  by (auto simp: hashFlag_salted validateFlag_digests)

text \<open>The digest of \<open>abc\<close>, the first example of FIPS 180-4.\<close>

lemma sha256_abc:
  "toHex (sha256 (utf8 (js ''abc'')))
     = js ''ba7816bf8f01cfea414140de5dae2223b00361a396177a9cb410ff61f20015ad''"
  by code_simp

lemma bracket_digest:
  "sha256 (utf8 (js ''pepper'' @ toLowerCaseLatin1 (trim bracketSecret))) = bracketDigest"
  by code_simp

lemma scheme_digest:
  "sha256 (utf8 (js ''pepper'' @ toLowerCaseLatin1 (trim schemeSecret))) = schemeDigest"
  by code_simp

lemma handler_digest:
  "sha256 (utf8 (js ''pepper'' @ toLowerCaseLatin1 (trim handlerSecret))) = handlerDigest"
  by code_simp

lemma stripped_digest:
  "sha256 (utf8 (js ''pepper'' @ toLowerCaseLatin1 (trim (js ''ctf{b}'')))) = strippedDigest"
  by code_simp

lemma digests_differ:
  "strippedDigest \<noteq> bracketDigest" "strippedDigest \<noteq> schemeDigest"
  "strippedDigest \<noteq> handlerDigest"
  by (simp_all add: strippedDigest_def bracketDigest_def schemeDigest_def handlerDigest_def)

lemma utf8_lone_surrogates:
  "utf8 (js ''pepper'' @ loneSurrogateA) = utf8 (js ''pepper'' @ loneSurrogateB)"
  by code_simp

lemma normalized_lone_surrogates:
  "toLowerCaseLatin1 (trim loneSurrogateA) = loneSurrogateA"
  "toLowerCaseLatin1 (trim loneSurrogateB) = loneSurrogateB"
  "loneSurrogateA \<noteq> loneSurrogateB"
  by code_simp+

text \<open>
  Claim C3 as stated fails in its second half: the two strings made of one unpaired
  surrogate each differ after trimming and lower-casing (neither operation changes an
  unpaired surrogate), yet the one validates against the fingerprint of the other,
  because the encoder turns either into the bytes of U+FFFD before hashing.
\<close>

theorem fingerprint_round_trip_counterexample:
  "toLowerCaseLatin1 (trim loneSurrogateA) = loneSurrogateA
   \<and> toLowerCaseLatin1 (trim loneSurrogateB) = loneSurrogateB
   \<and> loneSurrogateA \<noteq> loneSurrogateB
   \<and> hashFlag toLowerCaseLatin1 (Some (js ''pepper'')) loneSurrogateB
       = Inr (toHex (sha256 (utf8 (js ''pepper'' @ loneSurrogateB))))
   \<and> validateFlag toLowerCaseLatin1 (Some (js ''pepper'')) loneSurrogateA
        (toHex (sha256 (utf8 (js ''pepper'' @ loneSurrogateB)))) = Inr True"
  by (simp add: normalized_lone_surrogates hashFlag_salted validateFlag_digests
      utf8_lone_surrogates)

text \<open>
  Witness for C3 (amended): a flag with spaces and capitals against its own fingerprint,
  the same flag written in another case, and \<open>ctf{b}\<close> against the fingerprint of
  \<open>ctf{<b>}\<close>.
\<close>

theorem fingerprint_round_trip_witness:
  "(\<exists>fp. hashFlag toLowerCaseLatin1 (Some (js ''pepper'')) (js '' CTF{x} '') = Inr fp
        \<and> validateFlag toLowerCaseLatin1 (Some (js ''pepper'')) (js '' CTF{x} '') fp = Inr True)
   \<and> validateFlag toLowerCaseLatin1 (Some (js ''pepper'')) (js ''ctf{X}'')
        (toHex (sha256 (utf8 (js ''pepper'' @ toLowerCaseLatin1 (trim (js '' CTF{x} ''))))))
       = Inr True
   \<and> validateFlag toLowerCaseLatin1 (Some (js ''pepper'')) (js ''ctf{b}'') (toHex bracketDigest)
       = Inr False"
proof -
  note T = fingerprint_round_trip
  have salt: "js ''pepper'' \<noteq> []" by simp
  have fp: "hashFlag toLowerCaseLatin1 (Some (js ''pepper'')) (js '' CTF{x} '')
      = Inr (toHex (sha256 (utf8 (js ''pepper'' @ toLowerCaseLatin1 (trim (js '' CTF{x} ''))))))"
    by (simp add: hashFlag_salted)
  have norm: "toLowerCaseLatin1 (trim (js ''ctf{X}'')) = toLowerCaseLatin1 (trim (js '' CTF{x} ''))"
    by code_simp
  have fpb: "hashFlag toLowerCaseLatin1 (Some (js ''pepper'')) bracketSecret = Inr (toHex bracketDigest)"
    by (simp add: hashFlag_salted bracket_digest)
  have diff: "sha256 (utf8 (js ''pepper'' @ toLowerCaseLatin1 (trim (js ''ctf{b}''))))
      \<noteq> sha256 (utf8 (js ''pepper'' @ toLowerCaseLatin1 (trim bracketSecret)))"
    by (simp add: bracket_digest stripped_digest digests_differ)
  from T [THEN conjunct1, rule_format, OF salt, of toLowerCaseLatin1 "js '' CTF{x} ''"]
  have c1: "\<exists>fp. hashFlag toLowerCaseLatin1 (Some (js ''pepper'')) (js '' CTF{x} '') = Inr fp
        \<and> validateFlag toLowerCaseLatin1 (Some (js ''pepper'')) (js '' CTF{x} '') fp = Inr True" .
  from T [THEN conjunct2, THEN conjunct2, THEN conjunct1, rule_format,
      OF conjI [OF salt conjI [OF fp norm]]]
  have c2: "validateFlag toLowerCaseLatin1 (Some (js ''pepper'')) (js ''ctf{X}'')
        (toHex (sha256 (utf8 (js ''pepper'' @ toLowerCaseLatin1 (trim (js '' CTF{x} ''))))))
       = Inr True" .
  from T [THEN conjunct2, THEN conjunct2, THEN conjunct2, rule_format,
      OF conjI [OF salt conjI [OF fpb diff]]]
  have c3: "validateFlag toLowerCaseLatin1 (Some (js ''pepper'')) (js ''ctf{b}'') (toHex bracketDigest)
       = Inr False" .
  from c1 c2 c3 show ?thesis by (intro conjI)
qed

subsection \<open>The deletions of \<open>sanitizeInput\<close>\<close>

lemma set_removeJavascript: "set (removeJavascript s) \<subseteq> set s"
proof (induction s rule: removeJavascript.induct)
  case 1
  then show ?case by simp
next
  case (2 c cs)
  have "set (drop 10 cs) \<subseteq> set cs" by (rule set_drop_subset)
  with 2 show ?case by auto
qed

lemma set_removeHandlers: "set (removeHandlers s) \<subseteq> set s"
proof (induction s rule: removeHandlers.induct)
  case 1
  then show ?case by simp
next
  case (2 c cs)
  show ?case
  proof (cases "handlerMatch (c # cs)")
    case None
    with 2 show ?thesis by auto
  next
    case (Some n)
    have "set (drop (n - 1) cs) \<subseteq> set cs" by (rule set_drop_subset)
    with 2 Some show ?thesis by auto
  qed
qed

lemma set_sanitizeInput: "set (sanitizeInput s) \<subseteq> set s - {0x3C, 0x3E}"
proof -
  have "set (sanitizeInput s) \<subseteq> set (removeAngleBrackets (trim s))"
    using set_take_subset [of 10000 "removeHandlers (removeJavascript (removeAngleBrackets (trim s)))"]
      set_removeHandlers [of "removeJavascript (removeAngleBrackets (trim s))"]
      set_removeJavascript [of "removeAngleBrackets (trim s)"]
    by (auto simp: sanitizeInput_def)
  moreover have "set (trim s) \<subseteq> set s"
    using set_dropWhileD [of _ isWhiteSpace "rev (dropWhile isWhiteSpace s)"]
      set_dropWhileD [of _ isWhiteSpace s]
    by (auto simp: trim_def)
  ultimately show ?thesis by (auto simp: removeAngleBrackets_def)
qed

lemma removeJavascript_match:
  assumes "length m = 11" and "map upperAscii m = map upperAscii (js ''javascript:'')"
  shows "removeJavascript (m @ r) = removeJavascript r"
proof -
  from assms(1) obtain c cs where m: "m = c # cs" "length cs = 10" by (cases m) auto
  have "matchesIgnoreCase (js ''javascript:'') (c # cs @ r)"
    using assms m by (simp add: matchesIgnoreCase_def)
  with m show ?thesis by simp
qed

lemma removeHandlers_match:
  assumes "upperAscii a = 0x4F" and "upperAscii b = 0x4E"
    and "w \<noteq> []" and "list_all isWordChar w"
  shows "removeHandlers (a # b # w @ 0x3D # r) = removeHandlers r"
proof -
  have "\<not> isWordChar 0x3D" by (simp add: isWordChar_def)
  with assms(4) have "takeWhile isWordChar (w @ 0x3D # r) = w"
    by (simp add: takeWhile_append2 list_all_iff)
  with assms have "handlerMatch (a # b # w @ 0x3D # r) = Some (length w + 3)"
    by (simp add: handlerMatch_def)
  then show ?thesis by simp
qed

lemma removeJavascript_letters: "removeJavascript (replicate n 0x61) = replicate n 0x61"
proof (induction n)
  case 0
  then show ?case by simp
next
  case (Suc n)
  have "\<not> matchesIgnoreCase (js ''javascript:'') (0x61 # replicate n 0x61)"
  proof
    assume "matchesIgnoreCase (js ''javascript:'') (0x61 # replicate n 0x61)"
    then have e: "map upperAscii (take (length (js ''javascript:'')) (0x61 # replicate n 0x61))
        = map upperAscii (js ''javascript:'')"
      unfolding matchesIgnoreCase_def by (rule conjunct2)
    from arg_cong [OF e, of hd] show False by (simp add: js_def upperAscii_def)
  qed
  with Suc show ?case by simp
qed

lemma removeHandlers_letters: "removeHandlers (replicate n 0x61) = replicate n 0x61"
proof (induction n)
  case 0
  then show ?case by simp
next
  case (Suc n)
  have "handlerMatch (0x61 # replicate n 0x61) = None"
    by (simp add: handlerMatch_def upperAscii_def split: list.splits)
  with Suc show ?case by simp
qed

lemma sanitizeInput_letters: "sanitizeInput (replicate n 0x61) = replicate (min n 10000) 0x61"
proof -
  have w: "\<not> isWhiteSpace 0x61" by (simp add: isWhiteSpace_def)
  have "dropWhile isWhiteSpace (replicate k 0x61) = replicate k 0x61" for k
    using w by (cases k) simp_all
  then have "trim (replicate n 0x61) = replicate n 0x61"
    by (simp add: trim_def)
  then show ?thesis
    by (simp add: sanitizeInput_def removeAngleBrackets_def removeJavascript_letters
        removeHandlers_letters min_def)
qed

lemma sanitizeInput_secrets:
  "sanitizeInput bracketSecret = js ''ctf{b}''"
  "sanitizeInput schemeSecret = js ''ctf{b}''"
  "sanitizeInput handlerSecret = js ''ctf{b}''"
  "sanitizeInput (js ''ctf{b}'') = js ''ctf{b}''"
  "sanitizeInput (js ''javajavascript:script:x'') = js ''javascript:x''"
  "sanitizeInput (js ''  a onX_9=b  '') = js ''a b''"
  "sanitizeInput (js ''on-x=1'') = js ''on-x=1''"
  "sanitizeInput (js ''on=x'') = js ''on=x''"
  by code_simp+

subsection \<open>The verdict of \<open>POST\<close>\<close>

lemma submitFlag_incorrect:
  assumes "case userData ctx of None \<Rightarrow> True | Some d \<Rightarrow> cid \<notin> set (solvedChallenges d)"
    and "\<not> rejects env ReadChallenge"
    and "map_of (challenges db) cid = Some ch" and "isActive ch"
    and "validateFlag (toLowerCase env) (FLAG_HASH_SALT env) f (flagHash ch) = Inr False"
    and "\<not> rejects env AddSubmission"
  shows "submitFlag env ctx h cid f db =
           (Inr (successResponse (verdict False FLAG_INCORRECT None None) None),
            db\<lparr>submissions := submissions db @
               [\<lparr>subChallengeId = cid, subUserId = uid (user ctx), subCorrect = False,
                 subIpAddress = h\<rparr>]\<rparr>)"
  using assms by (auto simp: submitFlag_def Let_def split: option.splits)

lemma POST_incorrect:
  assumes "authenticateRequest env request db = Inr (Inr ctx)"
    and "allowed (fst (fst (flagRateLimit env request ctx store)))"
    and "body request = JsonValue (JString cid) (JString submitted)"
    and "cid \<noteq> []" and "submitted \<noteq> []"
    and "sanitizeInput submitted \<noteq> []" and "length (sanitizeInput submitted) \<le> 256"
    and "case userData ctx of None \<Rightarrow> True | Some d \<Rightarrow> cid \<notin> set (solvedChallenges d)"
    and "\<not> rejects env ReadChallenge"
    and "map_of (challenges db) cid = Some ch" and "isActive ch"
    and "\<not> rejects env AddSubmission"
    and "validateFlag (toLowerCase env) (FLAG_HASH_SALT env) (sanitizeInput submitted) (flagHash ch)
           = Inr False"
  shows "response (POST env request db store)
        = Responded (successResponse (verdict False FLAG_INCORRECT None None) None)"
proof -
  have "fst (submitFlag env ctx h cid (sanitizeInput submitted) db)
      = Inr (successResponse (verdict False FLAG_INCORRECT None None) None)" for h
    using assms by (subst submitFlag_incorrect [where ch = ch]) simp_all
  with assms show ?thesis
    by (simp add: POST_evaluated)
qed

lemma submitFlag_correct:
  assumes "case userData ctx of None \<Rightarrow> True | Some d \<Rightarrow> cid \<notin> set (solvedChallenges d)"
    and "\<not> rejects env ReadChallenge"
    and "map_of (challenges db) cid = Some ch" and "isActive ch"
    and "validateFlag (toLowerCase env) (FLAG_HASH_SALT env) f (flagHash ch) = Inr True"
    and "\<not> rejects env AddSubmission" and "\<not> rejects env RunTransaction"
    and "scoreTransaction (user ctx) cid ch
           (db\<lparr>submissions := submissions db @
               [\<lparr>subChallengeId = cid, subUserId = uid (user ctx), subCorrect = True,
                 subIpAddress = h\<rparr>]\<rparr>) = Inr committed"
    and "\<not> rejects env ReadUpdatedUser"
  shows "submitFlag env ctx h cid f db =
           (Inr (successResponse
                   (verdict True FLAG_CORRECT (Some (points ch))
                      (Some (case users committed (uid (user ctx)) of None \<Rightarrow> 0 | Some d \<Rightarrow> score d)))
                   None),
            committed)"
  using assms by (auto simp: submitFlag_def Let_def split: option.splits)

lemma POST_correct:
  assumes auth: "authenticateRequest env request db = Inr (Inr ctx)"
    and al: "allowed (fst (fst (flagRateLimit env request ctx store)))"
    and bd: "body request = JsonValue (JString cid) (JString submitted)"
    and ne: "cid \<noteq> []" "submitted \<noteq> []"
      "sanitizeInput submitted \<noteq> []" "length (sanitizeInput submitted) \<le> 256"
    and unsolved: "case userData ctx of None \<Rightarrow> True | Some d \<Rightarrow> cid \<notin> set (solvedChallenges d)"
    and rd: "\<not> rejects env ReadChallenge"
    and ch: "map_of (challenges db) cid = Some ch" "isActive ch"
    and wr: "\<not> rejects env AddSubmission" "\<not> rejects env RunTransaction"
      "\<not> rejects env ReadUpdatedUser"
    and ok: "validateFlag (toLowerCase env) (FLAG_HASH_SALT env) (sanitizeInput submitted) (flagHash ch)
           = Inr True"
  shows "response (POST env request db store)
        = Responded (successResponse
            (verdict True FLAG_CORRECT (Some (points ch))
               (Some ((case userData ctx of None \<Rightarrow> 0 | Some d \<Rightarrow> score d) + points ch)))
            None)"
proof -
  let ?h = "hashIpAddress (FLAG_HASH_SALT env) (getClientIp request)"
  define rec where "rec = db\<lparr>submissions := submissions db @
      [\<lparr>subChallengeId = cid, subUserId = uid (user ctx), subCorrect = True, subIpAddress = ?h\<rparr>]\<rparr>"
  from authenticateRequest_context [OF auth]
  have ud: "users rec (uid (user ctx)) = userData ctx" by (simp add: rec_def)
  have st: "map_of (challenges rec) cid = Some ch" by (simp add: rec_def ch)
  obtain committed where tx: "scoreTransaction (user ctx) cid ch rec = Inr committed"
    and sc: "(case users committed (uid (user ctx)) of None \<Rightarrow> 0 | Some d \<Rightarrow> score d)
        = (case userData ctx of None \<Rightarrow> 0 | Some d \<Rightarrow> score d) + points ch"
  proof (cases "userData ctx")
    case None
    with ud have "users rec (uid (user ctx)) = None" by simp
    from scoreTransaction_first_touch [OF this st, of ch] None that show ?thesis
      by (simp add: newUserDocument_def)
  next
    case (Some d)
    with ud unsolved have "users rec (uid (user ctx)) = Some d" "cid \<notin> set (solvedChallenges d)"
      by simp_all
    from scoreTransaction_award [OF this st, of ch] Some that show ?thesis
      by simp
  qed
  have "submitFlag env ctx ?h cid (sanitizeInput submitted) db =
      (Inr (successResponse
              (verdict True FLAG_CORRECT (Some (points ch))
                 (Some (case users committed (uid (user ctx)) of None \<Rightarrow> 0 | Some d \<Rightarrow> score d)))
              None),
       committed)"
    by (rule submitFlag_correct [OF unsolved rd ch ok wr(1,2) tx [unfolded rec_def] wr(3)])
  then show ?thesis
    by (simp add: POST_evaluated [OF auth al bd ne] sc)
qed

lemma example_facts:
  "FLAG_HASH_SALT exampleEnv = Some (js ''pepper'')" "js ''pepper'' \<noteq> []"
  "toLowerCase exampleEnv = toLowerCaseLatin1"
  "\<not> rejects exampleEnv call"
  by (simp_all add: exampleEnv_def)

lemma flag_facts:
  "body (flagRequest f) = JsonValue (JString (js ''c2'')) (JString f)"
  "js ''c2'' \<noteq> []"
  "case userData (flagContext f) of None \<Rightarrow> True | Some d \<Rightarrow> js ''c2'' \<notin> set (solvedChallenges d)"
  "map_of (challenges (fingerprinted fp)) (js ''c2'') = Some (challengeTwo\<lparr>flagHash := fp\<rparr>)"
  "isActive (challengeTwo\<lparr>flagHash := fp\<rparr>)"
  "userData (flagContext f) = Some aliceDocument"
  by (simp_all add: flagRequest_def submission_def flagContext_def aliceDocument_def
      fingerprinted_def challengeTwo_def)

lemma secret_fingerprints:
  "hashFlag (toLowerCase exampleEnv) (FLAG_HASH_SALT exampleEnv) bracketSecret = Inr (toHex bracketDigest)"
  "hashFlag (toLowerCase exampleEnv) (FLAG_HASH_SALT exampleEnv) schemeSecret = Inr (toHex schemeDigest)"
  "hashFlag (toLowerCase exampleEnv) (FLAG_HASH_SALT exampleEnv) handlerSecret = Inr (toHex handlerDigest)"
  "hashFlag (toLowerCase exampleEnv) (FLAG_HASH_SALT exampleEnv) (js ''ctf{b}'') = Inr (toHex strippedDigest)"
  "hashFlag (toLowerCase exampleEnv) (FLAG_HASH_SALT exampleEnv) angleSecret = Inr angleFingerprint"
  by (simp_all add: example_facts hashFlag_salted bracket_digest scheme_digest handler_digest
      stripped_digest)
    (code_simp)

lemma secret_submission:
  assumes "f \<noteq> []" and "sanitizeInput f = js ''ctf{b}''"
  shows "response (POST exampleEnv (flagRequest f) (fingerprinted (toHex d)) Map.empty)
     = Responded (if d = strippedDigest
         then successResponse (verdict True FLAG_CORRECT (Some 250) (Some 750)) None
         else successResponse (verdict False FLAG_INCORRECT None None) None)"
proof -
  have v: "validateFlag (toLowerCase exampleEnv) (FLAG_HASH_SALT exampleEnv) (sanitizeInput f)
      (flagHash (challengeTwo\<lparr>flagHash := toHex d\<rparr>)) = Inr (strippedDigest = d)"
    by (simp add: example_facts validateFlag_digests assms(2) stripped_digest)
  have ne: "sanitizeInput f \<noteq> []" "length (sanitizeInput f) \<le> 256"
    by (simp_all add: assms(2))
  show ?thesis
  proof (cases "d = strippedDigest")
    case True
    with v have ok: "validateFlag (toLowerCase exampleEnv) (FLAG_HASH_SALT exampleEnv) (sanitizeInput f)
      (flagHash (challengeTwo\<lparr>flagHash := toHex d\<rparr>)) = Inr True" by simp
    from POST_correct [OF flag_authenticated empty_allows flag_facts(1,2) assms(1) ne
        flag_facts(3) example_facts(4) flag_facts(4,5) example_facts(4) example_facts(4)
        example_facts(4) ok]
    show ?thesis
      using True by (simp add: flag_facts(6) aliceDocument_def challengeTwo_def)
  next
    case False
    with v have wrong: "validateFlag (toLowerCase exampleEnv) (FLAG_HASH_SALT exampleEnv) (sanitizeInput f)
      (flagHash (challengeTwo\<lparr>flagHash := toHex d\<rparr>)) = Inr False" by auto
    from POST_incorrect [OF flag_authenticated empty_allows flag_facts(1,2) assms(1) ne
        flag_facts(3) example_facts(4) flag_facts(4,5) example_facts(4) wrong]
    show ?thesis
      using False by simp
  qed
qed

text \<open>
  Claim C9 as stated fails for some of the secrets it names: the secret \<open><\<close>
  contains one of the deleted substrings, its fingerprint is stored, and submitting it
  exactly is answered 400 with the validation message, not \<open>correct: false\<close>,
  because nothing is left of it after sanitizing.
\<close>

theorem sanitized_flag_is_matched_counterexample:
  "hashFlag (toLowerCase exampleEnv) (FLAG_HASH_SALT exampleEnv) angleSecret = Inr angleFingerprint
   \<and> map_option flagHash (map_of (challenges (fingerprinted angleFingerprint)) (js ''c2''))
       = Some angleFingerprint
   \<and> body (flagRequest angleSecret) = JsonValue (JString (js ''c2'')) (JString angleSecret)
   \<and> sanitizeInput angleSecret = []
   \<and> response (POST exampleEnv (flagRequest angleSecret) (fingerprinted angleFingerprint) Map.empty)
       = Responded (errorResponse VALIDATION_FAILED 400)
   \<and> errorResponse VALIDATION_FAILED 400
       \<noteq> successResponse (verdict False FLAG_INCORRECT None None) None"
proof -
  have s: "sanitizeInput angleSecret = []"
    by (simp add: angleSecret_def sanitizeInput_angle)
  have "\<not> truthy (JString angleSecret) \<or> \<not> isString (JString angleSecret)
      \<or> sanitizeInput (stringOf (JString angleSecret)) = []
      \<or> length (sanitizeInput (stringOf (JString angleSecret))) > 256"
    by (simp add: s)
  from POST_invalid_flag [OF flag_authenticated empty_allows flag_facts(1) this]
  have "response (POST exampleEnv (flagRequest angleSecret) (fingerprinted angleFingerprint) Map.empty)
       = Responded (errorResponse VALIDATION_FAILED 400)"
    by simp
  with s secret_fingerprints(5) flag_facts(1,4) show ?thesis
    by (simp add: errorResponse_def successResponse_def)
qed

text \<open>
  Claim C9, amended. \<open>POST\<close> hashes the sanitized flag, never the submitted one. For
  a request that reaches the validation of the flag (authenticated, within the rate
  limit, body with a well-formed id and a non-empty string as flag): when nothing is
  left of the flag after sanitizing, or more than 256 code units, the answer is 400 with
  the validation message; otherwise, for an active challenge the user has not solved,
  with the salt set and the store answering, the answer is \<open>correct: true\<close> with the
  points and the new score exactly when the digest of the salted, normalized
  \<^emph>\<open>sanitized\<close> flag is the stored fingerprint's bytes, and \<open>correct: false\<close> with
  the incorrect-flag message when it is not. \<open>sanitizeInput\<close> leaves no angle bracket
  and at most 10000 code units (exactly the first 10000 of a longer run of the letter
  \<open>a\<close>), deletes a match of \<open>javascript:\<close> and a match of \<open>on\w+=\<close> in
  either case of the letters, where \<open>\w+\<close> is a non-empty run of letters, digits
  and underscores, and makes one pass for each, so that a match put together by a
  deletion stays. Hence the three secrets \<open>ctf{<b>}\<close>,
  \<open>ctf{JavaScript:b}\<close> and \<open>ctf{onLoad=b}\<close>, submitted exactly, for a challenge
  that stores the fingerprint \<open>hashFlag\<close> makes of them, are answered
  \<open>correct: false\<close>, whereas each of them is accepted for the challenge whose secret
  is \<open>ctf{b}\<close>.
\<close>

theorem sanitized_flag_is_matched:
  "(authenticateRequest env request db = Inr (Inr ctx)
      \<and> allowed (fst (fst (flagRateLimit env request ctx store)))
      \<and> body request = JsonValue (JString cid) (JString submitted)
      \<and> cid \<noteq> [] \<and> submitted \<noteq> []
      \<and> (sanitizeInput submitted = [] \<or> length (sanitizeInput submitted) > 256) \<longrightarrow>
      response (POST env request db store) = Responded (errorResponse VALIDATION_FAILED 400))
   \<and> (authenticateRequest env request db = Inr (Inr ctx)
      \<and> allowed (fst (fst (flagRateLimit env request ctx store)))
      \<and> body request = JsonValue (JString cid) (JString submitted)
      \<and> cid \<noteq> [] \<and> submitted \<noteq> []
      \<and> sanitizeInput submitted \<noteq> [] \<and> length (sanitizeInput submitted) \<le> 256
      \<and> (case userData ctx of None \<Rightarrow> True | Some d \<Rightarrow> cid \<notin> set (solvedChallenges d))
      \<and> map_of (challenges db) cid = Some ch \<and> isActive ch
      \<and> FLAG_HASH_SALT env = Some salt \<and> salt \<noteq> []
      \<and> (\<forall>call. \<not> rejects env call) \<longrightarrow>
      response (POST env request db store)
        = Responded
            (if sha256 (utf8 (salt @ toLowerCase env (trim (sanitizeInput submitted))))
                  = bufferFromHex (flagHash ch)
             then successResponse
                    (verdict True FLAG_CORRECT (Some (points ch))
                       (Some ((case userData ctx of None \<Rightarrow> 0 | Some d \<Rightarrow> score d) + points ch)))
                    None
             else successResponse (verdict False FLAG_INCORRECT None None) None))
   \<and> set (sanitizeInput s) \<subseteq> set s - {0x3C, 0x3E}
   \<and> length (sanitizeInput s) \<le> 10000
   \<and> (length m = 11 \<and> map upperAscii m = map upperAscii (js ''javascript:'') \<longrightarrow>
      removeJavascript (m @ r) = removeJavascript r)
   \<and> (upperAscii a = 0x4F \<and> upperAscii b = 0x4E \<and> w \<noteq> [] \<and> list_all isWordChar w \<longrightarrow>
      removeHandlers (a # b # w @ 0x3D # r) = removeHandlers r)
   \<and> sanitizeInput (replicate n 0x61) = replicate (min n 10000) 0x61
   \<and> sanitizeInput (js ''  a onX_9=b  '') = js ''a b''
   \<and> sanitizeInput (js ''on-x=1'') = js ''on-x=1''
   \<and> sanitizeInput (js ''on=x'') = js ''on=x''
   \<and> sanitizeInput (js ''javajavascript:script:x'') = js ''javascript:x''
   \<and> sanitizeInput bracketSecret = js ''ctf{b}''
   \<and> sanitizeInput schemeSecret = js ''ctf{b}''
   \<and> sanitizeInput handlerSecret = js ''ctf{b}''
   \<and> hashFlag (toLowerCase exampleEnv) (FLAG_HASH_SALT exampleEnv) bracketSecret
       = Inr (toHex bracketDigest)
   \<and> hashFlag (toLowerCase exampleEnv) (FLAG_HASH_SALT exampleEnv) schemeSecret
       = Inr (toHex schemeDigest)
   \<and> hashFlag (toLowerCase exampleEnv) (FLAG_HASH_SALT exampleEnv) handlerSecret
       = Inr (toHex handlerDigest)
   \<and> response (POST exampleEnv (flagRequest bracketSecret) (fingerprinted (toHex bracketDigest)) Map.empty)
       = Responded (successResponse (verdict False FLAG_INCORRECT None None) None)
   \<and> response (POST exampleEnv (flagRequest schemeSecret) (fingerprinted (toHex schemeDigest)) Map.empty)
       = Responded (successResponse (verdict False FLAG_INCORRECT None None) None)
   \<and> response (POST exampleEnv (flagRequest handlerSecret) (fingerprinted (toHex handlerDigest)) Map.empty)
       = Responded (successResponse (verdict False FLAG_INCORRECT None None) None)"
proof (intro conjI impI)
  assume a: "authenticateRequest env request db = Inr (Inr ctx)
      \<and> allowed (fst (fst (flagRateLimit env request ctx store)))
      \<and> body request = JsonValue (JString cid) (JString submitted)
      \<and> cid \<noteq> [] \<and> submitted \<noteq> []
      \<and> (sanitizeInput submitted = [] \<or> length (sanitizeInput submitted) > 256)"
  then have "\<not> truthy (JString submitted) \<or> \<not> isString (JString submitted)
      \<or> sanitizeInput (stringOf (JString submitted)) = []
      \<or> length (sanitizeInput (stringOf (JString submitted))) > 256"
    by simp
  from POST_invalid_flag [OF _ _ _ this, of env request db ctx store "JString cid"] a
  show "response (POST env request db store) = Responded (errorResponse VALIDATION_FAILED 400)"
    by simp
next
  assume a: "authenticateRequest env request db = Inr (Inr ctx)
      \<and> allowed (fst (fst (flagRateLimit env request ctx store)))
      \<and> body request = JsonValue (JString cid) (JString submitted)
      \<and> cid \<noteq> [] \<and> submitted \<noteq> []
      \<and> sanitizeInput submitted \<noteq> [] \<and> length (sanitizeInput submitted) \<le> 256
      \<and> (case userData ctx of None \<Rightarrow> True | Some d \<Rightarrow> cid \<notin> set (solvedChallenges d))
      \<and> map_of (challenges db) cid = Some ch \<and> isActive ch
      \<and> FLAG_HASH_SALT env = Some salt \<and> salt \<noteq> []
      \<and> (\<forall>call. \<not> rejects env call)"
  then have auth: "authenticateRequest env request db = Inr (Inr ctx)"
    and al: "allowed (fst (fst (flagRateLimit env request ctx store)))"
    and bd: "body request = JsonValue (JString cid) (JString submitted)"
    and ne: "cid \<noteq> []" "submitted \<noteq> []" "sanitizeInput submitted \<noteq> []"
      "length (sanitizeInput submitted) \<le> 256"
    and unsolved: "case userData ctx of None \<Rightarrow> True | Some d \<Rightarrow> cid \<notin> set (solvedChallenges d)"
    and ch: "map_of (challenges db) cid = Some ch" "isActive ch"
    and salt: "FLAG_HASH_SALT env = Some salt" "salt \<noteq> []"
    and ok: "\<not> rejects env call" for call
    by blast+
  have v: "validateFlag (toLowerCase env) (FLAG_HASH_SALT env) (sanitizeInput submitted) (flagHash ch)
      = Inr (sha256 (utf8 (salt @ toLowerCase env (trim (sanitizeInput submitted))))
              = bufferFromHex (flagHash ch))"
    by (simp add: salt validateFlag_stored)
  show "response (POST env request db store)
        = Responded
            (if sha256 (utf8 (salt @ toLowerCase env (trim (sanitizeInput submitted))))
                  = bufferFromHex (flagHash ch)
             then successResponse
                    (verdict True FLAG_CORRECT (Some (points ch))
                       (Some ((case userData ctx of None \<Rightarrow> 0 | Some d \<Rightarrow> score d) + points ch)))
                    None
             else successResponse (verdict False FLAG_INCORRECT None None) None)"
  proof (cases "sha256 (utf8 (salt @ toLowerCase env (trim (sanitizeInput submitted))))
                  = bufferFromHex (flagHash ch)")
    case True
    with v have "validateFlag (toLowerCase env) (FLAG_HASH_SALT env) (sanitizeInput submitted)
        (flagHash ch) = Inr True" by simp
    from POST_correct [OF auth al bd ne unsolved ok ch ok ok ok this] True
    show ?thesis by simp
  next
    case False
    with v have "validateFlag (toLowerCase env) (FLAG_HASH_SALT env) (sanitizeInput submitted)
        (flagHash ch) = Inr False" by simp
    from POST_incorrect [OF auth al bd ne unsolved ok ch ok this] False
    show ?thesis by simp
  qed
next
  show "set (sanitizeInput s) \<subseteq> set s - {0x3C, 0x3E}" by (rule set_sanitizeInput)
  show "length (sanitizeInput s) \<le> 10000" by (simp add: sanitizeInput_def)
next
  assume "length m = 11 \<and> map upperAscii m = map upperAscii (js ''javascript:'')"
  then show "removeJavascript (m @ r) = removeJavascript r"
    by (intro removeJavascript_match) simp_all
next
  assume "upperAscii a = 0x4F \<and> upperAscii b = 0x4E \<and> w \<noteq> [] \<and> list_all isWordChar w"
  then show "removeHandlers (a # b # w @ 0x3D # r) = removeHandlers r"
    by (intro removeHandlers_match) simp_all
next
  show "sanitizeInput (replicate n 0x61) = replicate (min n 10000) 0x61"
    by (rule sanitizeInput_letters)
  show "sanitizeInput (js ''  a onX_9=b  '') = js ''a b''"
    "sanitizeInput (js ''on-x=1'') = js ''on-x=1''"
    "sanitizeInput (js ''on=x'') = js ''on=x''"
    by (simp_all add: sanitizeInput_secrets)
  show "sanitizeInput (js ''javajavascript:script:x'') = js ''javascript:x''"
    "sanitizeInput bracketSecret = js ''ctf{b}''"
    "sanitizeInput schemeSecret = js ''ctf{b}''"
    "sanitizeInput handlerSecret = js ''ctf{b}''"
    by (simp_all add: sanitizeInput_secrets)
  show "hashFlag (toLowerCase exampleEnv) (FLAG_HASH_SALT exampleEnv) bracketSecret
       = Inr (toHex bracketDigest)"
    "hashFlag (toLowerCase exampleEnv) (FLAG_HASH_SALT exampleEnv) schemeSecret
       = Inr (toHex schemeDigest)"
    "hashFlag (toLowerCase exampleEnv) (FLAG_HASH_SALT exampleEnv) handlerSecret
       = Inr (toHex handlerDigest)"
    by (simp_all add: secret_fingerprints)
  have ne: "bracketSecret \<noteq> []" "schemeSecret \<noteq> []" "handlerSecret \<noteq> []"
    by (simp_all add: bracketSecret_def schemeSecret_def handlerSecret_def)
  show "response (POST exampleEnv (flagRequest bracketSecret) (fingerprinted (toHex bracketDigest)) Map.empty)
       = Responded (successResponse (verdict False FLAG_INCORRECT None None) None)"
    using digests_differ(1)
    by (simp add: secret_submission [OF ne(1) sanitizeInput_secrets(1)])
  show "response (POST exampleEnv (flagRequest schemeSecret) (fingerprinted (toHex schemeDigest)) Map.empty)
       = Responded (successResponse (verdict False FLAG_INCORRECT None None) None)"
    using digests_differ(2)
    by (simp add: secret_submission [OF ne(2) sanitizeInput_secrets(2)])
  show "response (POST exampleEnv (flagRequest handlerSecret) (fingerprinted (toHex handlerDigest)) Map.empty)
       = Responded (successResponse (verdict False FLAG_INCORRECT None None) None)"
    using digests_differ(3)
    by (simp add: secret_submission [OF ne(3) sanitizeInput_secrets(3)])
qed

lemma js_append: "js (a @ b) = js a @ js b"
  by (simp add: js_def)

text \<open>
  Witness for C9 (amended): alice submits \<open><\<close>, of which nothing is left;
  \<open>ctf{onLoad=b}\<close> for the challenge whose fingerprint was made from it, and is told
  the flag is incorrect, since what is hashed is \<open>ctf{b}\<close>; and \<open>ctf{<b>}\<close> for
  the challenge whose secret is \<open>ctf{b}\<close>, and is awarded its 250 points. A match
  of each pattern in mixed case is deleted.
\<close>

theorem sanitized_flag_is_matched_witness:
  "response (POST exampleEnv (flagRequest angleSecret) (fingerprinted angleFingerprint) Map.empty)
       = Responded (errorResponse VALIDATION_FAILED 400)
   \<and> response (POST exampleEnv (flagRequest handlerSecret) (fingerprinted (toHex handlerDigest)) Map.empty)
       = Responded (successResponse (verdict False FLAG_INCORRECT None None) None)
   \<and> response (POST exampleEnv (flagRequest bracketSecret) (fingerprinted (toHex strippedDigest)) Map.empty)
       = Responded (successResponse (verdict True FLAG_CORRECT (Some 250) (Some 750)) None)
   \<and> removeJavascript (js ''JavaScript:b'') = removeJavascript (js ''b'')
   \<and> removeHandlers (js ''onLoad=b'') = removeHandlers (js ''b'')"
proof -
  note T = sanitized_flag_is_matched
  have ne: "angleSecret \<noteq> []" "handlerSecret \<noteq> []" "bracketSecret \<noteq> []"
    by (simp_all add: angleSecret_def handlerSecret_def bracketSecret_def)
  have san: "sanitizeInput angleSecret = [] \<or> length (sanitizeInput angleSecret) > 256"
    by (simp add: angleSecret_def sanitizeInput_angle)
  have ok: "sanitizeInput handlerSecret \<noteq> []" "length (sanitizeInput handlerSecret) \<le> 256"
    "sanitizeInput bracketSecret \<noteq> []" "length (sanitizeInput bracketSecret) \<le> 256"
    by (simp_all add: sanitizeInput_secrets)
  have all: "\<forall>call. \<not> rejects exampleEnv call" by (simp add: example_facts)
  have h1: "authenticateRequest exampleEnv (flagRequest angleSecret) (fingerprinted angleFingerprint)
        = Inr (Inr (flagContext angleSecret))
      \<and> allowed (fst (fst (flagRateLimit exampleEnv (flagRequest angleSecret)
            (flagContext angleSecret) Map.empty)))
      \<and> body (flagRequest angleSecret) = JsonValue (JString (js ''c2'')) (JString angleSecret)
      \<and> js ''c2'' \<noteq> [] \<and> angleSecret \<noteq> []
      \<and> (sanitizeInput angleSecret = [] \<or> length (sanitizeInput angleSecret) > 256)"
    by (intro conjI flag_authenticated empty_allows flag_facts(1,2) ne san)
  have h2: "authenticateRequest exampleEnv (flagRequest handlerSecret) (fingerprinted (toHex handlerDigest))
        = Inr (Inr (flagContext handlerSecret))
      \<and> allowed (fst (fst (flagRateLimit exampleEnv (flagRequest handlerSecret)
            (flagContext handlerSecret) Map.empty)))
      \<and> body (flagRequest handlerSecret) = JsonValue (JString (js ''c2'')) (JString handlerSecret)
      \<and> js ''c2'' \<noteq> [] \<and> handlerSecret \<noteq> []
      \<and> sanitizeInput handlerSecret \<noteq> [] \<and> length (sanitizeInput handlerSecret) \<le> 256
      \<and> (case userData (flagContext handlerSecret) of None \<Rightarrow> True
          | Some d \<Rightarrow> js ''c2'' \<notin> set (solvedChallenges d))
      \<and> map_of (challenges (fingerprinted (toHex handlerDigest))) (js ''c2'')
          = Some (challengeTwo\<lparr>flagHash := toHex handlerDigest\<rparr>)
      \<and> isActive (challengeTwo\<lparr>flagHash := toHex handlerDigest\<rparr>)
      \<and> FLAG_HASH_SALT exampleEnv = Some (js ''pepper'') \<and> js ''pepper'' \<noteq> []
      \<and> (\<forall>call. \<not> rejects exampleEnv call)"
    by (intro conjI flag_authenticated empty_allows flag_facts(1,2,3,4,5) ne ok
        example_facts(1,2) all)
  have h3: "authenticateRequest exampleEnv (flagRequest bracketSecret) (fingerprinted (toHex strippedDigest))
        = Inr (Inr (flagContext bracketSecret))
      \<and> allowed (fst (fst (flagRateLimit exampleEnv (flagRequest bracketSecret)
            (flagContext bracketSecret) Map.empty)))
      \<and> body (flagRequest bracketSecret) = JsonValue (JString (js ''c2'')) (JString bracketSecret)
      \<and> js ''c2'' \<noteq> [] \<and> bracketSecret \<noteq> []
      \<and> sanitizeInput bracketSecret \<noteq> [] \<and> length (sanitizeInput bracketSecret) \<le> 256
      \<and> (case userData (flagContext bracketSecret) of None \<Rightarrow> True
          | Some d \<Rightarrow> js ''c2'' \<notin> set (solvedChallenges d))
      \<and> map_of (challenges (fingerprinted (toHex strippedDigest))) (js ''c2'')
          = Some (challengeTwo\<lparr>flagHash := toHex strippedDigest\<rparr>)
      \<and> isActive (challengeTwo\<lparr>flagHash := toHex strippedDigest\<rparr>)
      \<and> FLAG_HASH_SALT exampleEnv = Some (js ''pepper'') \<and> js ''pepper'' \<noteq> []
      \<and> (\<forall>call. \<not> rejects exampleEnv call)"
    by (intro conjI flag_authenticated empty_allows flag_facts(1,2,3,4,5) ne ok
        example_facts(1,2) all)
  have h5: "length (js ''JavaScript:'') = 11
      \<and> map upperAscii (js ''JavaScript:'') = map upperAscii (js ''javascript:'')"
    by code_simp
  have h6: "upperAscii 0x6F = 0x4F \<and> upperAscii 0x6E = 0x4E \<and> js ''Load'' \<noteq> []
      \<and> list_all isWordChar (js ''Load'')"
    by code_simp
  from T [THEN conjunct1, rule_format, OF h1]
  have c1: "response (POST exampleEnv (flagRequest angleSecret) (fingerprinted angleFingerprint) Map.empty)
       = Responded (errorResponse VALIDATION_FAILED 400)" .
  from T [THEN conjunct2, THEN conjunct1, rule_format, OF h2]
  have c2: "response (POST exampleEnv (flagRequest handlerSecret) (fingerprinted (toHex handlerDigest)) Map.empty)
       = Responded (successResponse (verdict False FLAG_INCORRECT None None) None)"
    using digests_differ(3)
    by (simp add: example_facts(3) sanitizeInput_secrets stripped_digest bufferFromHex_toHex)
  from T [THEN conjunct2, THEN conjunct1, rule_format, OF h3]
  have c3: "response (POST exampleEnv (flagRequest bracketSecret) (fingerprinted (toHex strippedDigest)) Map.empty)
       = Responded (successResponse (verdict True FLAG_CORRECT (Some 250) (Some 750)) None)"
    by (simp add: example_facts(3) sanitizeInput_secrets stripped_digest bufferFromHex_toHex
        flag_facts(6) aliceDocument_def challengeTwo_def)
  from T [THEN conjunct2, THEN conjunct2, THEN conjunct2, THEN conjunct2, THEN conjunct1,
      rule_format, OF h5, of "js ''b''"]
  have c5: "removeJavascript (js ''JavaScript:b'') = removeJavascript (js ''b'')"
    by (simp add: js_append [symmetric])
  from T [THEN conjunct2, THEN conjunct2, THEN conjunct2, THEN conjunct2, THEN conjunct2,
      THEN conjunct1, rule_format, OF h6, of "js ''b''"]
  have c6: "removeHandlers (js ''onLoad=b'') = removeHandlers (js ''b'')"
    by (simp add: js_def)
  from c1 c2 c3 c5 c6 show ?thesis by (intro conjI)
qed

lemma stripped_authenticated:
  "authenticateRequest exampleEnv strippedRequest strippedDatabase = Inr (Inr strippedContext)"
  by (simp add: authenticateRequest_def strippedRequest_def verifyAuthToken_bearer exampleEnv_def
      aliceToken_def exampleDatabase_def strippedDatabase_def aliceDocument_def strippedContext_def)

text \<open>
  A correct submission from end to end: alice submits \<open>ctf{b}\<close> for the challenge
  worth 250 points with a score of 500, and is answered \<open>correct: true\<close>, 250 points
  awarded, new score 750.
\<close>

lemma correct_submission:
  "response (POST exampleEnv strippedRequest strippedDatabase Map.empty)
     = Responded (successResponse (verdict True FLAG_CORRECT (Some 250) (Some 750)) None)"
  "users (database (POST exampleEnv strippedRequest strippedDatabase Map.empty)) (js ''alice'')
     = Some aliceRewarded"
  "map_option solveCount
     (map_of (challenges (database (POST exampleEnv strippedRequest strippedDatabase Map.empty))) (js ''c2''))
     = Some 1"
proof -
  let ?h = "hashIpAddress (FLAG_HASH_SALT exampleEnv) (getClientIp strippedRequest)"
  let ?rec = "strippedDatabase\<lparr>submissions := submissions strippedDatabase @
               [\<lparr>subChallengeId = js ''c2'', subUserId = uid (user strippedContext), subCorrect = True,
                 subIpAddress = ?h\<rparr>]\<rparr>"
  let ?ch = "challengeTwo\<lparr>flagHash := toHex strippedDigest\<rparr>"
  let ?committed = "?rec\<lparr>users := (users ?rec)(js ''alice'' \<mapsto> aliceRewarded),
      challenges := [(js ''c1'', challengeOne), (js ''c2'', ?ch\<lparr>solveCount := 1\<rparr>)]\<rparr>"
  have salt: "FLAG_HASH_SALT exampleEnv = Some (js ''pepper'')" "js ''pepper'' \<noteq> []"
    "toLowerCase exampleEnv = toLowerCaseLatin1"
    by (simp_all add: exampleEnv_def)
  have ok: "validateFlag (toLowerCase exampleEnv) (FLAG_HASH_SALT exampleEnv) (js ''ctf{b}'') (flagHash ?ch) = Inr True"
    by (simp add: salt validateFlag_digests stripped_digest)
  have tx: "scoreTransaction (user strippedContext) (js ''c2'') ?ch ?rec = Inr ?committed"
    by (simp add: scoreTransaction_def strippedContext_def aliceToken_def strippedDatabase_def
        exampleDatabase_def aliceDocument_def arrayUnion_def aliceRewarded_def challengeTwo_def
        js_simps)
  have sub: "submitFlag exampleEnv strippedContext ?h (js ''c2'') (js ''ctf{b}'') strippedDatabase
      = (Inr (successResponse (verdict True FLAG_CORRECT (Some (points ?ch))
                (Some (case users ?committed (uid (user strippedContext)) of None \<Rightarrow> 0
                       | Some d \<Rightarrow> score d))) None), ?committed)"
    by (rule submitFlag_correct [OF _ _ _ _ ok _ _ tx])
      (simp_all add: strippedContext_def aliceDocument_def exampleEnv_def strippedDatabase_def
        challengeTwo_def js_simps)
  have post: "POST exampleEnv strippedRequest strippedDatabase Map.empty =
      \<lparr>response = Responded (successResponse (verdict True FLAG_CORRECT (Some (points ?ch))
                (Some (case users ?committed (uid (user strippedContext)) of None \<Rightarrow> 0
                       | Some d \<Rightarrow> score d))) None),
       database = ?committed,
       limiter = snd (flagRateLimit exampleEnv strippedRequest strippedContext Map.empty)\<rparr>"
  proof -
    have bd: "body strippedRequest = JsonValue (JString (js ''c2'')) (JString (js ''ctf{b}''))"
      by (simp add: strippedRequest_def submission_def)
    have ne: "js ''c2'' \<noteq> []" "js ''ctf{b}'' \<noteq> []" "sanitizeInput (js ''ctf{b}'') \<noteq> []"
      "length (sanitizeInput (js ''ctf{b}'')) \<le> 256"
      by (simp_all add: sanitizeInput_secrets(4))
    show ?thesis
      by (simp only: POST_evaluated [OF stripped_authenticated empty_allows bd ne]
          sanitizeInput_secrets(4) sub fst_conv snd_conv sum.case)
  qed
  show "response (POST exampleEnv strippedRequest strippedDatabase Map.empty)
     = Responded (successResponse (verdict True FLAG_CORRECT (Some 250) (Some 750)) None)"
    by (simp add: post strippedContext_def aliceToken_def aliceRewarded_def challengeTwo_def)
  show "users (database (POST exampleEnv strippedRequest strippedDatabase Map.empty)) (js ''alice'')
     = Some aliceRewarded"
    by (simp add: post)
  show "map_option solveCount
     (map_of (challenges (database (POST exampleEnv strippedRequest strippedDatabase Map.empty))) (js ''c2''))
     = Some 1"
    by (simp add: post js_simps)
qed

section \<open>The invariant on the example store\<close>

lemma strippedDatabase_consistent:
  "\<forall>u d. users strippedDatabase u = Some d \<longrightarrow> scoreConsistent strippedDatabase d"
  by (simp add: strippedDatabase_def exampleDatabase_def aliceDocument_def scoreConsistent_def
      pointsOf_def challengeOne_def)

text \<open>
  Witness for C6: a fresh document; alice solving \<open>c2\<close> by the transaction alone; and
  alice's correct submission, after which her document shows 750 points for the two
  challenges worth 500 and 250.
\<close>

theorem score_sum_invariant_witness:
  "scoreConsistent exampleDatabase newUserDocument
   \<and> (\<exists>db'. scoreTransaction aliceToken (js ''c2'') challengeTwo exampleDatabase = Inr db'
        \<and> users db' (js ''alice'') = Some aliceRewarded
        \<and> scoreConsistent db' aliceRewarded)
   \<and> users (database (POST exampleEnv strippedRequest strippedDatabase Map.empty)) (js ''alice'')
       = Some aliceRewarded
   \<and> scoreConsistent (database (POST exampleEnv strippedRequest strippedDatabase Map.empty))
       aliceRewarded"
proof -
  let ?db = "\<lparr>users = [js ''alice'' \<mapsto> aliceRewarded],
            challenges = [(js ''c1'', challengeOne), (js ''c2'', challengeTwo\<lparr>solveCount := 1\<rparr>)],
            submissions = []\<rparr>"
  have run: "scoreTransaction aliceToken (js ''c2'') challengeTwo exampleDatabase = Inr ?db"
    by (simp add: scoreTransaction_def exampleDatabase_def aliceToken_def aliceDocument_def
        js_simps arrayUnion_def challengeTwo_def aliceRewarded_def)
  have fixed: "pointsOf exampleDatabase (js ''c2'') = points challengeTwo"
    by (simp add: pointsOf_def exampleDatabase_def js_simps)
  note T = score_sum_invariant [OF exampleDatabase_consistent,
      of "js ''bob''" "js ''c2''" challengeTwo aliceToken]
  from T have c1: "scoreConsistent exampleDatabase newUserDocument" by (rule conjunct1)
  from T have "\<forall>db'. pointsOf exampleDatabase (js ''c2'') = points challengeTwo
          \<and> scoreTransaction aliceToken (js ''c2'') challengeTwo exampleDatabase = Inr db'
          \<longrightarrow> (\<forall>u d. users db' u = Some d \<longrightarrow> scoreConsistent db' d)"
    by blast
  with run fixed have "\<forall>u d. users ?db u = Some d \<longrightarrow> scoreConsistent ?db d" by blast
  then have "scoreConsistent ?db aliceRewarded" by simp
  with run have c2: "\<exists>db'. scoreTransaction aliceToken (js ''c2'') challengeTwo exampleDatabase = Inr db'
        \<and> users db' (js ''alice'') = Some aliceRewarded
        \<and> scoreConsistent db' aliceRewarded"
    by simp
  from score_sum_invariant [OF strippedDatabase_consistent,
      of "js ''bob''" "js ''c2''" challengeTwo aliceToken exampleEnv strippedRequest Map.empty]
  have "\<forall>u d. users (database (POST exampleEnv strippedRequest strippedDatabase Map.empty)) u = Some d
          \<longrightarrow> scoreConsistent (database (POST exampleEnv strippedRequest strippedDatabase Map.empty)) d"
    by blast
  with correct_submission(2)
  have c4: "scoreConsistent (database (POST exampleEnv strippedRequest strippedDatabase Map.empty))
       aliceRewarded"
    by blast
  from c1 c2 correct_submission(2) c4 show ?thesis by (intro conjI)
qed

end
